(* ===== verification/Prelude.thy ===== *)
theory Prelude
  imports Main "HOL-Library.Word"
begin

text \<open>
  Shared vocabulary of the development: the machine types the sources use, the
  collections of rewrite rules the component theories fill, the generic lemmas on
  lists and words, and the interfaces (locales) more than one component implements.
\<close>

section \<open>Types and rule collections\<close>

type_synonym u8 = "8 word"
type_synonym u16 = "16 word"
type_synonym u32 = "32 word"
type_synonym u64 = "64 word"
type_synonym bytes = "u8 list"

text \<open>
  \<open>model_defs\<close> collects the equations of the non-recursive operations, so that a
  lemma about one branch is proved by unfolding them; \<open>inv_simps\<close> collects the
  rewrite rules about well-formedness that the operations of a component share.
\<close>

named_theorems model_defs
named_theorems inv_simps

section \<open>Invariants of transition systems\<close>

text \<open>
  Several components are state machines: what they promise is an invariant that the
  initial states have and every step keeps. A component interprets this locale once,
  with its own step relation and invariant, and then owns the reachability lemmas.
\<close>

locale invariant_system =
  fixes start :: "'s \<Rightarrow> bool"
    and step :: "'s \<Rightarrow> 's \<Rightarrow> bool"
    and inv :: "'s \<Rightarrow> bool"
  assumes inv_start: "start s \<Longrightarrow> inv s"
    and inv_step: "step s t \<Longrightarrow> inv s \<Longrightarrow> inv t"
begin

lemma inv_steps: "step\<^sup>*\<^sup>* s t \<Longrightarrow> inv s \<Longrightarrow> inv t"
  by (induction rule: rtranclp_induct) (auto intro: inv_step)

lemma reachable_inv: "start s \<Longrightarrow> step\<^sup>*\<^sup>* s t \<Longrightarrow> inv t"
  using inv_start inv_steps by blast

end

section \<open>Lists\<close>

lemma takeWhile_all: "(\<And>x. x \<in> set xs \<Longrightarrow> P x) \<Longrightarrow> takeWhile P xs = xs"
  by (induction xs) auto

lemma takeWhile_none: "(\<And>x. x \<in> set xs \<Longrightarrow> \<not> P x) \<Longrightarrow> takeWhile P xs = []"
  by (cases xs) auto

lemma takeWhile_neq: "z \<notin> set xs \<Longrightarrow> takeWhile (\<lambda>b. b \<noteq> z) xs = xs"
  by (induction xs) auto

lemma map_fun_upd_notin: "x \<notin> set xs \<Longrightarrow> map (f(x := y)) xs = map f xs"
  by (induction xs) auto

lemma sorted_wrt_cong_key:
  assumes "sorted_wrt (\<lambda>a b. k a < k b) xs" and "\<And>x. x \<in> set xs \<Longrightarrow> k' x = k x"
  shows "sorted_wrt (\<lambda>a b. k' a < (k' b :: int)) xs"
  using assms by (induction xs) auto

section \<open>Sums over an updated function\<close>

lemma sum_fun_upd:
  fixes g :: "'b \<Rightarrow> 'c :: comm_monoid_add"
  assumes "finite A" and "a \<in> A"
  shows "(\<Sum>i \<in> A. g ((f(a := x)) i)) + g (f a) = (\<Sum>i \<in> A. g (f i)) + g x"
proof -
  have "(\<Sum>i \<in> A - {a}. g ((f(a := x)) i)) = (\<Sum>i \<in> A - {a}. g (f i))"
    by (rule sum.cong) auto
  then show ?thesis
    using sum.remove [OF assms, of "\<lambda>i. g ((f(a := x)) i)"] sum.remove [OF assms, of "\<lambda>i. g (f i)"]
    by (simp add: ac_simps)
qed

end
