(* ===== verification/Text.thy ===== *)
theory Text
  imports Prelude
begin

text \<open>
  The parts of the standard string library the sources use on text: literals, decimal
  numbers, and searching for a character.  A \<^verbatim>\<open>std::string\<close> is a list of bytes.
\<close>

definition str :: "string \<Rightarrow> bytes" where
  "str s = map (\<lambda>c. of_nat (of_char c)) s"

fun nat_digits :: "nat \<Rightarrow> bytes" where
  "nat_digits n = (if n < 10 then [of_nat (48 + n)] else nat_digits (n div 10) @ [of_nat (48 + n mod 10)])"

declare nat_digits.simps [simp del]

definition int_to_string :: "int \<Rightarrow> bytes" where
  \<comment> \<open>\<^verbatim>\<open>std::to_string(int)\<close>\<close>
  "int_to_string i = (if i < 0 then 45 # nat_digits (nat (- i)) else nat_digits (nat i))"

definition is_digit :: "u8 \<Rightarrow> bool" where
  "is_digit b \<longleftrightarrow> 48 \<le> unat b \<and> unat b \<le> 57"

definition digits_val :: "bytes \<Rightarrow> nat" where
  "digits_val ds = foldl (\<lambda>n d. 10 * n + (unat d - 48)) 0 ds"

datatype stoi_error = StoiInvalid | StoiRange

definition is_space :: "u8 \<Rightarrow> bool" where
  "is_space b \<longleftrightarrow> b = 32 \<or> 9 \<le> unat b \<and> unat b \<le> 13"

definition scan_int :: "bytes \<Rightarrow> int option" where
  \<comment> \<open>white space, a sign, the longest run of digits; what follows is ignored\<close>
  "scan_int s =
     (let t = dropWhile is_space s;
          neg = (t \<noteq> [] \<and> hd t = 45);
          u = (if t \<noteq> [] \<and> (hd t = 45 \<or> hd t = 43) then tl t else t);
          ds = takeWhile is_digit u
      in if ds = [] then None else Some (if neg then - int (digits_val ds) else int (digits_val ds)))"

definition stoi :: "bytes \<Rightarrow> stoi_error + int" where
  \<comment> \<open>\<^verbatim>\<open>std::stoi\<close>\<close>
  "stoi s =
     (case scan_int s of
        None \<Rightarrow> Inl StoiInvalid
      | Some v \<Rightarrow> if v < - (2 ^ 31) \<or> 2 ^ 31 \<le> v then Inl StoiRange else Inr v)"

definition atoi :: "bytes \<Rightarrow> int" where
  \<comment> \<open>\<^verbatim>\<open>atoi\<close>: what \<open>strtol\<close> gives, cut to 32 bits\<close>
  "atoi s =
     (case scan_int s of
        None \<Rightarrow> 0
      | Some v \<Rightarrow> sint (word_of_int (max (- (2 ^ 63)) (min (2 ^ 63 - 1) v)) :: u32))"

fun find_char :: "u8 \<Rightarrow> bytes \<Rightarrow> nat option" where
  \<comment> \<open>\<^verbatim>\<open>std::string::find(char)\<close>\<close>
  "find_char c [] = None"
| "find_char c (b # bs) = (if b = c then Some 0 else map_option Suc (find_char c bs))"

lemma digit_byte: "d < 10 \<Longrightarrow> unat (of_nat (48 + d) :: u8) = 48 + d"
  by (subst unat_of_nat) (simp del: of_nat_add)

lemma nat_digits_digits: "b \<in> set (nat_digits n) \<Longrightarrow> is_digit b"
proof (induction n rule: nat_digits.induct)
  case (1 n)
  have "is_digit (of_nat (48 + d))" if "d < 10" for d
    using digit_byte [OF that] that by (simp add: is_digit_def del: of_nat_add)
  then show ?case
    using 1 by (subst (asm) nat_digits.simps) (auto split: if_splits simp del: of_nat_add)
qed

lemma nat_digits_nonempty [simp]: "nat_digits n \<noteq> []"
  by (subst nat_digits.simps) simp

lemma nat_digits_length: "n < 10 ^ Suc k \<Longrightarrow> length (nat_digits n) \<le> Suc k"
proof (induction k arbitrary: n)
  case (Suc k)
  then have "n div 10 < 10 ^ Suc k" by (simp add: less_mult_imp_div_less mult.commute)
  then show ?case using Suc.IH by (subst nat_digits.simps) auto
qed (subst nat_digits.simps, simp)

lemma digits_val_nat_digits: "digits_val (nat_digits n) = n"
proof (induction n rule: nat_digits.induct)
  case (1 n)
  show ?case
  proof (cases "n < 10")
    case True
    then show ?thesis
      using digit_byte [of n] by (subst nat_digits.simps) (simp add: digits_val_def del: of_nat_add)
  next
    case False
    have "digits_val (nat_digits n) = 10 * digits_val (nat_digits (n div 10)) + n mod 10"
      using digit_byte [of "n mod 10"] False
      by (subst nat_digits.simps) (simp add: digits_val_def del: of_nat_add)
    then show ?thesis using 1 [OF False] by simp
  qed
qed

lemma hd_digits: "\<forall>b \<in> set ds. is_digit b \<Longrightarrow> ds \<noteq> [] \<Longrightarrow> \<not> is_space (hd ds) \<and> hd ds \<noteq> 45 \<and> hd ds \<noteq> 43"
  by (cases ds) (auto simp: is_digit_def is_space_def)

lemma scan_int_to_string: "scan_int (int_to_string i) = Some i"
proof -
  have tw: "takeWhile is_digit (nat_digits n) = nat_digits n" for n
    by (rule takeWhile_all) (rule nat_digits_digits)
  have hd: "\<not> is_space (hd (nat_digits n)) \<and> hd (nat_digits n) \<noteq> 45 \<and> hd (nat_digits n) \<noteq> 43" for n
    by (rule hd_digits) (auto intro: nat_digits_digits)
  have dw: "dropWhile is_space (nat_digits n) = nat_digits n" for n
    using hd [of n] by (cases "nat_digits n") auto
  show ?thesis
  proof (cases "i < 0")
    case True
    have "\<not> is_space 45" by (simp add: is_space_def)
    then show ?thesis
      using True by (simp add: scan_int_def int_to_string_def tw digits_val_nat_digits Let_def)
  next
    case False
    then show ?thesis
      using hd [of "nat i"] by (simp add: scan_int_def int_to_string_def tw dw digits_val_nat_digits Let_def)
  qed
qed

lemma stoi_int_to_string: "- (2 ^ 31) \<le> i \<Longrightarrow> i < 2 ^ 31 \<Longrightarrow> stoi (int_to_string i) = Inr i"
  by (simp add: stoi_def scan_int_to_string)

lemma atoi_int_to_string:
  assumes "- (2 ^ 31) \<le> i" and "i < 2 ^ 31"
  shows "atoi (int_to_string i) = i"
proof -
  have "max (- (2 ^ 63)) (min (2 ^ 63 - 1) i) = i" using assms by simp
  moreover have "sint (word_of_int i :: u32) = i" using assms by (simp add: sint_sbintrunc' signed_take_bit_int_eq_self)
  ultimately show ?thesis by (simp add: atoi_def scan_int_to_string)
qed

lemma find_char_none: "c \<notin> set xs \<Longrightarrow> find_char c xs = None"
  by (induction xs) auto

lemma find_char_first: "c \<notin> set xs \<Longrightarrow> find_char c (xs @ c # ys) = Some (length xs)"
  by (induction xs) auto

end
