(* ===== verification/Threads.thy ===== *)
theory Threads
  imports Prelude Text
begin

text \<open>
  \<^verbatim>\<open>CoroutineLibrary/thread.h\<close>, \<^verbatim>\<open>thread.cpp\<close>: the semaphore and the wrapper of a kernel thread.
  The objects live in a store \<open>objs\<close>; the thread-local variables are functions of the kernel
  thread.  What \<open>pthread_create\<close> and \<open>pthread_join\<close> answer are arguments;
  the name given to the kernel thread is left out.
\<close>

section \<open>\<open>Semaphore\<close>\<close>

definition sem_wait :: "int \<Rightarrow> int option" where
  \<comment> \<open>\<open>None\<close>: the caller waits on the condition variable\<close>
  "sem_wait count = (if count = 0 then None else Some (count - 1))"

definition sem_signal :: "int \<Rightarrow> int" where
  "sem_signal count = count + 1"

text \<open>
  What every counting semaphore promises, whoever implements it: a wait that succeeds takes one
  permit and succeeds only when there is one, a wait blocks (\<open>None\<close>) only when there is none,
  a post that succeeds adds one, and calls that fail change nothing.  \<open>sem_run\<close> counts the waits and
  posts that succeed in a sequence of calls; a wait that blocks is left pending.
\<close>

datatype sem_call = SemWait | SemPost

fun sem_run :: "('s \<Rightarrow> (bool \<times> 's) option) \<Rightarrow> ('s \<Rightarrow> bool \<times> 's) \<Rightarrow> sem_call list \<Rightarrow> 's \<Rightarrow> nat \<times> nat \<times> 's" where
  "sem_run wait post [] s = (0, 0, s)"
| "sem_run wait post (SemWait # cs) s =
     (case wait s of
        None \<Rightarrow> sem_run wait post cs s
      | Some (ok, s1) \<Rightarrow> (case sem_run wait post cs s1 of (n, m, s2) \<Rightarrow> (of_bool ok + n, m, s2)))"
| "sem_run wait post (SemPost # cs) s =
     (case post s of
        (ok, s1) \<Rightarrow> (case sem_run wait post cs s1 of (n, m, s2) \<Rightarrow> (n, of_bool ok + m, s2)))"

locale counting_semaphore =
  fixes valid :: "'s \<Rightarrow> bool"
    and permits :: "'s \<Rightarrow> int"
    and wait :: "'s \<Rightarrow> (bool \<times> 's) option"
    and post :: "'s \<Rightarrow> bool \<times> 's"
  assumes permits_nonneg: "valid s \<Longrightarrow> 0 \<le> permits s"
    and wait_free: "valid s \<Longrightarrow> 0 < permits s \<Longrightarrow> wait s \<noteq> None"
    and wait_takes: "valid s \<Longrightarrow> wait s = Some (ok, s1) \<Longrightarrow> valid s1 \<and> permits s1 = permits s - of_bool ok"
    and post_adds: "valid s \<Longrightarrow> post s = (ok, s1) \<Longrightarrow> valid s1 \<and> permits s1 = permits s + of_bool ok"
begin

lemma run_permits:
  "valid s \<Longrightarrow> sem_run wait post cs s = (n, m, s1) \<Longrightarrow> valid s1 \<and> permits s1 = permits s + int m - int n"
proof (induction cs arbitrary: s n m)
  case (Cons c cs)
  show ?case
  proof (cases c)
    case SemWait
    then show ?thesis using Cons.prems Cons.IH wait_takes [OF Cons.prems(1)]
      by (fastforce split: option.splits prod.splits)
  next
    case SemPost
    then show ?thesis using Cons.prems Cons.IH post_adds [OF Cons.prems(1)] by (fastforce split: prod.splits)
  qed
qed simp

lemma successes_bounded:
  assumes "valid s" and "sem_run wait post cs s = (n, m, s1)"
  shows "int n \<le> permits s + int m"
  using run_permits [OF assms] permits_nonneg [of s1] by simp

lemma blocks_only_when_used_up:
  assumes "valid s" and "sem_run wait post cs s = (n, m, s1)" and "wait s1 = None"
  shows "int n = permits s + int m"
  using run_permits [OF assms(1,2)] permits_nonneg [of s1] wait_free [of s1] assms(3) by (smt (verit))

end

text \<open>
  The semaphore of a thread is one as long as its count is not negative; with a negative count
  \<open>wait\<close>, which compares with 0, would never block.
\<close>

interpretation ts: counting_semaphore "\<lambda>n. 0 \<le> n" "\<lambda>n. n" "\<lambda>n. map_option (Pair True) (sem_wait n)" "\<lambda>n. (True, sem_signal n)"
  by unfold_locales (auto simp: sem_wait_def sem_signal_def split: if_splits)

lemma negative_count_never_waits: "n < 0 \<Longrightarrow> sem_run (\<lambda>n. map_option (Pair True) (sem_wait n)) post (replicate k SemWait) n = (k, 0, n - int k)"
  by (induction k arbitrary: n) (auto simp: sem_wait_def)

section \<open>\<open>Thread\<close>\<close>

record 'cb thread_obj =
  m_id :: int
  m_thread :: nat                \<comment> \<open>0: none\<close>
  m_cb :: "'cb option"
  m_name :: bytes
  m_semaphore :: int

record 'cb thread_world =
  objs :: "nat \<Rightarrow> 'cb thread_obj"
  t_thread :: "nat \<Rightarrow> nat option"
  t_thread_name :: "nat \<Rightarrow> bytes"

datatype thread_error = CreateError | JoinError

definition thread_world_new :: "(nat \<Rightarrow> 'cb thread_obj) \<Rightarrow> 'cb thread_world" where
  "thread_world_new h = \<lparr>objs = h, t_thread = (\<lambda>_. None), t_thread_name = (\<lambda>_. str ''UNKNOWN'')\<rparr>"

definition upd_obj :: "nat \<Rightarrow> ('cb thread_obj \<Rightarrow> 'cb thread_obj) \<Rightarrow> 'cb thread_world \<Rightarrow> 'cb thread_world" where
  "upd_obj p f w = w\<lparr>objs := (objs w)(p := f (objs w p))\<rparr>"

definition Thread_GetThis :: "'cb thread_world \<Rightarrow> nat \<Rightarrow> nat option" where
  "Thread_GetThis w t = t_thread w t"

definition Thread_GetName :: "'cb thread_world \<Rightarrow> nat \<Rightarrow> bytes" where
  "Thread_GetName w t = t_thread_name w t"

definition Thread_SetName :: "bytes \<Rightarrow> nat \<Rightarrow> 'cb thread_world \<Rightarrow> 'cb thread_world" where
  "Thread_SetName name t w =
     (let w1 = (case t_thread w t of None \<Rightarrow> w | Some p \<Rightarrow> upd_obj p (\<lambda>x. x\<lparr>m_name := name\<rparr>) w)
      in w1\<lparr>t_thread_name := (t_thread_name w1)(t := name)\<rparr>)"

definition thread_obj_new :: "'cb \<Rightarrow> bytes \<Rightarrow> 'cb thread_obj" where
  "thread_obj_new cb name = \<lparr>m_id = - 1, m_thread = 0, m_cb = Some cb, m_name = name, m_semaphore = 0\<rparr>"

definition Thread_create :: "nat \<Rightarrow> int \<times> nat \<Rightarrow> 'cb thread_world \<Rightarrow> thread_error + 'cb thread_world" where
  \<comment> \<open>\<open>pthread_create\<close> gives its result and the handle it stored\<close>
  "Thread_create p created w =
     (case created of (rt, h) \<Rightarrow>
        (if rt \<noteq> 0 then Inl CreateError else Inr (upd_obj p (\<lambda>x. x\<lparr>m_thread := h\<rparr>) w)))"

definition Thread_wait :: "nat \<Rightarrow> 'cb thread_world \<Rightarrow> 'cb thread_world option" where
  \<comment> \<open>the end of the constructor\<close>
  "Thread_wait p w =
     map_option (\<lambda>n. upd_obj p (\<lambda>x. x\<lparr>m_semaphore := n\<rparr>) w) (sem_wait (m_semaphore (objs w p)))"

definition Thread_run :: "nat \<Rightarrow> nat \<Rightarrow> int \<Rightarrow> 'cb thread_world \<Rightarrow> 'cb option \<times> 'cb thread_world" where
  \<comment> \<open>up to the call of \<open>cb\<close>: what it will call, taken out of the object, and the semaphore signalled\<close>
  "Thread_run p t tid w =
     (let w1 = w\<lparr>t_thread := (t_thread w)(t := Some p), t_thread_name := (t_thread_name w)(t := m_name (objs w p))\<rparr>
      in (m_cb (objs w p),
          upd_obj p (\<lambda>x. x\<lparr>m_id := tid, m_cb := None, m_semaphore := sem_signal (m_semaphore x)\<rparr>) w1))"

definition Thread_join :: "nat \<Rightarrow> int \<Rightarrow> 'cb thread_world \<Rightarrow> thread_error + 'cb thread_world" where
  "Thread_join p rt w =
     (if m_thread (objs w p) = 0 then Inr w
      else if rt \<noteq> 0 then Inl JoinError
      else Inr (upd_obj p (\<lambda>x. x\<lparr>m_thread := 0\<rparr>) w))"

definition Thread_delete :: "nat \<Rightarrow> 'cb thread_world \<Rightarrow> bool \<times> 'cb thread_world" where
  \<comment> \<open>whether the kernel thread is detached\<close>
  "Thread_delete p w =
     (if m_thread (objs w p) \<noteq> 0 then (True, upd_obj p (\<lambda>x. x\<lparr>m_thread := 0\<rparr>) w) else (False, w))"

section \<open>The creation of a thread\<close>

text \<open>
  The constructor and the new kernel thread run side by side; any thread may rename itself
  meanwhile.
\<close>

datatype creator_pc = Called | AtWait | Returned | Threw
datatype 'cb runner_pc = NotYet | AtStart | Calling "'cb option"

record 'cb creation =
  thread_w :: "'cb thread_world"
  creator :: creator_pc
  runner :: "'cb runner_pc"

inductive creation_step :: "nat \<Rightarrow> nat \<Rightarrow> int \<Rightarrow> 'cb creation \<Rightarrow> 'cb creation \<Rightarrow> bool" for p t tid where
  cr_create: "creator s = Called \<Longrightarrow> Thread_create p (rt, h) (thread_w s) = Inr w1 \<Longrightarrow>
    creation_step p t tid s (s\<lparr>thread_w := w1, creator := AtWait, runner := AtStart\<rparr>)"
| cr_throw: "creator s = Called \<Longrightarrow> Thread_create p (rt, h) (thread_w s) = Inl e \<Longrightarrow>
    creation_step p t tid s (s\<lparr>creator := Threw\<rparr>)"
| cr_run: "runner s = AtStart \<Longrightarrow> Thread_run p t tid (thread_w s) = (cb, w1) \<Longrightarrow>
    creation_step p t tid s (s\<lparr>thread_w := w1, runner := Calling cb\<rparr>)"
| cr_return: "creator s = AtWait \<Longrightarrow> Thread_wait p (thread_w s) = Some w1 \<Longrightarrow>
    creation_step p t tid s (s\<lparr>thread_w := w1, creator := Returned\<rparr>)"
| cr_rename: "creation_step p t tid s (s\<lparr>thread_w := Thread_SetName name u (thread_w s)\<rparr>)"

definition creation_start :: "nat \<Rightarrow> 'cb \<Rightarrow> 'cb creation \<Rightarrow> bool" where
  "creation_start p cb s \<longleftrightarrow>
     (\<exists>name. objs (thread_w s) p = thread_obj_new cb name) \<and> creator s = Called \<and> runner s = NotYet"

definition creation_ok :: "nat \<Rightarrow> nat \<Rightarrow> int \<Rightarrow> 'cb \<Rightarrow> 'cb creation \<Rightarrow> bool" where
  "creation_ok p t tid cb s =
     (let o1 = objs (thread_w s) p
      in case runner s of
           NotYet \<Rightarrow> creator s \<in> {Called, Threw} \<and> m_semaphore o1 = 0 \<and> m_cb o1 = Some cb
         | AtStart \<Rightarrow> creator s = AtWait \<and> m_semaphore o1 = 0 \<and> m_cb o1 = Some cb
         | Calling c \<Rightarrow> c = Some cb \<and> m_id o1 = tid \<and> m_cb o1 = None \<and> t_thread (thread_w s) t = Some p
             \<and> (creator s = AtWait \<and> m_semaphore o1 = 1 \<or> creator s = Returned \<and> m_semaphore o1 = 0))"

lemma SetName_frame [simp]:
  "t_thread (Thread_SetName name u w) = t_thread w"
  "m_id (objs (Thread_SetName name u w) p) = m_id (objs w p)" "m_cb (objs (Thread_SetName name u w) p) = m_cb (objs w p)"
  "m_semaphore (objs (Thread_SetName name u w) p) = m_semaphore (objs w p)"
  by (simp_all add: Thread_SetName_def upd_obj_def Let_def split: option.split)

lemma creation_step_ok:
  assumes "creation_step p t tid s s1" and "creation_ok p t tid cb s"
  shows "creation_ok p t tid cb s1"
  using assms
  by (cases rule: creation_step.cases)
     (auto simp: creation_ok_def Let_def Thread_create_def Thread_run_def Thread_wait_def upd_obj_def sem_signal_def sem_wait_def
       split: runner_pc.splits if_splits)

interpretation cre: invariant_system "creation_start p cb" "creation_step p t tid" "creation_ok p t tid cb" for p cb t tid
proof unfold_locales
  show "creation_ok p t tid cb s" if "creation_start p cb s" for s
    using that by (auto simp: creation_start_def creation_ok_def thread_obj_new_def)
qed (rule creation_step_ok)

section \<open>Properties\<close>


definition demo_creation :: "nat creation" where
  "demo_creation = \<lparr>thread_w = thread_world_new (\<lambda>_. thread_obj_new 7 (str ''io'')), creator = Called, runner = NotYet\<rparr>"

lemma demo_creation_start: "creation_start 0 7 demo_creation"
  by (auto simp: creation_start_def demo_creation_def thread_world_new_def)

lemma demo_creation_waits:
  "\<exists>s1. (creation_step 0 3 1234)\<^sup>*\<^sup>* demo_creation s1 \<and> creator s1 = AtWait \<and> runner s1 = AtStart
     \<and> m_semaphore (objs (thread_w s1) 0) = 0 \<and> m_cb (objs (thread_w s1) 0) = Some 7"
proof -
  let ?w1 = "upd_obj 0 (\<lambda>x. x\<lparr>m_thread := 9\<rparr>) (thread_w demo_creation)"
  have "creation_step 0 3 1234 demo_creation (demo_creation\<lparr>thread_w := ?w1, creator := AtWait, runner := AtStart\<rparr>)"
    by (rule creation_step.cr_create [where rt = 0 and h = 9]) (simp_all add: demo_creation_def Thread_create_def)
  then have "(creation_step 0 3 1234)\<^sup>*\<^sup>* demo_creation (demo_creation\<lparr>thread_w := ?w1, creator := AtWait, runner := AtStart\<rparr>)"
    by (rule r_into_rtranclp)
  then show ?thesis by (intro exI conjI) (auto simp: upd_obj_def demo_creation_def thread_world_new_def thread_obj_new_def)
qed

lemma demo_creation_returns:
  "\<exists>s1. (creation_step 0 3 1234)\<^sup>*\<^sup>* demo_creation s1 \<and> creator s1 = Returned"
proof -
  obtain s1 where s1: "(creation_step 0 3 1234)\<^sup>*\<^sup>* demo_creation s1" "creator s1 = AtWait" "runner s1 = AtStart"
    "m_semaphore (objs (thread_w s1) 0) = 0" using demo_creation_waits by blast
  obtain c w2 where r: "Thread_run 0 3 1234 (thread_w s1) = (c, w2)" by fastforce
  then have sem: "m_semaphore (objs w2 0) = 1" using s1(4) by (auto simp: Thread_run_def Let_def upd_obj_def sem_signal_def)
  let ?s2 = "s1\<lparr>thread_w := w2, runner := Calling c\<rparr>"
  obtain w3 where "Thread_wait 0 (thread_w ?s2) = Some w3" using sem by (simp add: Thread_wait_def sem_wait_def)
  then have "creation_step 0 3 1234 ?s2 (?s2\<lparr>thread_w := w3, creator := Returned\<rparr>)"
    using s1(2) by (intro creation_step.cr_return) simp_all
  moreover have "creation_step 0 3 1234 s1 ?s2" using s1(3) r by (rule creation_step.cr_run)
  ultimately have "(creation_step 0 3 1234)\<^sup>*\<^sup>* demo_creation (?s2\<lparr>thread_w := w3, creator := Returned\<rparr>)"
    using s1(1) by (meson rtranclp.rtrancl_into_rtrancl)
  moreover have "creator (?s2\<lparr>thread_w := w3, creator := Returned\<rparr>) = Returned" by simp
  ultimately show ?thesis by blast
qed


text \<open>
  The constructor cannot be left waiting: from every state the creation can reach in which the kernel
  thread exists, the constructor returns after at most the one step of the new thread and the
  one that takes the semaphore, so the signal is never lost, whichever of the two comes first.
\<close>

theorem constructor_returns:
  assumes "creation_start p cb s" and "(creation_step p t tid)\<^sup>*\<^sup>* s s1" and "creator s1 = AtWait"
  shows "\<exists>s2 s3. (if runner s1 = AtStart then creation_step p t tid s1 s2 else s2 = s1)
    \<and> creation_step p t tid s2 s3 \<and> creator s3 = Returned"
proof -
  note ok = cre.reachable_inv [OF assms(1,2)]
  have ret: "\<exists>s3. creation_step p t tid s2 s3 \<and> creator s3 = Returned"
    if "creator s2 = AtWait" "m_semaphore (objs (thread_w s2) p) = 1" for s2
    using that creation_step.cr_return [of s2 p] by (fastforce simp: Thread_wait_def sem_wait_def)
  show ?thesis
  proof (cases "runner s1")
    case AtStart
    then have z: "m_semaphore (objs (thread_w s1) p) = 0" using ok by (simp add: creation_ok_def Let_def)
    obtain c w1 where r: "Thread_run p t tid (thread_w s1) = (c, w1)" by fastforce
    let ?s2 = "s1\<lparr>thread_w := w1, runner := Calling c\<rparr>"
    have "creation_step p t tid s1 ?s2" using AtStart r by (rule creation_step.cr_run)
    moreover have "m_semaphore (objs (thread_w ?s2) p) = 1" using z r by (auto simp: Thread_run_def Let_def upd_obj_def sem_signal_def)
    ultimately show ?thesis using ret [of ?s2] AtStart assms(3) by auto
  next
    case (Calling c)
    then have "m_semaphore (objs (thread_w s1) p) = 1" using ok assms(3) by (simp add: creation_ok_def Let_def)
    then show ?thesis using ret [OF assms(3)] Calling by auto
  qed (use ok assms(3) in \<open>simp add: creation_ok_def Let_def\<close>)
qed

theorem constructor_returns_witness:
  "\<exists>s1 s2 s3. (creation_step 0 3 1234)\<^sup>*\<^sup>* demo_creation s1 \<and> runner s1 = AtStart
     \<and> creation_step 0 3 1234 s1 s2 \<and> creation_step 0 3 1234 s2 s3 \<and> creator s3 = Returned"
proof -
  obtain s1 where s1: "(creation_step 0 3 1234)\<^sup>*\<^sup>* demo_creation s1" "creator s1 = AtWait" "runner s1 = AtStart"
    using demo_creation_waits by blast
  from constructor_returns [OF demo_creation_start s1(1,2)] s1(1,3) show ?thesis by auto
qed

end
