(* ===== verification/Locker.thy ===== *)
theory Locker
  imports Prelude Threads
begin

text \<open>
  \<^verbatim>\<open>util/locker.h\<close>: the wrappers \<^verbatim>\<open>Sem\<close> and \<^verbatim>\<open>Cond\<close> of the POSIX semaphore and condition variable.
  The POSIX functions are the record \<open>posix\<close> over the state \<open>'k\<close> of the process, with addresses for the objects; what
  POSIX documents of them is the locale \<open>posix_objects\<close>.  A constructor that throws leaves no object,
  so it gives no state.
\<close>

section \<open>The wrappers\<close>

record 'k posix =
  posix_sem_init :: "nat \<Rightarrow> int \<Rightarrow> u32 \<Rightarrow> 'k \<Rightarrow> int \<times> 'k"
  posix_sem_destroy :: "nat \<Rightarrow> 'k \<Rightarrow> int \<times> 'k"
  posix_sem_wait :: "nat \<Rightarrow> 'k \<Rightarrow> (int \<times> 'k) option"       \<comment> \<open>\<open>None\<close>: the caller is blocked\<close>
  posix_sem_post :: "nat \<Rightarrow> 'k \<Rightarrow> int \<times> 'k"
  posix_cond_init :: "nat \<Rightarrow> 'k \<Rightarrow> int \<times> 'k"
  posix_cond_destroy :: "nat \<Rightarrow> 'k \<Rightarrow> int \<times> 'k"
  posix_cond_wait :: "nat \<Rightarrow> nat \<Rightarrow> 'k \<Rightarrow> int \<times> 'k"          \<comment> \<open>with all that others do meanwhile\<close>
  posix_cond_timedwait :: "nat \<Rightarrow> nat \<Rightarrow> int \<times> int \<Rightarrow> 'k \<Rightarrow> int \<times> 'k"
  posix_cond_signal :: "nat \<Rightarrow> 'k \<Rightarrow> int \<times> 'k"
  posix_cond_broadcast :: "nat \<Rightarrow> 'k \<Rightarrow> int \<times> 'k"

datatype locker_error = StdException

definition constructed :: "int \<times> 'k \<Rightarrow> locker_error + 'k" where
  "constructed rk = (case rk of (r, k) \<Rightarrow> if r \<noteq> 0 then Inl StdException else Inr k)"

definition answer :: "int \<times> 'k \<Rightarrow> bool \<times> 'k" where
  "answer rk = (case rk of (r, k) \<Rightarrow> (r = 0, k))"

definition Sem_new :: "'k posix \<Rightarrow> nat \<Rightarrow> 'k \<Rightarrow> locker_error + 'k" where
  "Sem_new px p k = constructed (posix_sem_init px p 0 0 k)"

definition Sem_new_num :: "'k posix \<Rightarrow> int \<Rightarrow> nat \<Rightarrow> 'k \<Rightarrow> locker_error + 'k" where
  \<comment> \<open>the \<^verbatim>\<open>int\<close> becomes an \<^verbatim>\<open>unsigned\<close>\<close>
  "Sem_new_num px num p k = constructed (posix_sem_init px p 0 (word_of_int num) k)"

definition Sem_delete :: "'k posix \<Rightarrow> nat \<Rightarrow> 'k \<Rightarrow> 'k" where
  "Sem_delete px p k = snd (posix_sem_destroy px p k)"

definition Sem_wait :: "'k posix \<Rightarrow> nat \<Rightarrow> 'k \<Rightarrow> (bool \<times> 'k) option" where
  "Sem_wait px p k = map_option answer (posix_sem_wait px p k)"

definition Sem_post :: "'k posix \<Rightarrow> nat \<Rightarrow> 'k \<Rightarrow> bool \<times> 'k" where
  "Sem_post px p k = answer (posix_sem_post px p k)"

definition Cond_new :: "'k posix \<Rightarrow> nat \<Rightarrow> 'k \<Rightarrow> locker_error + 'k" where
  "Cond_new px c k = constructed (posix_cond_init px c k)"

definition Cond_delete :: "'k posix \<Rightarrow> nat \<Rightarrow> 'k \<Rightarrow> 'k" where
  "Cond_delete px c k = snd (posix_cond_destroy px c k)"

definition Cond_wait :: "'k posix \<Rightarrow> nat \<Rightarrow> nat \<Rightarrow> 'k \<Rightarrow> bool \<times> 'k" where
  "Cond_wait px c m k = answer (posix_cond_wait px c m k)"

definition Cond_time_wait :: "'k posix \<Rightarrow> nat \<Rightarrow> nat \<Rightarrow> int \<times> int \<Rightarrow> 'k \<Rightarrow> bool \<times> 'k" where
  "Cond_time_wait px c m t k = answer (posix_cond_timedwait px c m t k)"

definition Cond_signal :: "'k posix \<Rightarrow> nat \<Rightarrow> 'k \<Rightarrow> bool \<times> 'k" where
  "Cond_signal px c k = answer (posix_cond_signal px c k)"

definition Cond_broadcast :: "'k posix \<Rightarrow> nat \<Rightarrow> 'k \<Rightarrow> bool \<times> 'k" where
  "Cond_broadcast px c k = answer (posix_cond_broadcast px c k)"

lemma constructed_Inr [simp]: "constructed rk = Inr k1 \<longleftrightarrow> rk = (0, k1)"
  by (cases rk) (auto simp: constructed_def)

lemma constructed_Inl [simp]: "constructed rk = Inl e \<longleftrightarrow> fst rk \<noteq> 0"
  by (cases rk; cases e) (auto simp: constructed_def)

lemma answer_simps [simp]: "fst (answer rk) \<longleftrightarrow> fst rk = 0" "snd (answer rk) = snd rk"
  by (cases rk; simp add: answer_def)+

section \<open>What POSIX documents\<close>

text \<open>
  \<open>sem_value\<close> is the value of the semaphore at an address, \<open>None\<close> where there is none, and
  \<open>mutex_held\<close> says that the caller holds a mutex.  \<^verbatim>\<open>SEM_VALUE_MAX\<close> is \<open>INT_MAX\<close>.  A wait may be interrupted and a post may
  fail at the largest value; a wait on a condition variable returns, for whatever reason, with the mutex locked again.
\<close>

definition SEM_VALUE_MAX :: nat where
  "SEM_VALUE_MAX = 2147483647"

locale posix_objects =
  fixes px :: "'k posix"
    and sem_value :: "nat \<Rightarrow> 'k \<Rightarrow> nat option"
    and mutex_held :: "nat \<Rightarrow> 'k \<Rightarrow> bool"
  assumes init_sem: "posix_sem_init px p 0 v k = (r, k1) \<Longrightarrow>
      (if unat v \<le> SEM_VALUE_MAX then r = 0 \<and> sem_value p k1 = Some (unat v) else r \<noteq> 0 \<and> sem_value p k1 = sem_value p k)"
    and init_other: "posix_sem_init px p 0 v k = (r, k1) \<Longrightarrow> q \<noteq> p \<Longrightarrow> sem_value q k1 = sem_value q k"
    and wait_free_sem: "sem_value p k = Some (Suc n) \<Longrightarrow> posix_sem_wait px p k \<noteq> None"
    and wait_sem: "sem_value p k = Some n \<Longrightarrow> posix_sem_wait px p k = Some (r, k1) \<Longrightarrow>
      (if r = 0 then 0 < n \<and> sem_value p k1 = Some (n - 1) else sem_value p k1 = Some n)"
    and wait_other: "posix_sem_wait px p k = Some (r, k1) \<Longrightarrow> q \<noteq> p \<Longrightarrow> sem_value q k1 = sem_value q k"
    and post_sem: "sem_value p k = Some n \<Longrightarrow> posix_sem_post px p k = (r, k1) \<Longrightarrow>
      sem_value p k1 = Some (if r = 0 then n + 1 else n)"
    and post_other: "posix_sem_post px p k = (r, k1) \<Longrightarrow> q \<noteq> p \<Longrightarrow> sem_value q k1 = sem_value q k"
    and cond_wait_mutex: "mutex_held m k \<Longrightarrow> posix_cond_wait px c m k = (r, k1) \<Longrightarrow> mutex_held m k1"
    and cond_timedwait_mutex: "mutex_held m k \<Longrightarrow> posix_cond_timedwait px c m t k = (r, k1) \<Longrightarrow> mutex_held m k1"
    and cond_signal_mutex: "mutex_held m k \<Longrightarrow> posix_cond_signal px c k = (r, k1) \<Longrightarrow> mutex_held m k1"
    and cond_broadcast_mutex: "mutex_held m k \<Longrightarrow> posix_cond_broadcast px c k = (r, k1) \<Longrightarrow> mutex_held m k1"
begin

lemma Sem_new_value: "\<exists>k1. Sem_new px p k = Inr k1 \<and> sem_value p k1 = Some 0"
  using init_sem [of p 0 k] by (cases "posix_sem_init px p 0 0 k") (auto simp: Sem_new_def)

lemma Sem_new_num_value:
  assumes "0 \<le> num" and "num < 2 ^ 31"
  shows "\<exists>k1. Sem_new_num px num p k = Inr k1 \<and> sem_value p k1 = Some (nat num) \<and> (\<forall>q. q \<noteq> p \<longrightarrow> sem_value q k1 = sem_value q k)"
proof -
  obtain r k1 where i: "posix_sem_init px p 0 (word_of_int num) k = (r, k1)" by fastforce
  have "uint (word_of_int num :: u32) = num" using assms by (simp add: unsigned_of_int take_bit_int_eq_self)
  then have "unat (word_of_int num :: u32) = nat num" by (metis nat_uint_eq)
  then have "r = 0 \<and> sem_value p k1 = Some (nat num)"
    using init_sem [OF i] assms by (simp add: SEM_VALUE_MAX_def nat_le_iff)
  then show ?thesis using init_other [OF i] i by (auto simp: Sem_new_num_def)
qed

text \<open>A negative number is more than the largest value, and the constructor throws.\<close>

lemma Sem_new_num_negative:
  assumes "- (2 ^ 31) \<le> num" and "num < 0"
  shows "Sem_new_num px num p k = Inl StdException"
proof -
  obtain r k1 where i: "posix_sem_init px p 0 (word_of_int num) k = (r, k1)" by fastforce
  have "uint (word_of_int num :: u32) = (num + 2 ^ 32) mod 2 ^ 32"
    by (simp add: unsigned_of_int take_bit_eq_mod)
  also have "\<dots> = num + 2 ^ 32" using assms by (intro mod_pos_pos_trivial) simp_all
  finally have "int SEM_VALUE_MAX < int (unat (word_of_int num :: u32))"
    using assms by (simp add: SEM_VALUE_MAX_def)
  then have "\<not> unat (word_of_int num :: u32) \<le> SEM_VALUE_MAX" by linarith
  then show ?thesis using init_sem [OF i] i by (auto simp: Sem_new_num_def)
qed

lemma Cond_keeps_mutex:
  assumes "mutex_held m k"
  shows "mutex_held m (snd (Cond_wait px c m k))" "mutex_held m (snd (Cond_time_wait px c m t k))"
    "mutex_held m (snd (Cond_signal px c k))" "mutex_held m (snd (Cond_broadcast px c k))"
  using cond_wait_mutex [OF assms] cond_timedwait_mutex [OF assms] cond_signal_mutex [OF assms] cond_broadcast_mutex [OF assms]
  by (simp_all add: Cond_wait_def Cond_time_wait_def Cond_signal_def Cond_broadcast_def) (metis prod.collapse)+

end

text \<open>A \<open>Sem\<close> keeps the contract of a counting semaphore, the one the semaphore of a thread has.\<close>

sublocale posix_objects \<subseteq> sem: counting_semaphore "\<lambda>k. sem_value p k \<noteq> None" "\<lambda>k. int (the (sem_value p k))"
  "Sem_wait px p" "Sem_post px p" for p
proof unfold_locales
  fix k k1 and ok
  show "0 \<le> int (the (sem_value p k))" by simp
  show "Sem_wait px p k \<noteq> None" if v: "sem_value p k \<noteq> None" "0 < int (the (sem_value p k))"
  proof -
    obtain n where "sem_value p k = Some (Suc n)" using v by (auto simp: gr0_conv_Suc)
    from wait_free_sem [OF this] show ?thesis by (simp add: Sem_wait_def)
  qed
  show "sem_value p k1 \<noteq> None \<and> int (the (sem_value p k1)) = int (the (sem_value p k)) - of_bool ok"
    if v: "sem_value p k \<noteq> None" "Sem_wait px p k = Some (ok, k1)"
  proof -
    obtain n where n: "sem_value p k = Some n" using v(1) by blast
    obtain r where r: "posix_sem_wait px p k = Some (r, k1)" "ok \<longleftrightarrow> r = 0"
      using v(2) by (auto simp: Sem_wait_def answer_def)
    from wait_sem [OF n r(1)] show ?thesis by (cases "r = 0") (simp_all add: n r(2))
  qed
  show "sem_value p k1 \<noteq> None \<and> int (the (sem_value p k1)) = int (the (sem_value p k)) + of_bool ok"
    if v: "sem_value p k \<noteq> None" "Sem_post px p k = (ok, k1)"
  proof -
    obtain n where n: "sem_value p k = Some n" using v(1) by blast
    obtain r where r: "posix_sem_post px p k = (r, k1)" "ok \<longleftrightarrow> r = 0"
      using v(2) by (cases "posix_sem_post px p k") (auto simp: Sem_post_def answer_def)
    from post_sem [OF n r(1)] show ?thesis by (cases "r = 0") (simp_all add: n r(2))
  qed
qed

section \<open>An executable instance\<close>

text \<open>A process with one thread: the semaphores and the mutexes it holds.\<close>

record demo_process =
  demo_sems :: "nat \<Rightarrow> nat option"
  demo_held :: "nat \<Rightarrow> bool"

definition demo_posix :: "demo_process posix" where
  "demo_posix =
     \<lparr>posix_sem_init = (\<lambda>p _ v k. if unat v \<le> SEM_VALUE_MAX then (0, k\<lparr>demo_sems := (demo_sems k)(p := Some (unat v))\<rparr>) else (- 1, k)),
      posix_sem_destroy = (\<lambda>p k. (0, k\<lparr>demo_sems := (demo_sems k)(p := None)\<rparr>)),
      posix_sem_wait = (\<lambda>p k. case demo_sems k p of
                          None \<Rightarrow> Some (- 1, k)
                        | Some n \<Rightarrow> if n = 0 then None else Some (0, k\<lparr>demo_sems := (demo_sems k)(p := Some (n - 1))\<rparr>)),
      posix_sem_post = (\<lambda>p k. case demo_sems k p of
                          None \<Rightarrow> (- 1, k)
                        | Some n \<Rightarrow> if n < SEM_VALUE_MAX then (0, k\<lparr>demo_sems := (demo_sems k)(p := Some (n + 1))\<rparr>) else (- 1, k)),
      posix_cond_init = (\<lambda>_ k. (0, k)), posix_cond_destroy = (\<lambda>_ k. (0, k)),
      posix_cond_wait = (\<lambda>_ m k. if demo_held k m then (0, k) else (1, k)),
      posix_cond_timedwait = (\<lambda>_ m _ k. if demo_held k m then (110, k) else (1, k)),
      posix_cond_signal = (\<lambda>_ k. (0, k)), posix_cond_broadcast = (\<lambda>_ k. (0, k))\<rparr>"

interpretation dp: posix_objects demo_posix "\<lambda>p k. demo_sems k p" "\<lambda>m k. demo_held k m"
  by unfold_locales (auto simp: demo_posix_def split: if_splits option.splits)

text \<open>
  However a program calls a \<open>Sem\<close> that was made with \<open>num\<close> permits, the waits that succeed are at most
  \<open>num\<close> more than the posts, and when a wait blocks they are exactly as many.
\<close>

lemma Sem_permits:
  assumes "0 \<le> num" "num < 2 ^ 31" and "Sem_new_num demo_posix num p k = Inr k1"
    and "sem_run (Sem_wait demo_posix p) (Sem_post demo_posix p) cs k1 = (n, m, k2)"
  shows "int n \<le> num + int m" and "Sem_wait demo_posix p k2 = None \<Longrightarrow> int n = num + int m"
proof -
  have k1: "demo_sems k1 p = Some (nat num)"
    using dp.Sem_new_num_value [OF assms(1,2), of p k] assms(3) by auto
  show "int n \<le> num + int m" using dp.sem.successes_bounded [OF _ assms(4)] k1 assms(1) by simp
  show "Sem_wait demo_posix p k2 = None \<Longrightarrow> int n = num + int m"
    using dp.sem.blocks_only_when_used_up [OF _ assms(4)] k1 assms(1) by simp
qed

lemma Sem_permits_run:
  "sem_run (Sem_wait demo_posix 3) (Sem_post demo_posix 3) [SemWait, SemWait, SemWait, SemPost, SemWait]
     \<lparr>demo_sems = (\<lambda>_. None)(3 := Some 2), demo_held = (\<lambda>_. False)\<rparr>
   = (3, 1, \<lparr>demo_sems = (\<lambda>_. None)(3 := Some 0), demo_held = (\<lambda>_. False)\<rparr>)"
  by (simp add: Sem_wait_def Sem_post_def demo_posix_def answer_def SEM_VALUE_MAX_def)

end
