(* ===== verification/Ordered_Set.thy ===== *)
theory Ordered_Set
  imports Prelude
begin

text \<open>
  The ordered containers of the standard library, as the sources use them: a set is the list of
  its elements in iteration order, and its operations see the elements only through the
  comparator.  The locale states what a comparator has to be, and what the operations promise
  then; the timers and the addresses interpret it with their own comparators.
\<close>

section \<open>Operations\<close>

text \<open>
  \<^verbatim>\<open>std::set\<close> compares by the comparator only: two elements neither of which is less than
  the other are the same element to \<open>insert\<close> and to \<open>find\<close>.
\<close>

fun set_insert :: "('a \<Rightarrow> 'a \<Rightarrow> bool) \<Rightarrow> 'a \<Rightarrow> 'a list \<Rightarrow> 'a list" where
  "set_insert lt x [] = [x]"
| "set_insert lt x (y # ys) =
     (if lt x y then x # y # ys
      else if lt y x then y # set_insert lt x ys
      else y # ys)"

definition set_insert_pos :: "('a \<Rightarrow> 'a \<Rightarrow> bool) \<Rightarrow> 'a \<Rightarrow> 'a list \<Rightarrow> nat" where
  \<comment> \<open>the position of the iterator \<open>insert\<close> returns: the new element or its equivalent\<close>
  "set_insert_pos lt x ys = length (takeWhile (\<lambda>y. lt y x) ys)"

definition set_find :: "('a \<Rightarrow> 'a \<Rightarrow> bool) \<Rightarrow> 'a \<Rightarrow> 'a list \<Rightarrow> 'a option" where
  "set_find lt x ys =
     (case dropWhile (\<lambda>y. lt y x) ys of
        [] \<Rightarrow> None
      | y # _ \<Rightarrow> if lt x y then None else Some y)"

lemma set_insert_apart: "(\<And>y. y \<in> set ys \<Longrightarrow> lt x y \<or> lt y x) \<Longrightarrow> x \<in> set (set_insert lt x ys)"
  by (induction ys) auto

section \<open>Contract\<close>

text \<open>
  The contract \<^verbatim>\<open>std::set\<close> asks of its comparator (a strict weak order), and what the
  set operations then promise.
\<close>

locale strict_weak_order =
  fixes lt :: "'a \<Rightarrow> 'a \<Rightarrow> bool"
  assumes asym: "lt x y \<Longrightarrow> \<not> lt y x"
    and negtrans: "lt x z \<Longrightarrow> lt x y \<or> lt y z"
begin

lemma trans: "lt x y \<Longrightarrow> lt y z \<Longrightarrow> lt x z"
  using asym negtrans by blast

lemma irrefl: "\<not> lt x x"
  using asym by blast

lemma set_insert_subset: "set (set_insert lt x xs) \<subseteq> insert x (set xs)"
  by (induction xs) auto

lemma set_insert_superset: "set xs \<subseteq> set (set_insert lt x xs)"
  by (induction xs) auto

lemma sorted_set_insert: "sorted_wrt lt xs \<Longrightarrow> sorted_wrt lt (set_insert lt x xs)"
proof (induction xs)
  case Nil
  then show ?case by simp
next
  case (Cons y ys)
  then show ?case
    using set_insert_subset [of x ys] by (auto intro: trans)
qed

lemma set_set_insert:
  "(\<And>y. y \<in> set xs \<Longrightarrow> lt x y \<or> lt y x) \<Longrightarrow> set (set_insert lt x xs) = insert x (set xs)"
  by (induction xs) auto

lemma set_insert_equiv:
  "sorted_wrt lt xs \<Longrightarrow> y \<in> set xs \<Longrightarrow> \<not> lt x y \<Longrightarrow> \<not> lt y x \<Longrightarrow> set_insert lt x xs = xs"
proof (induction xs)
  case Nil
  then show ?case by simp
next
  case (Cons z zs)
  show ?case
  proof (cases "y = z")
    case True
    with Cons.prems show ?thesis by simp
  next
    case False
    with Cons.prems have "lt z y" "y \<in> set zs" by auto
    then have "lt z x" "\<not> lt x z"
      using Cons.prems(3,4) negtrans [of z y x] asym [of z x] by auto
    with Cons \<open>y \<in> set zs\<close> show ?thesis by simp
  qed
qed

lemma set_find_Some: "set_find lt x xs = Some y \<Longrightarrow> y \<in> set xs \<and> \<not> lt x y \<and> \<not> lt y x"
  by (induction xs) (auto simp: set_find_def split: if_splits)

lemma set_find_mem: "sorted_wrt lt xs \<Longrightarrow> x \<in> set xs \<Longrightarrow> set_find lt x xs = Some x"
  by (induction xs) (auto simp: set_find_def irrefl asym)

lemma set_find_None:
  "sorted_wrt lt xs \<Longrightarrow> set_find lt x xs = None \<Longrightarrow> y \<in> set xs \<Longrightarrow> lt x y \<or> lt y x"
  by (induction xs) (auto simp: set_find_def intro: trans split: if_splits)

lemma distinct_sorted: "sorted_wrt lt xs \<Longrightarrow> distinct xs"
  by (induction xs) (auto simp: irrefl)

lemma sorted_equiv_eq:
  "sorted_wrt lt xs \<Longrightarrow> a \<in> set xs \<Longrightarrow> b \<in> set xs \<Longrightarrow> \<not> lt a b \<Longrightarrow> \<not> lt b a \<Longrightarrow> a = b"
  by (induction xs) auto

lemma sorted_remove1: "sorted_wrt lt xs \<Longrightarrow> sorted_wrt lt (remove1 x xs)"
  by (induction xs) (auto dest: notin_set_remove1 [THEN contrapos_nn])

lemma set_insert_pos_front: "set_insert_pos lt x xs = 0 \<longleftrightarrow> (xs = [] \<or> \<not> lt (hd xs) x)"
  by (cases xs) (auto simp: set_insert_pos_def)

end

end
