(* ===== verification/Timer.thy ===== *)
theory Timer
  imports Ordered_Set
begin

text \<open>
  \<^verbatim>\<open>CoroutineLibrary/timer.h\<close>, \<^verbatim>\<open>timer.cpp\<close>: timers, the ordered set of pending timers
  and the operations of \<^verbatim>\<open>Timer\<close> and \<^verbatim>\<open>TimerManager\<close>.

  A \<^verbatim>\<open>Timer\<close> object is named by a number (its shared pointer); \<open>store\<close> is the heap of
  the objects and \<open>m_timers\<close> the \<^verbatim>\<open>std::set\<close>, as the list of its elements in iteration
  order.  Each call of \<^verbatim>\<open>system_clock::now()\<close> is an argument (\<open>now\<close>), in nanoseconds;
  the arithmetic on time points is on unbounded integers, that is, it is the code's as
  long as the signed 64-bit count does not overflow.  Every critical section of the
  manager's mutex is one function here.
\<close>

section \<open>Data\<close>

record 'cb timer =
  m_recurring :: bool
  m_ms :: u64
  m_next :: int
  m_cb :: "'cb option"

record 'cb timer_manager =
  store :: "nat \<Rightarrow> 'cb timer"
  next_timer :: nat
  m_timers :: "nat list"
  m_tickled :: bool
  m_previouseTime :: int

definition ms_dur :: "u64 \<Rightarrow> int" where
  \<comment> \<open>\<^verbatim>\<open>std::chrono::milliseconds(ms)\<close> in ticks of the system clock: the 64-bit count is
    stored in a signed representation.\<close>
  "ms_dur ms = sint ms * 1000000"

definition Timer_new :: "u64 \<Rightarrow> 'cb option \<Rightarrow> bool \<Rightarrow> int \<Rightarrow> 'cb timer" where
  "Timer_new ms cb recurring now =
     \<lparr>m_recurring = recurring, m_ms = ms, m_next = now + ms_dur ms, m_cb = cb\<rparr>"

definition TimerManager_new :: "int \<Rightarrow> 'cb timer_manager" where
  "TimerManager_new now =
     \<lparr>store = (\<lambda>_. \<lparr>m_recurring = False, m_ms = 0, m_next = 0, m_cb = None\<rparr>),
      next_timer = 0, m_timers = [], m_tickled = False, m_previouseTime = now\<rparr>"

abbreviation key :: "'cb timer_manager \<Rightarrow> nat \<Rightarrow> int" where
  "key m i \<equiv> m_next (store m i)"

section \<open>The ordered set\<close>

definition Comparator :: "'cb timer_manager \<Rightarrow> nat \<Rightarrow> nat \<Rightarrow> bool" where
  "Comparator m lhs rhs \<longleftrightarrow> m_next (store m lhs) < m_next (store m rhs)"

section \<open>Operations\<close>

definition addTimer_ptr :: "nat \<Rightarrow> 'cb timer_manager \<Rightarrow> 'cb timer_manager \<times> bool" where
  \<comment> \<open>the overload taking the pointer; the flag says that \<open>onTimerInsertedAtFront\<close> is called\<close>
  "addTimer_ptr i m =
     (let m' = m\<lparr>m_timers := set_insert (Comparator m) i (m_timers m)\<rparr>;
          at_front = (set_insert_pos (Comparator m) i (m_timers m) = 0 \<and> \<not> m_tickled m)
      in (if at_front then m'\<lparr>m_tickled := True\<rparr> else m', at_front))"

definition addTimer ::
    "int \<Rightarrow> u64 \<Rightarrow> 'cb option \<Rightarrow> bool \<Rightarrow> 'cb timer_manager \<Rightarrow> 'cb timer_manager \<times> nat \<times> bool" where
  "addTimer now ms cb recurring m =
     (let i = next_timer m;
          m' = m\<lparr>store := (store m)(i := Timer_new ms cb recurring now), next_timer := Suc i\<rparr>;
          (m'', at_front) = addTimer_ptr i m'
      in (m'', i, at_front))"

datatype ('w, 'c) timer_cb =
    Direct 'c           \<comment> \<open>a plain function object\<close>
  | OnTimerBind 'w 'c   \<comment> \<open>\<^verbatim>\<open>std::bind(&OnTimer, weak_cond, cb)\<close>\<close>

definition OnTimer :: "('w \<Rightarrow> bool) \<Rightarrow> 'w \<Rightarrow> 'c \<Rightarrow> 'c option" where
  \<comment> \<open>\<open>lock w\<close>: the condition object still exists; the result is the call that is made\<close>
  "OnTimer lock weak_cond cb = (if lock weak_cond then Some cb else None)"

fun call_timer_cb :: "('w \<Rightarrow> bool) \<Rightarrow> ('w, 'c) timer_cb \<Rightarrow> 'c option" where
  "call_timer_cb lock (Direct cb) = Some cb"
| "call_timer_cb lock (OnTimerBind w cb) = OnTimer lock w cb"

definition addConditionTimer ::
    "int \<Rightarrow> u64 \<Rightarrow> 'c \<Rightarrow> 'w \<Rightarrow> bool \<Rightarrow> ('w, 'c) timer_cb timer_manager
     \<Rightarrow> ('w, 'c) timer_cb timer_manager \<times> nat \<times> bool" where
  "addConditionTimer now ms cb weak_cond recurring m =
     addTimer now ms (Some (OnTimerBind weak_cond cb)) recurring m"

definition cancel :: "nat \<Rightarrow> 'cb timer_manager \<Rightarrow> 'cb timer_manager \<times> bool" where
  "cancel i m =
     (case m_cb (store m i) of
        None \<Rightarrow> (m, False)
      | Some _ \<Rightarrow>
          (let m1 = m\<lparr>store := (store m)(i := (store m i)\<lparr>m_cb := None\<rparr>)\<rparr>
           in case set_find (Comparator m1) i (m_timers m1) of
                None \<Rightarrow> (m1, True)
              | Some j \<Rightarrow> (m1\<lparr>m_timers := remove1 j (m_timers m1)\<rparr>, True)))"

definition refresh :: "int \<Rightarrow> nat \<Rightarrow> 'cb timer_manager \<Rightarrow> 'cb timer_manager \<times> bool" where
  "refresh now i m =
     (case m_cb (store m i) of
        None \<Rightarrow> (m, False)
      | Some _ \<Rightarrow>
          (case set_find (Comparator m) i (m_timers m) of
             None \<Rightarrow> (m, False)
           | Some j \<Rightarrow>
               (let m1 = m\<lparr>m_timers := remove1 j (m_timers m)\<rparr>;
                    m2 = m1\<lparr>store := (store m1)(i := (store m1 i)
                              \<lparr>m_next := now + ms_dur (m_ms (store m1 i))\<rparr>)\<rparr>
                in (m2\<lparr>m_timers := set_insert (Comparator m2) i (m_timers m2)\<rparr>, True))))"

definition reset ::
    "u64 \<Rightarrow> bool \<Rightarrow> int \<Rightarrow> nat \<Rightarrow> 'cb timer_manager \<Rightarrow> 'cb timer_manager \<times> bool \<times> bool" where
  \<comment> \<open>results: the manager, the return value, and whether \<open>addTimer\<close> woke the front\<close>
  "reset ms from_now now i m =
     (if ms = m_ms (store m i) \<and> \<not> from_now then (m, True, False)
      else case m_cb (store m i) of
        None \<Rightarrow> (m, False, False)
      | Some _ \<Rightarrow>
          (case set_find (Comparator m) i (m_timers m) of
             None \<Rightarrow> (m, False, False)
           | Some j \<Rightarrow>
               (let m1 = m\<lparr>m_timers := remove1 j (m_timers m)\<rparr>;
                    start = (if from_now then now
                             else m_next (store m1 i) - ms_dur (m_ms (store m1 i)));
                    m2 = m1\<lparr>store := (store m1)(i := (store m1 i)
                              \<lparr>m_ms := ms, m_next := start + ms_dur ms\<rparr>)\<rparr>;
                    (m3, at_front) = addTimer_ptr i m2
                in (m3, True, at_front))))"

text \<open>
  \<open>reset\<close> is two critical sections with assignments between them; \<open>reset\<close> above is the undisturbed
  call.  The first section answers, or leaves it to the rest.
\<close>

definition reset_take :: "u64 \<Rightarrow> bool \<Rightarrow> nat \<Rightarrow> 'cb timer_manager \<Rightarrow> 'cb timer_manager \<times> bool option" where
  "reset_take ms from_now i m =
     (if ms = m_ms (store m i) \<and> \<not> from_now then (m, Some True)
      else case m_cb (store m i) of
        None \<Rightarrow> (m, Some False)
      | Some _ \<Rightarrow>
          (case set_find (Comparator m) i (m_timers m) of
             None \<Rightarrow> (m, Some False)
           | Some j \<Rightarrow> (m\<lparr>m_timers := remove1 j (m_timers m)\<rparr>, None)))"

definition reset_put :: "u64 \<Rightarrow> bool \<Rightarrow> int \<Rightarrow> nat \<Rightarrow> 'cb timer_manager \<Rightarrow> 'cb timer_manager \<times> bool" where
  "reset_put ms from_now now i m =
     (let start = (if from_now then now else m_next (store m i) - ms_dur (m_ms (store m i)));
          m2 = m\<lparr>store := (store m)(i := (store m i)\<lparr>m_ms := ms, m_next := start + ms_dur ms\<rparr>)\<rparr>
      in addTimer_ptr i m2)"

lemma reset_sections:
  "reset ms from_now now i m =
     (case reset_take ms from_now i m of
        (m1, Some b) \<Rightarrow> (m1, b, False)
      | (m1, None) \<Rightarrow> (case reset_put ms from_now now i m1 of (m2, at_front) \<Rightarrow> (m2, True, at_front)))"
  by (simp add: reset_def reset_take_def reset_put_def Let_def split: option.split)

definition getNextTimer :: "int \<Rightarrow> 'cb timer_manager \<Rightarrow> 'cb timer_manager \<times> u64" where
  "getNextTimer now m =
     (let m' = m\<lparr>m_tickled := False\<rparr>
      in case m_timers m of
           [] \<Rightarrow> (m', - 1)   \<comment> \<open>\<^verbatim>\<open>~0ull\<close>\<close>
         | i # _ \<Rightarrow>
             (if m_next (store m i) \<le> now then (m', 0)
              else (m', word_of_int ((m_next (store m i) - now) div 1000000))))"

definition detectClockRollover :: "int \<Rightarrow> 'cb timer_manager \<Rightarrow> 'cb timer_manager \<times> bool" where
  "detectClockRollover now m =
     (m\<lparr>m_previouseTime := now\<rparr>, now < m_previouseTime m - ms_dur (60 * 60 * 1000))"

definition hasTimer :: "'cb timer_manager \<Rightarrow> bool" where
  "hasTimer m \<longleftrightarrow> m_timers m \<noteq> []"

text \<open>The loop of \<open>listExpiredCb\<close>: its condition, its body, and the loop itself.\<close>

definition expire_guard :: "bool \<Rightarrow> int \<Rightarrow> 'cb timer_manager \<Rightarrow> bool" where
  "expire_guard rollover now m \<longleftrightarrow>
     m_timers m \<noteq> [] \<and> rollover \<or> m_timers m \<noteq> [] \<and> m_next (store m (hd (m_timers m))) \<le> now"

definition expire_one ::
    "int \<Rightarrow> 'cb timer_manager \<Rightarrow> 'cb option list \<Rightarrow> 'cb timer_manager \<times> 'cb option list" where
  "expire_one now m cbs =
     (let temp = hd (m_timers m);
          m1 = m\<lparr>m_timers := tl (m_timers m)\<rparr>;
          cbs' = cbs @ [m_cb (store m1 temp)]
      in if m_recurring (store m1 temp) then
           (let m2 = m1\<lparr>store := (store m1)(temp := (store m1 temp)
                          \<lparr>m_next := now + ms_dur (m_ms (store m1 temp))\<rparr>)\<rparr>
            in (m2\<lparr>m_timers := set_insert (Comparator m2) temp (m_timers m2)\<rparr>, cbs'))
         else (m1\<lparr>store := (store m1)(temp := (store m1 temp)\<lparr>m_cb := None\<rparr>)\<rparr>, cbs'))"

partial_function (option) expire_loop ::
    "bool \<Rightarrow> int \<Rightarrow> 'cb timer_manager \<Rightarrow> 'cb option list
     \<Rightarrow> ('cb timer_manager \<times> 'cb option list) option" where
  "expire_loop rollover now m cbs =
     (if expire_guard rollover now m
      then case expire_one now m cbs of (m', cbs') \<Rightarrow> expire_loop rollover now m' cbs'
      else Some (m, cbs))"

definition listExpiredCb ::
    "int \<Rightarrow> int \<Rightarrow> 'cb option list \<Rightarrow> 'cb timer_manager
     \<Rightarrow> ('cb timer_manager \<times> 'cb option list) option" where
  \<comment> \<open>\<open>now\<close> is read before the lock is taken, \<open>now2\<close> inside \<open>detectClockRollover\<close>\<close>
  "listExpiredCb now now2 cbs m =
     (case detectClockRollover now2 m of (m', rollover) \<Rightarrow> expire_loop rollover now m' cbs)"

lemmas timer_defs [model_defs] =
  Timer_new_def TimerManager_new_def addTimer_ptr_def addTimer_def addConditionTimer_def
  cancel_def refresh_def reset_def getNextTimer_def detectClockRollover_def hasTimer_def

section \<open>The order of the set\<close>

interpretation cmp: strict_weak_order "Comparator m" for m :: "'cb timer_manager"
  by unfold_locales (auto simp: Comparator_def)

lemma Comparator_cong:
  assumes "\<And>x. x \<in> set xs \<Longrightarrow> key m' x = key m x" and "sorted_wrt (Comparator m) xs"
  shows "sorted_wrt (Comparator m') xs"
  using assms(2,1) by (induction xs) (auto simp: Comparator_def)

section \<open>Well-formedness\<close>

definition timers_ok :: "'cb timer_manager \<Rightarrow> bool" where
  "timers_ok m \<longleftrightarrow>
     sorted_wrt (Comparator m) (m_timers m) \<and> (\<forall>i \<in> set (m_timers m). i < next_timer m)"

definition timers_live :: "'cb timer_manager \<Rightarrow> bool" where
  \<comment> \<open>every pending timer still has a function to call\<close>
  "timers_live m \<longleftrightarrow> (\<forall>i \<in> set (m_timers m). m_cb (store m i) \<noteq> None)"

lemma timers_ok_sorted: "timers_ok m \<Longrightarrow> sorted_wrt (Comparator m) (m_timers m)"
  by (simp add: timers_ok_def)

lemma timers_ok_distinct: "timers_ok m \<Longrightarrow> distinct (m_timers m)"
  by (rule cmp.distinct_sorted) (rule timers_ok_sorted)

lemma Comparator_m_timers [simp]: "Comparator (m\<lparr>m_timers := xs\<rparr>) = Comparator m"
  by (simp add: Comparator_def fun_eq_iff)

lemma Comparator_m_tickled [simp]: "Comparator (m\<lparr>m_tickled := b\<rparr>) = Comparator m"
  by (simp add: Comparator_def fun_eq_iff)

lemma Comparator_m_previouseTime [simp]: "Comparator (m\<lparr>m_previouseTime := t\<rparr>) = Comparator m"
  by (simp add: Comparator_def fun_eq_iff)

lemma Comparator_timers_store [simp]:
  "Comparator (m\<lparr>m_timers := xs, store := st\<rparr>) = Comparator (m\<lparr>store := st\<rparr>)"
  by (simp add: Comparator_def fun_eq_iff)

lemma Comparator_store_timers [simp]:
  "Comparator (m\<lparr>store := st, m_timers := xs\<rparr>) = Comparator (m\<lparr>store := st\<rparr>)"
  by (simp add: Comparator_def fun_eq_iff)

text \<open>Replacing the object of a timer that is not pending leaves the order alone.\<close>

lemma sorted_store_upd:
  assumes "sorted_wrt (Comparator m) xs" and "i \<notin> set xs"
  shows "sorted_wrt (Comparator (m\<lparr>store := (store m)(i := t)\<rparr>)) xs"
  by (rule Comparator_cong [OF _ assms(1)]) (use assms(2) in auto)

lemma addTimer_ptr_ok:
  assumes "sorted_wrt (Comparator m) (m_timers m)"
    and "\<forall>j \<in> set (m_timers m). j < next_timer m" and "i < next_timer m"
  shows "timers_ok (fst (addTimer_ptr i m))"
  using cmp.sorted_set_insert [OF assms(1), of i] cmp.set_insert_subset [of m i "m_timers m"]
    assms(2,3)
  by (auto simp: addTimer_ptr_def timers_ok_def Let_def)

lemma addTimer_ok:
  assumes "timers_ok m"
  shows "timers_ok (fst (addTimer now ms cb recurring m))"
proof -
  let ?m = "m\<lparr>store := (store m)(next_timer m := Timer_new ms cb recurring now),
              next_timer := Suc (next_timer m)\<rparr>"
  have "next_timer m \<notin> set (m_timers m)" using assms by (auto simp: timers_ok_def)
  then have "timers_ok (fst (addTimer_ptr (next_timer m) ?m))"
    using assms
    by (intro addTimer_ptr_ok)
       (auto simp: timers_ok_def less_Suc_eq intro: Comparator_cong [where m = m])
  then show ?thesis by (simp add: addTimer_def Let_def split_beta)
qed

lemma cancel_ok: "timers_ok m \<Longrightarrow> timers_ok (fst (cancel i m))"
proof -
  assume ok: "timers_ok m"
  have s: "sorted_wrt (Comparator (m\<lparr>store := (store m)(i := (store m i)\<lparr>m_cb := None\<rparr>)\<rparr>)) (m_timers m)"
    by (rule Comparator_cong [OF _ timers_ok_sorted [OF ok]]) auto
  show ?thesis
    using ok s cmp.sorted_remove1 [OF s]
    by (auto simp: cancel_def timers_ok_def Let_def split: option.splits dest: set_remove1_subset [THEN subsetD])
qed

lemma restart_ok:
  \<comment> \<open>the common tail of \<open>refresh\<close>, \<open>reset\<close> and the expiry loop: an element leaves the
    set and a timer with a new deadline enters it\<close>
  assumes "sorted_wrt (Comparator m) xs" and "i \<notin> set xs"
  shows "sorted_wrt (Comparator (m\<lparr>store := (store m)(i := t)\<rparr>))
           (set_insert (Comparator (m\<lparr>store := (store m)(i := t)\<rparr>)) i xs)"
  by (rule cmp.sorted_set_insert) (rule sorted_store_upd [OF assms])

lemma erased_notin:
  assumes ok: "timers_ok m" and "set_find (Comparator m) i (m_timers m) = Some j"
  shows "i \<notin> set (remove1 j (m_timers m))"
proof (cases "i \<in> set (m_timers m)")
  case True
  then have "j = i" using assms cmp.set_find_mem [OF timers_ok_sorted [OF ok]] by force
  then show ?thesis using timers_ok_distinct [OF ok] by simp
next
  case False
  then show ?thesis using set_remove1_subset by fastforce
qed

lemma refresh_ok:
  assumes ok: "timers_ok m" and i: "i < next_timer m"
  shows "timers_ok (fst (refresh now i m))"
proof (cases "m_cb (store m i) = None \<or> set_find (Comparator m) i (m_timers m) = None")
  case True
  then show ?thesis using ok by (auto simp: refresh_def split: option.splits)
next
  case False
  then obtain j where j: "set_find (Comparator m) i (m_timers m) = Some j" by auto
  let ?xs = "remove1 j (m_timers m)"
  let ?m = "m\<lparr>m_timers := ?xs, store := (store m)(i := (store m i)\<lparr>m_next := now + ms_dur (m_ms (store m i))\<rparr>)\<rparr>"
  have s: "sorted_wrt (Comparator (m\<lparr>m_timers := ?xs\<rparr>)) ?xs"
    using cmp.sorted_remove1 [OF timers_ok_sorted [OF ok]] by simp
  have "sorted_wrt (Comparator ?m) (set_insert (Comparator ?m) i ?xs)"
    using restart_ok [OF s erased_notin [OF ok j]] by simp
  moreover have "\<forall>k \<in> set (set_insert (Comparator ?m) i ?xs). k < next_timer m"
    using cmp.set_insert_subset [of ?m i ?xs] set_remove1_subset [of j "m_timers m"] ok i
    by (fastforce simp: timers_ok_def)
  ultimately show ?thesis
    using False j by (auto simp: refresh_def timers_ok_def Let_def split: option.splits)
qed

lemma reset_ok:
  assumes ok: "timers_ok m" and i: "i < next_timer m"
  shows "timers_ok (fst (reset ms from_now now i m))"
proof (cases "(ms = m_ms (store m i) \<and> \<not> from_now) \<or> m_cb (store m i) = None
               \<or> set_find (Comparator m) i (m_timers m) = None")
  case True
  then show ?thesis using ok by (auto simp: reset_def split: option.splits)
next
  case False
  then obtain j where j: "set_find (Comparator m) i (m_timers m) = Some j" by auto
  let ?m1 = "m\<lparr>m_timers := remove1 j (m_timers m)\<rparr>"
  let ?start = "if from_now then now else m_next (store m i) - ms_dur (m_ms (store m i))"
  let ?m2 = "?m1\<lparr>store := (store m)(i := (store m i)\<lparr>m_ms := ms, m_next := ?start + ms_dur ms\<rparr>)\<rparr>"
  have s: "sorted_wrt (Comparator ?m1) (m_timers ?m1)"
    using cmp.sorted_remove1 [OF timers_ok_sorted [OF ok]] by simp
  have "timers_ok (fst (addTimer_ptr i ?m2))"
    using sorted_store_upd [OF s] erased_notin [OF ok j] ok i set_remove1_subset [of j "m_timers m"]
    by (intro addTimer_ptr_ok) (auto simp: timers_ok_def dest: set_remove1_subset [THEN subsetD])
  then show ?thesis
    using False j by (auto simp: reset_def Let_def split_beta split: option.splits)
qed

lemma getNextTimer_ok: "timers_ok m \<Longrightarrow> timers_ok (fst (getNextTimer now m))"
  by (auto simp: getNextTimer_def timers_ok_def Let_def split: list.splits if_splits)

lemma detectClockRollover_ok: "timers_ok m \<Longrightarrow> timers_ok (fst (detectClockRollover now m))"
  by (auto simp: detectClockRollover_def timers_ok_def)

lemma expire_one_ok:
  assumes ok: "timers_ok m" and ne: "m_timers m \<noteq> []"
  shows "timers_ok (fst (expire_one now m cbs))"
proof -
  obtain i xs where xs: "m_timers m = i # xs" using ne by (cases "m_timers m") auto
  have i: "i \<notin> set xs" and s: "sorted_wrt (Comparator (m\<lparr>m_timers := xs\<rparr>)) xs"
    using timers_ok_distinct [OF ok] timers_ok_sorted [OF ok] xs by auto
  let ?t = "(store m i)\<lparr>m_next := now + ms_dur (m_ms (store m i))\<rparr>"
  let ?m2 = "m\<lparr>store := (store m)(i := ?t)\<rparr>"
  have lt: "\<forall>k \<in> set (i # xs). k < next_timer m" using ok xs by (simp add: timers_ok_def)
  have "\<forall>k \<in> set (set_insert (Comparator ?m2) i xs). k < next_timer m"
    using cmp.set_insert_subset [of ?m2 i xs] lt by auto
  moreover have "sorted_wrt (Comparator ?m2) (set_insert (Comparator ?m2) i xs)"
    using restart_ok [OF s i, of ?t] by simp
  moreover have "sorted_wrt (Comparator (m\<lparr>store := (store m)(i := t)\<rparr>)) xs" for t
    using sorted_store_upd [OF s i, of t] by simp
  ultimately show ?thesis
    using lt xs by (simp add: expire_one_def timers_ok_def Let_def)
qed

lemma expire_loop_ok:
  assumes ret: "expire_loop rollover now m cbs = Some r" and ok: "timers_ok m"
  shows "timers_ok (fst r)"
proof -
  have "timers_ok m \<longrightarrow> timers_ok (fst r)"
  proof (rule expire_loop.raw_induct [where P = "\<lambda>b n m c r. timers_ok m \<longrightarrow> timers_ok (fst r)", OF _ ret])
    fix f :: "bool \<Rightarrow> int \<Rightarrow> 'a timer_manager \<Rightarrow> 'a option list \<Rightarrow> ('a timer_manager \<times> 'a option list) option"
      and b n m c r
    assume IH: "\<And>b n m c r. f b n m c = Some r \<Longrightarrow> timers_ok m \<longrightarrow> timers_ok (fst r)"
      and eq: "(if expire_guard b n m then case expire_one n m c of (m', c') \<Rightarrow> f b n m' c' else Some (m, c)) = Some r"
    show "timers_ok m \<longrightarrow> timers_ok (fst r)"
    proof
      assume ok: "timers_ok m"
      show "timers_ok (fst r)"
      proof (cases "expire_guard b n m")
        case True
        then have "timers_ok (fst (expire_one n m c))"
          using ok by (auto simp: expire_guard_def intro: expire_one_ok)
        with True eq IH show ?thesis by (auto simp: split_beta)
      next
        case False
        with eq ok show ?thesis by auto
      qed
    qed
  qed
  with ok show ?thesis by blast
qed

lemma listExpiredCb_ok:
  "listExpiredCb now now2 cbs m = Some r \<Longrightarrow> timers_ok m \<Longrightarrow> timers_ok (fst r)"
  using detectClockRollover_ok expire_loop_ok
  by (fastforce simp: listExpiredCb_def split_beta)

lemmas timer_ops_ok [inv_simps] =
  addTimer_ok cancel_ok refresh_ok reset_ok getNextTimer_ok detectClockRollover_ok listExpiredCb_ok

section \<open>The expiry loop\<close>

lemma takeWhile_set_insert:
  assumes "now < key m i"
  shows "takeWhile (\<lambda>j. key m j \<le> now) (set_insert (Comparator m) i xs)
         = takeWhile (\<lambda>j. key m j \<le> now) xs"
  using assms by (induction xs) (auto simp: Comparator_def)

definition expire_effect ::
    "int \<Rightarrow> 'cb timer_manager \<Rightarrow> 'cb timer_manager \<Rightarrow> bool" where
  \<comment> \<open>what a completed expiry at \<open>now\<close> does to the pending set and the objects\<close>
  "expire_effect now m m' \<longleftrightarrow>
     set (m_timers m') \<subseteq> set (m_timers m)
     \<and> (\<forall>i \<in> set (m_timers m'). now < key m' i)
     \<and> (\<forall>i. i \<notin> set (m_timers m) \<longrightarrow> store m' i = store m i)
     \<and> (\<forall>i \<in> set (m_timers m). now < key m i \<longrightarrow> i \<in> set (m_timers m') \<and> store m' i = store m i)
     \<and> (\<forall>i \<in> set (m_timers m). key m i \<le> now \<longrightarrow> \<not> m_recurring (store m i) \<longrightarrow>
          i \<notin> set (m_timers m') \<and> store m' i = (store m i)\<lparr>m_cb := None\<rparr>)
     \<and> (\<forall>i \<in> set (m_timers m). key m i \<le> now \<longrightarrow> m_recurring (store m i) \<longrightarrow>
          store m' i = (store m i)\<lparr>m_next := now + ms_dur (m_ms (store m i))\<rparr>)"

definition expired :: "int \<Rightarrow> 'cb timer_manager \<Rightarrow> nat list" where
  "expired now m = takeWhile (\<lambda>i. key m i \<le> now) (m_timers m)"

definition restart_later :: "int \<Rightarrow> 'cb timer_manager \<Rightarrow> bool" where
  \<comment> \<open>no expired recurring timer has a zero (or negative, as a signed count) period\<close>
  "restart_later now m \<longleftrightarrow>
     (\<forall>i \<in> set (m_timers m). key m i \<le> now \<longrightarrow> m_recurring (store m i) \<longrightarrow> 0 < sint (m_ms (store m i)))"

lemma expire_effect_refl:
  assumes "timers_ok m" and "expired now m = []"
  shows "expire_effect now m m"
proof -
  have "\<forall>i \<in> set (m_timers m). now < key m i"
    using assms by (cases "m_timers m") (auto simp: expired_def timers_ok_def Comparator_def split: if_splits)
  then show ?thesis by (fastforce simp: expire_effect_def)
qed

text \<open>
  One round of the loop, as facts about the manager it leaves: the object of the front
  timer \<open>i\<close> is replaced, and \<open>i\<close> is pending again only if it is recurring.
\<close>

definition expired_object :: "int \<Rightarrow> 'cb timer \<Rightarrow> 'cb timer" where
  "expired_object now t =
     (if m_recurring t then t\<lparr>m_next := now + ms_dur (m_ms t)\<rparr> else t\<lparr>m_cb := None\<rparr>)"

lemma expire_one_facts:
  assumes ok: "timers_ok m" and xs: "m_timers m = i # xs"
  obtains m1 where "expire_one now m cbs = (m1, cbs @ [m_cb (store m i)])"
    and "store m1 = (store m)(i := expired_object now (store m i))"
    and "set xs \<subseteq> set (m_timers m1)" and "set (m_timers m1) \<subseteq> insert i (set xs)"
    and "i \<in> set (m_timers m1) \<Longrightarrow> m_recurring (store m i)"
    and "m_recurring (store m i) \<Longrightarrow> m_timers m1 = set_insert (Comparator m1) i xs"
    and "\<not> m_recurring (store m i) \<Longrightarrow> m_timers m1 = xs"
proof -
  have i: "i \<notin> set xs" using timers_ok_distinct [OF ok] xs by simp
  let ?m1 = "m\<lparr>m_timers := xs, store := (store m)(i := expired_object now (store m i))\<rparr>"
  show ?thesis
  proof (cases "m_recurring (store m i)")
    case True
    let ?m2 = "?m1\<lparr>m_timers := set_insert (Comparator ?m1) i xs\<rparr>"
    have "set xs \<subseteq> set (m_timers ?m2)" "set (m_timers ?m2) \<subseteq> insert i (set xs)"
      using cmp.set_insert_subset [THEN subsetD] cmp.set_insert_superset [THEN subsetD] by auto
    moreover have "expire_one now m cbs = (?m2, cbs @ [m_cb (store m i)])"
      using xs True by (simp add: expire_one_def expired_object_def Let_def)
    ultimately show ?thesis using True by (intro that [of ?m2]) simp_all
  next
    case False
    have "expire_one now m cbs = (?m1, cbs @ [m_cb (store m i)])"
      using xs False by (simp add: expire_one_def expired_object_def Let_def)
    then show ?thesis using False i by (intro that [of ?m1]) auto
  qed
qed

lemma expire_step_effect:
  assumes st: "store m1 = (store m)(i := expired_object now (store m i))"
    and xs: "m_timers m = i # xs" and i: "i \<notin> set xs" and due: "key m i \<le> now"
    and sub: "set xs \<subseteq> set (m_timers m1)" "set (m_timers m1) \<subseteq> insert i (set xs)"
    and rec: "i \<in> set (m_timers m1) \<Longrightarrow> m_recurring (store m i)"
    and later: "m_recurring (store m i) \<Longrightarrow> now < key m1 i"
    and E: "expire_effect now m1 m'"
  shows "expire_effect now m m'"
proof -
  note E' = E [unfolded expire_effect_def]
  have st_i: "store m1 i = expired_object now (store m i)" and st_j: "\<And>j. j \<noteq> i \<Longrightarrow> store m1 j = store m j"
    using st by auto
  have obj: "store m' i = expired_object now (store m i)"
  proof (cases "i \<in> set (m_timers m1)")
    case True
    then have "store m' i = store m1 i" using E' later [OF rec] by blast
    with st_i show ?thesis by simp
  next
    case False
    then have "store m' i = store m1 i" using E' by blast
    with st_i show ?thesis by simp
  qed
  have out: "\<not> m_recurring (store m i) \<Longrightarrow> i \<notin> set (m_timers m')" using E' rec by blast
  have rest: "j \<in> set (m_timers m1) \<longleftrightarrow> j \<in> set xs" if "j \<noteq> i" for j using sub that by auto
  show ?thesis
    unfolding expire_effect_def xs
  proof (intro conjI ballI allI impI)
    show "set (m_timers m') \<subseteq> set (i # xs)" using E' sub by auto
  next
    fix j assume "j \<in> set (m_timers m')"
    then show "now < key m' j" using E' by blast
  next
    fix j assume "j \<notin> set (i # xs)"
    then show "store m' j = store m j" using E' rest st_j by auto
  next
    fix j assume "j \<in> set (i # xs)" "now < key m j"
    then have "j \<noteq> i" "j \<in> set xs" using due by auto
    then have j: "j \<noteq> i" "j \<in> set (m_timers m1)" "now < key m1 j"
      using \<open>now < key m j\<close> sub st_j by auto
    then show "j \<in> set (m_timers m')" "store m' j = store m j" using E' st_j by (blast, metis)
  next
    fix j assume j: "j \<in> set (i # xs)" "key m j \<le> now" "\<not> m_recurring (store m j)"
    show "j \<notin> set (m_timers m')"
      using j out E' rest st_j by (cases "j = i") auto
    show "store m' j = store m j\<lparr>m_cb := None\<rparr>"
      using j obj E' rest st_j by (cases "j = i") (auto simp: expired_object_def)
  next
    fix j assume j: "j \<in> set (i # xs)" "key m j \<le> now" "m_recurring (store m j)"
    show "store m' j = store m j\<lparr>m_next := now + ms_dur (m_ms (store m j))\<rparr>"
      using j obj E' rest st_j by (cases "j = i") (auto simp: expired_object_def)
  qed
qed

lemma expire_one_step:
  assumes ok: "timers_ok m" and later: "restart_later now m" and e: "expired now m = i # ks"
  shows "\<exists>m1. expire_one now m cbs = (m1, cbs @ [m_cb (store m i)])
              \<and> expired now m1 = ks \<and> restart_later now m1
              \<and> (\<forall>j \<in> set ks. m_cb (store m1 j) = m_cb (store m j))
              \<and> (\<forall>m'. expire_effect now m1 m' \<longrightarrow> expire_effect now m m')"
proof -
  obtain xs where xs: "m_timers m = i # xs" and due: "key m i \<le> now"
    and ks_eq: "ks = takeWhile (\<lambda>j. key m j \<le> now) xs"
    using e by (cases "m_timers m") (auto simp: expired_def split: if_splits)
  have i: "i \<notin> set xs" using timers_ok_distinct [OF ok] xs by simp
  then have i_ks: "i \<notin> set ks" using ks_eq set_takeWhileD by fastforce
  obtain m1 where run: "expire_one now m cbs = (m1, cbs @ [m_cb (store m i)])"
    and st: "store m1 = (store m)(i := expired_object now (store m i))"
    and sub: "set xs \<subseteq> set (m_timers m1)" "set (m_timers m1) \<subseteq> insert i (set xs)"
    and rec: "i \<in> set (m_timers m1) \<Longrightarrow> m_recurring (store m i)"
    and again: "m_recurring (store m i) \<Longrightarrow> m_timers m1 = set_insert (Comparator m1) i xs"
    and gone: "\<not> m_recurring (store m i) \<Longrightarrow> m_timers m1 = xs"
    using expire_one_facts [OF ok xs] by blast
  have now_lt: "now < key m1 i" if "m_recurring (store m i)"
    using that later xs due st by (auto simp: restart_later_def ms_dur_def expired_object_def)
  have tw: "takeWhile (\<lambda>j. key m1 j \<le> now) xs = ks"
    unfolding ks_eq using i st by (intro takeWhile_cong) auto
  have ex: "expired now m1 = ks"
    using again gone tw takeWhile_set_insert [of now m1 i xs] now_lt
    by (cases "m_recurring (store m i)") (auto simp: expired_def)
  have rl: "restart_later now m1"
    unfolding restart_later_def
  proof (intro ballI impI)
    fix j assume j: "j \<in> set (m_timers m1)" "key m1 j \<le> now" "m_recurring (store m1 j)"
    then have "j \<noteq> i" using now_lt rec by auto
    then show "0 < sint (m_ms (store m1 j))"
      using j sub st later xs by (auto simp: restart_later_def)
  qed
  show ?thesis
    using run ex rl i_ks st expire_step_effect [OF st xs i due sub rec now_lt]
    by (intro exI [of _ m1]) auto
qed

lemma expire_loop_run:
  assumes "timers_ok m" and "restart_later now m"
  shows "\<exists>m'. expire_loop False now m cbs = Some (m', cbs @ map (\<lambda>i. m_cb (store m i)) (expired now m))
              \<and> expire_effect now m m'"
  using assms
proof (induction "expired now m" arbitrary: m cbs)
  case Nil
  then have "\<not> expire_guard False now m"
    by (cases "m_timers m") (auto simp: expire_guard_def expired_def split: if_splits)
  with Nil show ?case
    using expire_effect_refl [of m now] by (simp add: expire_loop.simps)
next
  case (Cons i ks)
  obtain m1 where run: "expire_one now m cbs = (m1, cbs @ [m_cb (store m i)])"
    and ex: "expired now m1 = ks" and rl: "restart_later now m1"
    and cbs_eq: "\<forall>j \<in> set ks. m_cb (store m1 j) = m_cb (store m j)"
    and eff: "\<forall>m'. expire_effect now m1 m' \<longrightarrow> expire_effect now m m'"
    using expire_one_step [OF Cons.prems Cons.hyps(2) [symmetric]] by blast
  have ne: "m_timers m \<noteq> []" and g: "expire_guard False now m"
    using Cons.hyps(2) by (auto simp: expired_def expire_guard_def split: if_splits) (cases "m_timers m"; auto split: if_splits)+
  have ok1: "timers_ok m1" using expire_one_ok [OF Cons.prems(1) ne, of now cbs] run by simp
  obtain m' where "expire_loop False now m1 (cbs @ [m_cb (store m i)])
      = Some (m', (cbs @ [m_cb (store m i)]) @ map (\<lambda>j. m_cb (store m1 j)) ks)"
    and "expire_effect now m1 m'"
    using Cons.hyps(1) [OF ex [symmetric] ok1 rl] ex by metis
  moreover have "map (\<lambda>j. m_cb (store m1 j)) ks = map (\<lambda>j. m_cb (store m j)) ks"
    using cbs_eq by simp
  ultimately show ?case
    using g run eff Cons.hyps(2) [symmetric]
    by (intro exI [of _ m']) (simp add: expire_loop.simps [of False now m])
qed

section \<open>The manager as a transition system\<close>

inductive timer_start :: "'cb timer_manager \<Rightarrow> bool" where
  "timer_start (TimerManager_new now)"

text \<open>One call of an operation, at any time and on any object the manager has created.\<close>

inductive timer_step :: "'cb timer_manager \<Rightarrow> 'cb timer_manager \<Rightarrow> bool" where
  step_add: "timer_step m (fst (addTimer now ms cb recurring m))"
| step_cancel: "i < next_timer m \<Longrightarrow> timer_step m (fst (cancel i m))"
| step_refresh: "i < next_timer m \<Longrightarrow> timer_step m (fst (refresh now i m))"
| step_reset: "i < next_timer m \<Longrightarrow> timer_step m (fst (reset ms from_now now i m))"
| step_next: "timer_step m (fst (getNextTimer now m))"
| step_expire: "listExpiredCb now now2 cbs m = Some r \<Longrightarrow> timer_step m (fst r)"

lemma timer_step_ok: "timer_step m m' \<Longrightarrow> timers_ok m \<Longrightarrow> timers_ok m'"
  by (induction rule: timer_step.induct) (auto intro: timer_ops_ok)

interpretation tm: invariant_system timer_start timer_step timers_ok
proof unfold_locales
  fix m :: "'a timer_manager" assume "timer_start m"
  then show "timers_ok m" by cases (simp add: timers_ok_def TimerManager_new_def)
qed (rule timer_step_ok)

section \<open>Properties\<close>

lemma expired_filter:
  assumes "timers_ok m"
  shows "expired now m = filter (\<lambda>i. key m i \<le> now) (m_timers m)"
proof -
  have "sorted_wrt (Comparator m) xs \<Longrightarrow>
          takeWhile (\<lambda>i. key m i \<le> now) xs = filter (\<lambda>i. key m i \<le> now) xs" for xs
  proof (induction xs)
    case (Cons x xs)
    show ?case
    proof (cases "key m x \<le> now")
      case True
      with Cons show ?thesis by simp
    next
      case False
      then have "filter (\<lambda>i. key m i \<le> now) xs = []"
        using Cons.prems by (auto simp: filter_empty_conv Comparator_def)
      with False show ?thesis by simp
    qed
  qed simp
  then show ?thesis using timers_ok_sorted [OF assms] by (simp add: expired_def)
qed

lemma no_rollover:
  assumes "m_previouseTime m - ms_dur (60 * 60 * 1000) \<le> now2"
  shows "listExpiredCb now now2 cbs m = expire_loop False now (m\<lparr>m_previouseTime := now2\<rparr>) cbs"
  using assms by (simp add: listExpiredCb_def detectClockRollover_def)

lemma expire_effect_previous:
  "expire_effect now (m\<lparr>m_previouseTime := t\<rparr>) m' = expire_effect now m m'"
  by (simp add: expire_effect_def)

lemma listExpiredCb_run:
  assumes ok: "timers_ok m" and clock: "m_previouseTime m - ms_dur (60 * 60 * 1000) \<le> now2"
    and "restart_later now m"
  shows "\<exists>m'. listExpiredCb now now2 cbs m =
                Some (m', cbs @ map (\<lambda>i. m_cb (store m i)) (filter (\<lambda>i. key m i \<le> now) (m_timers m)))
              \<and> timers_ok m' \<and> expire_effect now m m'"
proof -
  let ?m = "m\<lparr>m_previouseTime := now2\<rparr>"
  have ok': "timers_ok ?m" using detectClockRollover_ok [OF ok, of now2] by (simp add: detectClockRollover_def)
  have "restart_later now ?m" using assms(3) by (simp add: restart_later_def)
  then obtain m' where m': "expire_loop False now ?m cbs =
      Some (m', cbs @ map (\<lambda>i. m_cb (store ?m i)) (expired now ?m))" and "expire_effect now ?m m'"
    using expire_loop_run [OF ok'] by blast
  moreover have "timers_ok m'" using expire_loop_ok [OF m' ok'] by simp
  ultimately show ?thesis
    using expired_filter [OF ok'] no_rollover [OF clock, of now cbs]
    by (auto simp: expire_effect_previous)
qed


definition demo_timers :: "nat timer_manager" where
  \<comment> \<open>a one-shot timer at 5 ms and a recurring one at 7 ms with period 7 ms\<close>
  "demo_timers = fst (addTimer 0 7 (Some 70) True (fst (addTimer 0 5 (Some 50) False (TimerManager_new 0))))"

lemma demo_timers_facts:
  "m_timers demo_timers = [0, Suc 0]" "key demo_timers 0 = 5000000" "key demo_timers (Suc 0) = 7000000"
  "m_cb (store demo_timers 0) = Some 50" "m_cb (store demo_timers (Suc 0)) = Some 70"
  "m_recurring (store demo_timers (Suc 0))" "\<not> m_recurring (store demo_timers 0)"
  "m_ms (store demo_timers (Suc 0)) = 7" "m_previouseTime demo_timers = 0" "next_timer demo_timers = 2"
  "m_tickled demo_timers"
  by (simp_all add: demo_timers_def timer_defs Comparator_def ms_dur_def set_insert_pos_def Let_def)

lemma demo_timers_ok: "timers_ok demo_timers"
  unfolding timers_ok_def Comparator_def by (simp add: demo_timers_facts)


lemma expire_loop_rollover_diverges:
  assumes "timers_ok m" and "m_timers m \<noteq> []" and "\<forall>i \<in> set (m_timers m). m_recurring (store m i)"
  shows "expire_loop True now m cbs = None"
proof (rule ccontr)
  assume "expire_loop True now m cbs \<noteq> None"
  then obtain r where ret: "expire_loop True now m cbs = Some r" by blast
  let ?I = "\<lambda>m :: 'a timer_manager. timers_ok m \<and> m_timers m \<noteq> [] \<and> (\<forall>i \<in> set (m_timers m). m_recurring (store m i))"
  have "True \<longrightarrow> \<not> ?I m"
  proof (rule expire_loop.raw_induct [where P = "\<lambda>b n m c r. b \<longrightarrow> \<not> ?I m", OF _ ret])
    fix f :: "bool \<Rightarrow> int \<Rightarrow> 'a timer_manager \<Rightarrow> 'a option list \<Rightarrow> ('a timer_manager \<times> 'a option list) option"
      and b n m c r
    assume IH: "\<And>b n m c r. f b n m c = Some r \<Longrightarrow> b \<longrightarrow> \<not> ?I m"
      and eq: "(if expire_guard b n m then case expire_one n m c of (m', c') \<Rightarrow> f b n m' c' else Some (m, c)) = Some r"
    show "b \<longrightarrow> \<not> ?I m"
    proof (intro impI notI)
      assume b: b and I: "?I m"
      then obtain i xs where xs: "m_timers m = i # xs" by (cases "m_timers m") auto
      obtain m1 where run: "expire_one n m c = (m1, c @ [m_cb (store m i)])"
        and st: "store m1 = (store m)(i := expired_object n (store m i))"
        and sub: "set (m_timers m1) \<subseteq> insert i (set xs)"
        and ins: "m_recurring (store m i) \<Longrightarrow> m_timers m1 = set_insert (Comparator m1) i xs"
        using expire_one_facts [OF conjunct1 [OF I] xs] by metis
      have "m_timers m1 \<noteq> []" using I xs ins by (cases xs) (auto split: if_splits)
      moreover have "\<forall>j \<in> set (m_timers m1). m_recurring (store m1 j)"
        using I xs sub st by (auto simp: expired_object_def)
      moreover have "timers_ok m1" using expire_one_ok [of m n c] I run by simp
      moreover have "f b n m1 (c @ [m_cb (store m i)]) = Some r"
        using eq run b I by (simp add: expire_guard_def)
      ultimately show False using IH b by blast
    qed
  qed
  then show False using assms by simp
qed

text \<open>
  C26: when the system clock is set back by more than an hour while every pending timer is
  recurring (and there is one), \<open>listExpiredCb\<close> never returns: each round puts the timer
  it has just taken out back into the set.
\<close>

theorem listExpiredCb_rollover_hangs:
  assumes "timers_ok m" and "m_timers m \<noteq> []" and "\<forall>i \<in> set (m_timers m). m_recurring (store m i)"
    and "now2 < m_previouseTime m - ms_dur (60 * 60 * 1000)"
  shows "listExpiredCb now now2 cbs m = None"
proof -
  have "timers_ok (m\<lparr>m_previouseTime := now2\<rparr>)"
    using detectClockRollover_ok [OF assms(1), of now2] by (simp add: detectClockRollover_def)
  then show ?thesis
    using assms(2-) expire_loop_rollover_diverges [of "m\<lparr>m_previouseTime := now2\<rparr>" now cbs]
    by (simp add: listExpiredCb_def detectClockRollover_def)
qed

theorem listExpiredCb_rollover_hangs_witness:
  "listExpiredCb 0 (-3600000000001) [] (fst (addTimer 0 7 (Some (70::nat)) True (TimerManager_new 0))) = None"
  using listExpiredCb_rollover_hangs
    [of "fst (addTimer 0 7 (Some (70::nat)) True (TimerManager_new 0))" "-3600000000001" 0 "[]"]
  by (simp add: timer_defs timers_ok_def Comparator_def set_insert_pos_def ms_dur_def Let_def)

text \<open>
  Two timers with the same deadline are one element to the set.  A timer added with
  the deadline of a pending one is not inserted (so its callback is never called), and
  cancelling it takes the other, still live, timer out of the set.
\<close>

theorem equal_deadline_drops:
  assumes "timers_ok m" and "j \<in> set (m_timers m)" and "key m j = now + ms_dur ms"
    and "addTimer now ms (Some cb) recurring m = (m', i, w)"
  shows "i \<noteq> j \<and> m_timers m' = m_timers m
     \<and> m_timers (fst (cancel i m')) = remove1 j (m_timers m)
     \<and> m_cb (store (fst (cancel i m')) j) = m_cb (store m j)"
proof -
  let ?m1 = "m\<lparr>store := (store m)(next_timer m := Timer_new ms (Some cb) recurring now),
               next_timer := Suc (next_timer m)\<rparr>"
  have i: "i = next_timer m" and m': "m' = fst (addTimer_ptr i ?m1)"
    using assms(4) by (auto simp: addTimer_def Let_def split_beta)
  have fresh: "i \<notin> set (m_timers m)" using assms(1) i by (auto simp: timers_ok_def)
  have keys: "key ?m1 k = (if k = i then now + ms_dur ms else key m k)" for k
    using i by (simp add: Timer_new_def)
  have s1: "sorted_wrt (Comparator ?m1) (m_timers m)"
    by (rule Comparator_cong [OF _ timers_ok_sorted [OF assms(1)]]) (use keys fresh in auto)
  have ij: "\<not> Comparator ?m1 i j" "\<not> Comparator ?m1 j i"
    using keys assms(2,3) fresh by (auto simp: Comparator_def)
  have ins: "set_insert (Comparator ?m1) i (m_timers m) = m_timers m"
    using cmp.set_insert_equiv [OF s1 assms(2) ij] .
  have ne: "i \<noteq> j" using fresh assms(2) by auto
  have same: "m_timers m' = m_timers m"
    using ins m' by (simp add: addTimer_ptr_def Let_def)
  have st': "store m' = store ?m1" using m' by (simp add: addTimer_ptr_def Let_def)
  let ?c = "m'\<lparr>store := (store m')(i := (store m' i)\<lparr>m_cb := None\<rparr>)\<rparr>"
  have keyc: "key ?c k = key ?m1 k" for k using st' by simp
  have sc: "sorted_wrt (Comparator ?c) (m_timers m)"
    by (rule Comparator_cong [OF _ s1]) (use keyc in auto)
  have "set_find (Comparator ?c) i (m_timers m) = Some j"
  proof (cases "set_find (Comparator ?c) i (m_timers m)")
    case None
    then have "Comparator ?c i j \<or> Comparator ?c j i"
      using cmp.set_find_None [OF sc _ assms(2), of i] by simp
    then show ?thesis using ij unfolding Comparator_def keyc by blast
  next
    case (Some k)
    then have k: "k \<in> set (m_timers m)" "key ?c k = key ?c i"
      using cmp.set_find_Some by (force simp: Comparator_def)+
    then have "\<not> Comparator ?c k j" "\<not> Comparator ?c j k"
      using ij unfolding Comparator_def keyc by simp_all
    then have "k = j" using cmp.sorted_equiv_eq [OF sc k(1) assms(2)] by simp
    then show ?thesis using Some by simp
  qed
  moreover have "m_cb (store m' i) = Some cb" using st' i by (simp add: Timer_new_def)
  ultimately show ?thesis using same st' ne i by (simp add: cancel_def)
qed

theorem equal_deadline_drops_witness:
  "\<exists>m' i w. addTimer 0 5 (Some 51) False demo_timers = (m', i, w) \<and> i \<noteq> 0
     \<and> m_timers m' = [0, Suc 0] \<and> m_timers (fst (cancel i m')) = [Suc 0]
     \<and> m_cb (store (fst (cancel i m')) 0) = Some 50"
proof -
  obtain m' i w where r: "addTimer 0 5 (Some 51) False demo_timers = (m', i, w)"
    by (metis prod_cases3)
  show ?thesis
    using equal_deadline_drops [OF demo_timers_ok _ _ r, of 0] r
    by (intro exI [of _ m'] exI [of _ i] exI [of _ w]) (simp add: demo_timers_facts ms_dur_def)
qed

text \<open>
  Two recurring timers with the same period that expire in one call of
  \<open>listExpiredCb\<close> are restarted at the same deadline, so at most one of them is pending
  afterwards: the other stops recurring.
\<close>

theorem recurring_same_period_collapse:
  assumes "timers_ok m" and "m_previouseTime m - ms_dur (60 * 60 * 1000) \<le> now2"
    and "restart_later now m"
    and i: "i \<in> set (m_timers m)" "m_recurring (store m i)" "key m i \<le> now"
    and j: "j \<in> set (m_timers m)" "m_recurring (store m j)" "key m j \<le> now"
    and "i \<noteq> j" and "m_ms (store m i) = m_ms (store m j)"
  shows "\<exists>m' out. listExpiredCb now now2 cbs m = Some (m', out)
           \<and> \<not> (i \<in> set (m_timers m') \<and> j \<in> set (m_timers m'))"
proof -
  obtain m' out where run: "listExpiredCb now now2 cbs m = Some (m', out)"
    and ok: "timers_ok m'" and E: "expire_effect now m m'"
    using listExpiredCb_run [OF assms(1-3)] by blast
  have "key m' i = now + ms_dur (m_ms (store m i))" "key m' j = now + ms_dur (m_ms (store m j))"
    using E i j by (simp_all add: expire_effect_def)
  then have "key m' i = key m' j" using assms(11) by simp
  then have "\<not> Comparator m' i j" "\<not> Comparator m' j i" by (simp_all add: Comparator_def)
  then have "\<not> (i \<in> set (m_timers m') \<and> j \<in> set (m_timers m'))"
    using cmp.sorted_equiv_eq [OF timers_ok_sorted [OF ok]] \<open>i \<noteq> j\<close> by blast
  with run show ?thesis by blast
qed

definition demo_recurring :: "nat timer_manager" where
  "demo_recurring = fst (addTimer 1 7 (Some 71) True (fst (addTimer 0 7 (Some 70) True (TimerManager_new 0))))"

lemma demo_recurring_facts:
  "m_timers demo_recurring = [0, Suc 0]" "key demo_recurring 0 = 7000000"
  "key demo_recurring (Suc 0) = 7000001" "m_ms (store demo_recurring 0) = 7"
  "m_ms (store demo_recurring (Suc 0)) = 7" "m_recurring (store demo_recurring 0)"
  "m_recurring (store demo_recurring (Suc 0))" "m_previouseTime demo_recurring = 0"
  "next_timer demo_recurring = 2"
  by (simp_all add: demo_recurring_def timer_defs Comparator_def ms_dur_def set_insert_pos_def Let_def)

theorem recurring_same_period_collapse_witness:
  "\<exists>m' out. listExpiredCb 8000000 8000000 [] demo_recurring = Some (m', out)
     \<and> \<not> (0 \<in> set (m_timers m') \<and> Suc 0 \<in> set (m_timers m'))"
  by (rule recurring_same_period_collapse)
     (simp_all add: demo_recurring_facts timers_ok_def Comparator_def restart_later_def ms_dur_def)

text \<open>
  A timer whose deadline no pending timer has is inserted: it is pending with exactly
  the callback, period and deadline asked for, every other timer is untouched, and
  \<open>onTimerInsertedAtFront\<close> is called exactly when its deadline is the earliest and no
  such call is outstanding.
\<close>

theorem addTimer_inserts:
  assumes "timers_ok m" and "\<forall>j \<in> set (m_timers m). key m j \<noteq> now + ms_dur ms"
    and "addTimer now ms cb recurring m = (m', i, at_front)"
  shows "set (m_timers m') = insert i (set (m_timers m)) \<and> i \<notin> set (m_timers m)
     \<and> store m' i = \<lparr>m_recurring = recurring, m_ms = ms, m_next = now + ms_dur ms, m_cb = cb\<rparr>
     \<and> (\<forall>j. j \<noteq> i \<longrightarrow> store m' j = store m j)
     \<and> (at_front \<longleftrightarrow> (\<forall>j \<in> set (m_timers m). now + ms_dur ms < key m j) \<and> \<not> m_tickled m)"
proof -
  let ?m1 = "m\<lparr>store := (store m)(next_timer m := Timer_new ms cb recurring now),
               next_timer := Suc (next_timer m)\<rparr>"
  have i: "i = next_timer m" and r: "addTimer_ptr i ?m1 = (m', at_front)"
    using assms(3) by (auto simp: addTimer_def Let_def prod_eq_iff split: prod.splits)
  have fresh: "i \<notin> set (m_timers m)" using assms(1) i by (auto simp: timers_ok_def)
  have keys: "key ?m1 k = (if k = i then now + ms_dur ms else key m k)" for k
    using i by (simp add: Timer_new_def)
  have ne: "y \<in> set (m_timers m) \<Longrightarrow> Comparator ?m1 i y \<or> Comparator ?m1 y i" for y
    using keys fresh assms(2) by (cases "y = i") (auto simp: Comparator_def)
  have m': "m_timers m' = set_insert (Comparator ?m1) i (m_timers m)" "store m' = store ?m1"
    using r by (auto simp: addTimer_ptr_def Let_def split: if_splits)
  have front: "set_insert_pos (Comparator ?m1) i (m_timers m) = 0
      \<longleftrightarrow> (\<forall>j \<in> set (m_timers m). now + ms_dur ms < key m j)"
  proof (cases "m_timers m")
    case Nil
    then show ?thesis by (simp add: set_insert_pos_def)
  next
    case (Cons x xs)
    have "\<forall>j \<in> set xs. key m x < key m j"
      using timers_ok_sorted [OF assms(1)] Cons by (auto simp: Comparator_def)
    moreover have "\<not> Comparator ?m1 x i \<longleftrightarrow> now + ms_dur ms < key m x"
      using keys fresh Cons assms(2) by (auto simp: Comparator_def)
    ultimately show ?thesis using Cons cmp.set_insert_pos_front [of ?m1 i "m_timers m"] by auto
  qed
  have "at_front \<longleftrightarrow> set_insert_pos (Comparator ?m1) i (m_timers m) = 0 \<and> \<not> m_tickled m"
    using r by (auto simp: addTimer_ptr_def Let_def split: if_splits)
  then show ?thesis
    using m' cmp.set_set_insert [of "m_timers m" ?m1 i] ne fresh i front by (auto simp: Timer_new_def)
qed

theorem addTimer_inserts_witness:
  "\<exists>m' i w. addTimer 0 3 (Some 30) False demo_timers = (m', i, w)
     \<and> set (m_timers m') = insert i {0, Suc 0} \<and> m_cb (store m' i) = Some 30 \<and> \<not> w"
proof -
  obtain m' i w where r: "addTimer 0 3 (Some 30) False demo_timers = (m', i, w)"
    by (metis prod_cases3)
  show ?thesis
    using addTimer_inserts [OF demo_timers_ok _ r] r
    by (intro exI [of _ m'] exI [of _ i] exI [of _ w]) (simp add: demo_timers_facts ms_dur_def)
qed

text \<open>
  Cancelling a pending timer with a callback returns true, takes exactly that timer
  out of the set, clears its callback and touches no other timer; cancelling it again
  returns false and changes nothing.
\<close>

theorem cancel_removes:
  assumes ok: "timers_ok m" and i: "i \<in> set (m_timers m)" and cb: "m_cb (store m i) = Some f"
  shows "\<exists>m'. cancel i m = (m', True) \<and> set (m_timers m') = set (m_timers m) - {i}
     \<and> store m' = (store m)(i := (store m i)\<lparr>m_cb := None\<rparr>) \<and> cancel i m' = (m', False)"
proof -
  let ?m1 = "m\<lparr>store := (store m)(i := (store m i)\<lparr>m_cb := None\<rparr>)\<rparr>"
  have "sorted_wrt (Comparator ?m1) (m_timers m)"
    by (rule Comparator_cong [OF _ timers_ok_sorted [OF ok]]) auto
  then have "set_find (Comparator ?m1) i (m_timers m) = Some i"
    using i by (rule cmp.set_find_mem)
  then show ?thesis
    using cb timers_ok_distinct [OF ok] by (auto simp: cancel_def)
qed

theorem cancel_removes_witness:
  "\<exists>m'. cancel 0 demo_timers = (m', True) \<and> set (m_timers m') = {0, Suc 0} - {0}
     \<and> cancel 0 m' = (m', False)"
  using cancel_removes [OF demo_timers_ok, of 0 50] by (auto simp: demo_timers_facts)

text \<open>
  C27: \<open>getNextTimer\<close> answers the all-ones value when no timer is pending, 0 when the
  earliest deadline has passed, and otherwise the time left in whole milliseconds,
  rounded down (never past the deadline, less than one millisecond short of it), when
  that count fits the 64 bits.
\<close>

theorem getNextTimer_bound:
  assumes "\<forall>i \<in> set (m_timers m). key m i - now < 2 ^ 63"
  shows "case m_timers m of
           [] \<Rightarrow> snd (getNextTimer now m) = 2 ^ 64 - 1
         | i # _ \<Rightarrow> (let ms = uint (snd (getNextTimer now m)) in
             (if key m i \<le> now then ms = 0
              else ms * 1000000 \<le> key m i - now \<and> key m i - now < ms * 1000000 + 1000000))"
proof (cases "m_timers m")
  case Nil
  then show ?thesis by (simp add: getNextTimer_def)
next
  case (Cons i xs)
  show ?thesis
  proof (cases "key m i \<le> now")
    case True
    with Cons show ?thesis by (simp add: getNextTimer_def Let_def)
  next
    case False
    let ?d = "key m i - now"
    have d: "0 < ?d" "?d < 2 ^ 63" using False assms Cons by auto
    then have "?d div 1000000 < 2 ^ 64" "0 \<le> ?d div 1000000" by auto
    then have "uint (word_of_int (?d div 1000000) :: u64) = ?d div 1000000"
      by (simp add: word_of_int_inverse take_bit_int_eq_self)
    moreover have "?d div 1000000 * 1000000 \<le> ?d \<and> ?d < ?d div 1000000 * 1000000 + 1000000"
      by (simp add: minus_mod_eq_div_mult [symmetric])
    ultimately show ?thesis using Cons False by (simp add: getNextTimer_def Let_def)
  qed
qed

theorem getNextTimer_bound_witness:
  "uint (snd (getNextTimer 1500001 demo_timers)) * 1000000 \<le> 3499999"
  using getNextTimer_bound [of demo_timers 1500001] by (simp add: demo_timers_facts Let_def)

text \<open>
  A \<open>cancel\<close> that comes between the two sections of a \<open>reset\<close> answers that it cancelled the timer, and the
  reset then puts the timer back without a function: it stays pending, a manager that waits for its timers does not
  stop before its deadline, and what expires is empty.
\<close>

theorem reset_races_with_cancel:
  assumes "timers_ok m" and "i \<in> set (m_timers m)" and "m_cb (store m i) \<noteq> None" and "m_ms (store m i) \<noteq> ms"
    and "\<forall>j \<in> set (m_timers m). key m j \<noteq> now + ms_dur ms"
  shows "\<exists>m1 m2 m3 at_front. reset_take ms True i m = (m1, None) \<and> cancel i m1 = (m2, True) \<and> reset_put ms True now i m2 = (m3, at_front)
    \<and> i \<in> set (m_timers m3) \<and> m_cb (store m3 i) = None"
proof -
  have f: "set_find (Comparator m) i (m_timers m) = Some i"
    by (rule cmp.set_find_mem [OF timers_ok_sorted [OF assms(1)] assms(2)])
  let ?m1 = "m\<lparr>m_timers := remove1 i (m_timers m)\<rparr>"
  have t: "reset_take ms True i m = (?m1, None)" using f assms(3) by (auto simp: reset_take_def)
  have notin: "i \<notin> set (remove1 i (m_timers m))" using timers_ok_distinct [OF assms(1)] by simp
  obtain m2 where c: "cancel i ?m1 = (m2, True)" "store m2 = (store m)(i := (store m i)\<lparr>m_cb := None\<rparr>)"
      "set (m_timers m2) \<subseteq> set (remove1 i (m_timers m))"
    using assms(3) set_remove1_subset
    by (cases "set_find (Comparator (?m1\<lparr>store := (store m)(i := (store m i)\<lparr>m_cb := None\<rparr>)\<rparr>)) i (remove1 i (m_timers m))")
       (fastforce simp: cancel_def Let_def)+
  obtain m3 fr where p: "reset_put ms True now i m2 = (m3, fr)" by fastforce
  let ?m = "m2\<lparr>store := (store m2)(i := (store m2 i)\<lparr>m_ms := ms, m_next := now + ms_dur ms\<rparr>)\<rparr>"
  have m3: "m_timers m3 = set_insert (Comparator ?m) i (m_timers m2)" "store m3 = store ?m"
    using p by (auto simp: reset_put_def addTimer_ptr_def Let_def split: if_splits)
  have "i \<in> set (m_timers m3)"
  proof -
    have "Comparator ?m i j \<or> Comparator ?m j i" if "j \<in> set (m_timers m2)" for j
    proof -
      have "j \<noteq> i" "j \<in> set (m_timers m)" using that c(3) notin set_remove1_subset [of i "m_timers m"] by auto
      then show ?thesis using assms(5) c(2) by (auto simp: Comparator_def neq_iff)
    qed
    then show ?thesis unfolding m3(1) by (rule set_insert_apart)
  qed
  moreover have "m_cb (store m3 i) = None" using m3(2) c(2) by simp
  ultimately show ?thesis using t c(1) p by blast
qed



end
