(* ===== verification/Fiber.thy ===== *)
theory Fiber
  imports Prelude
begin

text \<open>
  \<^verbatim>\<open>CoroutineLibrary/fiber.h\<close>, \<^verbatim>\<open>fiber.cpp\<close>: the fibers of one thread, the thread-local
  pointers that say which one runs, and the context switches between them.

  A \<^verbatim>\<open>Fiber\<close> object is named by a number.  A \<^verbatim>\<open>ucontext_t\<close> is abstracted to what
  activating it does: start \<^verbatim>\<open>MainFunc\<close> (\<open>Entry\<close>, after \<^verbatim>\<open>makecontext\<close>) or return from
  the place where it was captured (\<open>Captured\<close>); \<open>running\<close> is the fiber whose stack the
  thread is executing on, which \<^verbatim>\<open>swapcontext\<close> changes.  Failed assertions, null
  dereferences and failed context calls (after which the code leaves the thread) are
  error values.
\<close>

section \<open>Data\<close>

datatype State = READY | RUNNING | TERM_S   \<comment> \<open>the sources' \<^verbatim>\<open>TERM\<close>\<close>

datatype ctx = NoCtx | Entry | Captured

record 'f fiber =
  m_id :: u64
  m_stacksize :: u32
  m_state :: State
  m_ctx :: ctx
  m_stack :: bool            \<comment> \<open>the stack pointer is not null\<close>
  m_cb_f :: "'f option"
  m_runInScheduler :: bool

record 'f fiber_sys =
  fibers :: "nat \<Rightarrow> 'f fiber"
  next_fiber :: nat
  s_fiber_id :: u64
  s_fiber_count :: u64
  t_fiber :: "nat option"
  t_thread_fiber :: "nat option"
  t_scheduler_fiber :: "nat option"
  running :: "nat option"

datatype fiber_error =
    AssertFailed
  | NullDereference
  | ContextCallFailed   \<comment> \<open>\<^verbatim>\<open>getcontext\<close> or \<^verbatim>\<open>swapcontext\<close> failed: \<^verbatim>\<open>pthread_exit\<close>\<close>
  | BadFunctionCall     \<comment> \<open>an empty \<^verbatim>\<open>std::function\<close> was called\<close>

definition upd_fiber :: "nat \<Rightarrow> ('f fiber \<Rightarrow> 'f fiber) \<Rightarrow> 'f fiber_sys \<Rightarrow> 'f fiber_sys" where
  "upd_fiber f g s = s\<lparr>fibers := (fibers s)(f := g (fibers s f))\<rparr>"

definition thread_start :: "(nat \<Rightarrow> 'f fiber) \<Rightarrow> u64 \<Rightarrow> u64 \<Rightarrow> nat \<Rightarrow> 'f fiber_sys" where
  \<comment> \<open>the thread-local pointers of a new thread; the heap of fibers and the two global
    counters are whatever the other threads have made of them\<close>
  "thread_start heap ids count fresh =
     \<lparr>fibers = heap, next_fiber = fresh, s_fiber_id = ids, s_fiber_count = count,
      t_fiber = None, t_thread_fiber = None, t_scheduler_fiber = None, running = None\<rparr>"

section \<open>Thread-local pointers\<close>

definition SetThis :: "nat option \<Rightarrow> 'f fiber_sys \<Rightarrow> 'f fiber_sys" where
  "SetThis f s = s\<lparr>t_fiber := f\<rparr>"

definition SetSchedulerFiber :: "nat option \<Rightarrow> 'f fiber_sys \<Rightarrow> 'f fiber_sys" where
  "SetSchedulerFiber f s = s\<lparr>t_scheduler_fiber := f\<rparr>"

definition GetFiberId :: "'f fiber_sys \<Rightarrow> u64" where
  "GetFiberId s = (case t_fiber s of Some f \<Rightarrow> m_id (fibers s f) | None \<Rightarrow> - 1)"

section \<open>Construction\<close>

definition Fiber_main :: "bool \<Rightarrow> bool \<Rightarrow> 'f fiber_sys \<Rightarrow> fiber_error + ('f fiber_sys \<times> nat)" where
  \<comment> \<open>the private constructor; \<open>getcontext_ok\<close>: \<^verbatim>\<open>getcontext\<close> returned 0; \<open>junk\<close>: the value of
    \<open>m_runInScheduler\<close>, which this constructor leaves uninitialised.  The thread's own
    stack is from now on the new fiber's.\<close>
  "Fiber_main getcontext_ok junk s =
     (let f = next_fiber s;
          s1 = SetThis (Some f) s;
          fb = \<lparr>m_id = s_fiber_id s, m_stacksize = 0, m_state = RUNNING, m_ctx = Captured,
                m_stack = False, m_cb_f = None, m_runInScheduler = junk\<rparr>
      in if \<not> getcontext_ok then Inl ContextCallFailed
         else Inr (s1\<lparr>fibers := (fibers s)(f := fb), next_fiber := Suc f,
                      s_fiber_id := s_fiber_id s + 1, s_fiber_count := s_fiber_count s + 1,
                      running := Some f\<rparr>, f))"

definition GetThis :: "bool \<Rightarrow> bool \<Rightarrow> 'f fiber_sys \<Rightarrow> fiber_error + ('f fiber_sys \<times> nat)" where
  "GetThis getcontext_ok junk s =
     (case t_fiber s of
        Some f \<Rightarrow> Inr (s, f)
      | None \<Rightarrow>
          (case Fiber_main getcontext_ok junk s of
             Inl e \<Rightarrow> Inl e
           | Inr (s1, main_fiber) \<Rightarrow>
               (let s2 = s1\<lparr>t_thread_fiber := Some main_fiber, t_scheduler_fiber := Some main_fiber\<rparr>
                in if t_fiber s2 = Some main_fiber then Inr (s2, main_fiber)
                   else Inl AssertFailed)))"

definition Fiber_new ::
    "bool \<Rightarrow> bool \<Rightarrow> 'f option \<Rightarrow> u64 \<Rightarrow> bool \<Rightarrow> 'f fiber_sys \<Rightarrow> fiber_error + ('f fiber_sys \<times> nat)" where
  \<comment> \<open>\<open>malloc_ok\<close>: the stack was allocated (the code does not check); the 64-bit size is cut
    to the 32-bit member\<close>
  "Fiber_new getcontext_ok malloc_ok cb stacksize run_in_scheduler s =
     (let f = next_fiber s;
          sz = (if stacksize \<noteq> 0 then ucast stacksize else 128000);
          fb = \<lparr>m_id = s_fiber_id s, m_stacksize = sz, m_state = READY, m_ctx = Entry,
                m_stack = malloc_ok, m_cb_f = cb, m_runInScheduler = run_in_scheduler\<rparr>
      in if \<not> getcontext_ok then Inl ContextCallFailed
         else Inr (s\<lparr>fibers := (fibers s)(f := fb), next_fiber := Suc f,
                     s_fiber_id := s_fiber_id s + 1, s_fiber_count := s_fiber_count s + 1\<rparr>, f))"

definition Fiber_delete :: "nat \<Rightarrow> 'f fiber_sys \<Rightarrow> 'f fiber_sys" where
  "Fiber_delete f s =
     upd_fiber f (\<lambda>b. if m_stack b then b\<lparr>m_stack := False\<rparr> else b)
       (s\<lparr>s_fiber_count := s_fiber_count s - 1\<rparr>)"

definition Fiber_reset :: "bool \<Rightarrow> 'f option \<Rightarrow> nat \<Rightarrow> 'f fiber_sys \<Rightarrow> fiber_error + 'f fiber_sys" where
  "Fiber_reset getcontext_ok cb f s =
     (if \<not> (m_stack (fibers s f) \<and> m_state (fibers s f) = TERM_S) then Inl AssertFailed
      else if \<not> getcontext_ok then Inl ContextCallFailed
      else Inr (upd_fiber f (\<lambda>b. b\<lparr>m_state := READY, m_cb_f := cb, m_ctx := Entry\<rparr>) s))"

section \<open>Context switches\<close>

definition swapcontext :: "bool \<Rightarrow> nat \<Rightarrow> nat \<Rightarrow> 'f fiber_sys \<Rightarrow> fiber_error + 'f fiber_sys" where
  \<comment> \<open>\<^verbatim>\<open>swapcontext(&from->m_ctx, &to->m_ctx)\<close>\<close>
  "swapcontext swap_ok from to s =
     (if \<not> swap_ok then Inl ContextCallFailed
      else Inr ((upd_fiber from (\<lambda>b. b\<lparr>m_ctx := Captured\<rparr>) s)\<lparr>running := Some to\<rparr>))"

definition resume :: "bool \<Rightarrow> nat \<Rightarrow> 'f fiber_sys \<Rightarrow> fiber_error + 'f fiber_sys" where
  "resume swap_ok f s =
     (if m_state (fibers s f) \<noteq> READY then Inl AssertFailed
      else
        (let s1 = upd_fiber f (\<lambda>b. b\<lparr>m_state := RUNNING\<rparr>) s
         in if m_runInScheduler (fibers s f) then
              (let s2 = SetThis (Some f) s1
               in case t_scheduler_fiber s2 of
                    None \<Rightarrow> Inl NullDereference
                  | Some g \<Rightarrow> swapcontext swap_ok g f s2)
            else
              (let s2 = SetThis (Some f) s1
               in case t_thread_fiber s2 of
                    None \<Rightarrow> Inl NullDereference
                  | Some g \<Rightarrow> swapcontext swap_ok g f s2)))"

definition yield :: "bool \<Rightarrow> nat \<Rightarrow> 'f fiber_sys \<Rightarrow> fiber_error + 'f fiber_sys" where
  "yield swap_ok f s =
     (if \<not> (m_state (fibers s f) = RUNNING \<or> m_state (fibers s f) = TERM_S) then Inl AssertFailed
      else
        (let s1 = (if m_state (fibers s f) \<noteq> TERM_S
                   then upd_fiber f (\<lambda>b. b\<lparr>m_state := READY\<rparr>) s else s)
         in if m_runInScheduler (fibers s f) then
              (let s2 = SetThis (t_scheduler_fiber s1) s1
               in case t_scheduler_fiber s2 of
                    None \<Rightarrow> Inl NullDereference
                  | Some g \<Rightarrow> swapcontext swap_ok f g s2)
            else
              (let s2 = SetThis (t_thread_fiber s1) s1
               in case t_thread_fiber s2 of
                    None \<Rightarrow> Inl NullDereference
                  | Some g \<Rightarrow> swapcontext swap_ok f g s2)))"

text \<open>
  \<^verbatim>\<open>MainFunc\<close> in two parts, before and after the call of the fiber's function: the first
  finds the current fiber and the function to run, the second retires the fiber.
\<close>

definition MainFunc_begin :: "'f fiber_sys \<Rightarrow> fiber_error + (nat \<times> 'f)" where
  "MainFunc_begin s =
     (case GetThis True True s of
        Inl e \<Rightarrow> Inl e
      | Inr (_, cur) \<Rightarrow>
          (case m_cb_f (fibers s cur) of
             None \<Rightarrow> Inl BadFunctionCall
           | Some cb \<Rightarrow> Inr (cur, cb)))"

definition MainFunc_end :: "bool \<Rightarrow> nat \<Rightarrow> 'f fiber_sys \<Rightarrow> fiber_error + 'f fiber_sys" where
  "MainFunc_end swap_ok cur s =
     yield swap_ok cur (upd_fiber cur (\<lambda>b. b\<lparr>m_cb_f := None, m_state := TERM_S\<rparr>) s)"

lemmas fiber_defs [model_defs] =
  thread_start_def SetThis_def SetSchedulerFiber_def GetFiberId_def Fiber_main_def GetThis_def
  Fiber_new_def Fiber_delete_def Fiber_reset_def swapcontext_def resume_def yield_def
  MainFunc_begin_def MainFunc_end_def

section \<open>One thread as a transition system\<close>

text \<open>
  The calls the scheduler and the task code make on one thread.  The main fiber is created
  by the first \<^verbatim>\<open>GetThis\<close>; a scheduler fiber is installed from the main stack; a fiber is
  resumed from the stack that its \<open>m_runInScheduler\<close> names; \<^verbatim>\<open>GetThis()->yield()\<close> and
  \<^verbatim>\<open>MainFunc\<close> act on the running fiber.
\<close>

inductive fiber_start :: "'f fiber_sys \<Rightarrow> bool" where
  "(\<forall>f. m_state (heap f) \<noteq> RUNNING) \<Longrightarrow> (\<forall>f. m_state (heap f) = READY \<longrightarrow> m_ctx (heap f) \<noteq> NoCtx) \<Longrightarrow>
     fiber_start (thread_start heap ids count fresh)"

inductive fiber_step :: "'f fiber_sys \<Rightarrow> 'f fiber_sys \<Rightarrow> bool" where
  fs_GetThis: "GetThis ok junk s = Inr (s', f) \<Longrightarrow> fiber_step s s'"
| fs_new: "Fiber_new ok mok cb sz ris s = Inr (s', f) \<Longrightarrow> fiber_step s s'"
| fs_install: "running s = Some m \<Longrightarrow> t_thread_fiber s = Some m \<Longrightarrow> f < next_fiber s \<Longrightarrow>
     \<not> m_runInScheduler (fibers s f) \<Longrightarrow> fiber_step s (SetSchedulerFiber (Some f) s)"
| fs_reset: "f < next_fiber s \<Longrightarrow> Fiber_reset ok cb f s = Inr s' \<Longrightarrow> fiber_step s s'"
| fs_resume: "f < next_fiber s \<Longrightarrow>
     running s = (if m_runInScheduler (fibers s f) then t_scheduler_fiber s else t_thread_fiber s) \<Longrightarrow>
     resume ok f s = Inr s' \<Longrightarrow> fiber_step s s'"
| fs_yield: "running s = Some f \<Longrightarrow> t_thread_fiber s \<noteq> Some f \<Longrightarrow>
     yield ok f s = Inr s' \<Longrightarrow> fiber_step s s'"
| fs_end: "running s = Some f \<Longrightarrow> t_thread_fiber s \<noteq> Some f \<Longrightarrow>
     MainFunc_end ok f s = Inr s' \<Longrightarrow> fiber_step s s'"

definition waiting_resumer :: "'f fiber_sys \<Rightarrow> nat option \<Rightarrow> nat \<Rightarrow> bool" where
  \<comment> \<open>\<open>g\<close> is a fiber, other than \<open>f\<close>, suspended in the middle of its own execution\<close>
  "waiting_resumer s g f \<longleftrightarrow>
     (\<exists>h. g = Some h \<and> h \<noteq> f \<and> m_state (fibers s h) = RUNNING \<and> m_ctx (fibers s h) = Captured)"

definition fiber_ok :: "'f fiber_sys \<Rightarrow> bool" where
  "fiber_ok s \<longleftrightarrow>
     t_fiber s = running s
     \<and> (running s = None \<longleftrightarrow> t_thread_fiber s = None)
     \<and> (t_thread_fiber s = None \<longleftrightarrow> t_scheduler_fiber s = None)
     \<and> (\<forall>f. running s = Some f \<longrightarrow> m_state (fibers s f) = RUNNING)
     \<and> (\<forall>m. t_thread_fiber s = Some m \<longrightarrow> m_state (fibers s m) = RUNNING \<and> m_ctx (fibers s m) = Captured)
     \<and> (\<forall>f. m_state (fibers s f) = READY \<longrightarrow> m_ctx (fibers s f) \<noteq> NoCtx)
     \<and> (\<forall>f. m_state (fibers s f) = RUNNING \<longrightarrow>
          Some f = running s \<or> waiting_resumer s (Some f) (the (running s)))
     \<and> (\<forall>f. running s = Some f \<longrightarrow> t_thread_fiber s \<noteq> Some f \<longrightarrow>
          waiting_resumer s (if m_runInScheduler (fibers s f) then t_scheduler_fiber s else t_thread_fiber s) f)
     \<and> (\<forall>g. t_scheduler_fiber s = Some g \<longrightarrow> t_thread_fiber s \<noteq> Some g \<longrightarrow>
          \<not> m_runInScheduler (fibers s g))
     \<and> (\<forall>f. (running s = Some f \<or> t_thread_fiber s = Some f \<or> t_scheduler_fiber s = Some f) \<longrightarrow> f < next_fiber s)"

lemma resume_facts:
  assumes "resume ok f s = Inr s'" and "fiber_ok s"
    and "running s = (if m_runInScheduler (fibers s f) then t_scheduler_fiber s else t_thread_fiber s)"
  obtains g where "running s = Some g" and "g \<noteq> f" and "m_state (fibers s f) = READY"
    and "fibers s' = (fibers s)(f := (fibers s f)\<lparr>m_state := RUNNING\<rparr>, g := (fibers s g)\<lparr>m_ctx := Captured\<rparr>)"
    and "running s' = Some f" and "t_fiber s' = Some f"
    and "t_thread_fiber s' = t_thread_fiber s" and "t_scheduler_fiber s' = t_scheduler_fiber s"
    and "next_fiber s' = next_fiber s"
proof -
  have ready: "m_state (fibers s f) = READY" using assms(1) by (auto simp: resume_def split: if_splits)
  obtain g where g: "running s = Some g"
    using assms(1,3) by (auto simp: resume_def SetThis_def upd_fiber_def Let_def split: if_splits option.splits)
  have "g \<noteq> f" using g ready assms(2) by (auto simp: fiber_ok_def)
  then show ?thesis
    using that [of g] assms(1,3) g ready
    by (auto simp: resume_def SetThis_def upd_fiber_def swapcontext_def Let_def split: if_splits option.splits)
qed

lemma yield_facts:
  assumes "yield ok f s = Inr s'" and "running s = Some f"
    and "waiting_resumer s (if m_runInScheduler (fibers s f) then t_scheduler_fiber s else t_thread_fiber s) f"
  obtains g where "g \<noteq> f" and "m_state (fibers s g) = RUNNING" and "m_ctx (fibers s g) = Captured"
    and "Some g = (if m_runInScheduler (fibers s f) then t_scheduler_fiber s else t_thread_fiber s)"
    and "fibers s' = (fibers s)(f := (if m_state (fibers s f) = TERM_S then fibers s f
                                       else (fibers s f)\<lparr>m_state := READY\<rparr>)\<lparr>m_ctx := Captured\<rparr>)"
    and "running s' = Some g" and "t_fiber s' = Some g"
    and "t_thread_fiber s' = t_thread_fiber s" and "t_scheduler_fiber s' = t_scheduler_fiber s"
    and "next_fiber s' = next_fiber s"
proof -
  obtain g where g: "Some g = (if m_runInScheduler (fibers s f) then t_scheduler_fiber s else t_thread_fiber s)"
    "g \<noteq> f" "m_state (fibers s g) = RUNNING" "m_ctx (fibers s g) = Captured"
    using assms(3) by (auto simp: waiting_resumer_def)
  show ?thesis
    using that [of g] assms(1) g
    by (auto simp: yield_def SetThis_def upd_fiber_def swapcontext_def Let_def split: if_splits option.splits)
qed

lemma resume_ok:
  assumes "resume ok f s = Inr s'" and fok: "fiber_ok s" and "f < next_fiber s"
    and r: "running s = (if m_runInScheduler (fibers s f) then t_scheduler_fiber s else t_thread_fiber s)"
  shows "fiber_ok s'"
proof -
  obtain g where "running s = Some g" "g \<noteq> f" "m_state (fibers s f) = READY"
    "fibers s' = (fibers s)(f := (fibers s f)\<lparr>m_state := RUNNING\<rparr>, g := (fibers s g)\<lparr>m_ctx := Captured\<rparr>)"
    "running s' = Some f" "t_fiber s' = Some f" "t_thread_fiber s' = t_thread_fiber s"
    "t_scheduler_fiber s' = t_scheduler_fiber s" "next_fiber s' = next_fiber s"
    using resume_facts [OF assms(1) fok r] by metis
  then show ?thesis
    using fok r assms(3) unfolding fiber_ok_def waiting_resumer_def by (auto split: if_splits)
qed

lemma yield_ok:
  assumes y: "yield ok f s = Inr s'" and run: "running s = Some f"
    and w: "waiting_resumer s (if m_runInScheduler (fibers s f) then t_scheduler_fiber s else t_thread_fiber s) f"
    and thr: "t_thread_fiber s \<noteq> Some f"
    and inv: "t_thread_fiber s = None \<longleftrightarrow> t_scheduler_fiber s = None" "t_thread_fiber s \<noteq> None"
      "\<forall>m. t_thread_fiber s = Some m \<longrightarrow> m_state (fibers s m) = RUNNING \<and> m_ctx (fibers s m) = Captured"
      "\<forall>h. m_state (fibers s h) = READY \<longrightarrow> m_ctx (fibers s h) \<noteq> NoCtx"
      "\<forall>h. m_state (fibers s h) = RUNNING \<longrightarrow> h = f \<or> waiting_resumer s (Some h) f"
      "\<forall>h. (t_thread_fiber s = Some h \<or> t_scheduler_fiber s = Some h) \<longrightarrow> h < next_fiber s"
      "\<forall>g. t_scheduler_fiber s = Some g \<longrightarrow> t_thread_fiber s \<noteq> Some g \<longrightarrow> \<not> m_runInScheduler (fibers s g)"
  shows "fiber_ok s'"
proof -
  obtain g where g: "g \<noteq> f" "m_state (fibers s g) = RUNNING" "m_ctx (fibers s g) = Captured"
    "Some g = (if m_runInScheduler (fibers s f) then t_scheduler_fiber s else t_thread_fiber s)"
    and s': "fibers s' = (fibers s)(f := (if m_state (fibers s f) = TERM_S then fibers s f
                                       else (fibers s f)\<lparr>m_state := READY\<rparr>)\<lparr>m_ctx := Captured\<rparr>)"
    "running s' = Some g" "t_fiber s' = Some g" "t_thread_fiber s' = t_thread_fiber s"
    "t_scheduler_fiber s' = t_scheduler_fiber s" "next_fiber s' = next_fiber s"
    using yield_facts [OF y run w] by metis
  show ?thesis
    using g inv thr run unfolding fiber_ok_def waiting_resumer_def s' by (auto split: if_splits)
qed

lemma fiber_start_ok: "fiber_start s \<Longrightarrow> fiber_ok s"
  by (induction rule: fiber_start.induct) (auto simp: fiber_ok_def thread_start_def)

lemma upd_fiber_sel [simp]:
  "fibers (upd_fiber f h s) = (fibers s)(f := h (fibers s f))"
  "running (upd_fiber f h s) = running s" "t_fiber (upd_fiber f h s) = t_fiber s"
  "t_thread_fiber (upd_fiber f h s) = t_thread_fiber s"
  "t_scheduler_fiber (upd_fiber f h s) = t_scheduler_fiber s"
  "next_fiber (upd_fiber f h s) = next_fiber s"
  by (simp_all add: upd_fiber_def)

lemma waiting_resumer_upd [simp]:
  "waiting_resumer (upd_fiber f h s) g f = waiting_resumer s g f"
  by (auto simp: waiting_resumer_def)

lemma running_waits:
  "fiber_ok s \<Longrightarrow> running s = Some f \<Longrightarrow> t_thread_fiber s \<noteq> Some f \<Longrightarrow>
     waiting_resumer s (if m_runInScheduler (fibers s f) then t_scheduler_fiber s else t_thread_fiber s) f"
  by (simp add: fiber_ok_def)

lemma fiber_ok_fresh:
  \<comment> \<open>a new object on the heap, not yet running\<close>
  assumes ok: "fiber_ok s" and st: "m_state b = READY" "m_ctx b = Entry"
  shows "fiber_ok (s\<lparr>fibers := (fibers s)(next_fiber s := b), next_fiber := Suc (next_fiber s),
                     s_fiber_id := i, s_fiber_count := c\<rparr>)" (is "fiber_ok ?s")
proof -
  have old: "fibers ?s f = fibers s f" if "running s = Some f \<or> t_thread_fiber s = Some f \<or> t_scheduler_fiber s = Some f" for f
    using ok that by (auto simp: fiber_ok_def)
  have w: "waiting_resumer ?s g f" if "waiting_resumer s g f" "g \<noteq> Some (next_fiber s)" for g f
    using that by (auto simp: waiting_resumer_def)
  have "waiting_resumer ?s (if m_runInScheduler (fibers ?s f) then t_scheduler_fiber ?s else t_thread_fiber ?s) f"
    if r: "running s = Some f" "t_thread_fiber s \<noteq> Some f" for f
    using running_waits [OF ok r] old [of f] r ok by (auto simp: fiber_ok_def intro!: w)
  moreover have "Some f = running ?s \<or> waiting_resumer ?s (Some f) (the (running ?s))"
    if "m_state (fibers ?s f) = RUNNING" for f
    using that ok st w by (auto simp: fiber_ok_def split: if_splits)
  moreover have "m_ctx (fibers ?s f) \<noteq> NoCtx" if "m_state (fibers ?s f) = READY" for f
    using that ok st by (auto simp: fiber_ok_def split: if_splits)
  ultimately show ?thesis
    using ok old unfolding fiber_ok_def by (simp add: less_Suc_eq)
qed

lemma fiber_step_ok: "fiber_step s s' \<Longrightarrow> fiber_ok s \<Longrightarrow> fiber_ok s'"
proof (induction rule: fiber_step.induct)
  case (fs_GetThis ok junk s s' f)
  then show ?case
    by (auto simp: GetThis_def Fiber_main_def SetThis_def fiber_ok_def waiting_resumer_def Let_def
        split: option.splits if_splits sum.splits prod.splits)
next
  case (fs_new ok mok cb sz ris s s' f)
  then show ?case
    by (auto simp: Fiber_new_def Let_def intro!: fiber_ok_fresh split: if_splits)
next
  case (fs_install s m f)
  then show ?case by (auto simp: SetSchedulerFiber_def fiber_ok_def waiting_resumer_def)
next
  case (fs_reset f s ok cb s')
  then show ?case
    by (auto simp: Fiber_reset_def upd_fiber_def fiber_ok_def waiting_resumer_def split: if_splits)
next
  case (fs_resume f s ok s')
  then show ?case by (blast intro: resume_ok)
next
  case (fs_yield s f ok s')
  show ?case
    using fs_yield.prems
    by (intro yield_ok [OF fs_yield.hyps(3,1) running_waits [OF fs_yield.prems fs_yield.hyps(1,2)] fs_yield.hyps(2)])
       (auto simp: fiber_ok_def fs_yield.hyps(1))
next
  case (fs_end s f ok s')
  let ?s = "upd_fiber f (\<lambda>b. b\<lparr>m_cb_f := None, m_state := TERM_S\<rparr>) s"
  have y: "yield ok f ?s = Inr s'" using fs_end.hyps(3) by (simp add: MainFunc_end_def)
  have w: "waiting_resumer ?s (if m_runInScheduler (fibers ?s f) then t_scheduler_fiber ?s else t_thread_fiber ?s) f"
    using running_waits [OF fs_end.prems fs_end.hyps(1,2)] by (simp split: if_splits)
  show ?case
    using fs_end.prems fs_end.hyps(1,2)
    by (intro yield_ok [OF y _ w]) (auto simp: fiber_ok_def waiting_resumer_def)
qed

interpretation fb: invariant_system fiber_start fiber_step fiber_ok
  by unfold_locales (auto intro: fiber_start_ok fiber_step_ok)

section \<open>Properties\<close>

text \<open>
  C30: on a thread that follows the discipline above, \<open>Fiber::GetThis()->yield()\<close> from a
  fiber other than the main one never fails an assertion or dereferences a null pointer:
  it hands the thread to a fiber that is in the middle of its own execution, and leaves
  \<open>t_fiber\<close> pointing at the fiber that now runs.
\<close>

theorem yield_never_asserts:
  assumes "fiber_start s0" and "fiber_step\<^sup>*\<^sup>* s0 s" and "running s = Some f" and "t_thread_fiber s \<noteq> Some f"
  shows "\<exists>s' g. yield True f s = Inr s' \<and> running s' = Some g \<and> t_fiber s' = Some g \<and> g \<noteq> f
           \<and> m_state (fibers s' g) = RUNNING \<and> m_ctx (fibers s' g) = Captured
           \<and> m_state (fibers s' f) = READY"
proof -
  have ok: "fiber_ok s" by (rule fb.reachable_inv [OF assms(1,2)])
  have run: "m_state (fibers s f) = RUNNING" using ok assms(3) by (simp add: fiber_ok_def)
  obtain g where "g \<noteq> f" "m_state (fibers s g) = RUNNING" "m_ctx (fibers s g) = Captured"
    "(if m_runInScheduler (fibers s f) then t_scheduler_fiber s else t_thread_fiber s) = Some g"
    using running_waits [OF ok assms(3,4)] by (auto simp: waiting_resumer_def)
  then show ?thesis
    using run by (auto simp: yield_def SetThis_def upd_fiber_def swapcontext_def Let_def split: if_splits)
qed

definition demo_heap :: "nat \<Rightarrow> nat fiber" where
  "demo_heap = (\<lambda>_. \<lparr>m_id = 0, m_stacksize = 0, m_state = TERM_S, m_ctx = NoCtx, m_stack = False,
                    m_cb_f = None, m_runInScheduler = True\<rparr>)"

definition demo_thread :: "nat fiber_sys" where
  \<comment> \<open>a thread whose main fiber (0) has created and resumed a task fiber (1)\<close>
  "demo_thread =
     (case GetThis True False (thread_start demo_heap 0 0 0) of
        Inr (s1, _) \<Rightarrow>
          (case Fiber_new True True (Some 9) 0 True s1 of
             Inr (s2, f) \<Rightarrow> (case resume True f s2 of Inr s3 \<Rightarrow> s3 | Inl _ \<Rightarrow> s2)
           | Inl _ \<Rightarrow> s1)
      | Inl _ \<Rightarrow> thread_start demo_heap 0 0 0)"

lemma demo_thread_reachable: "fiber_step\<^sup>*\<^sup>* (thread_start demo_heap 0 0 0) demo_thread"
proof -
  let ?s0 = "thread_start demo_heap 0 0 0"
  obtain s1 m where s1: "GetThis True False ?s0 = Inr (s1, m)"
    by (simp add: GetThis_def Fiber_main_def thread_start_def SetThis_def Let_def)
  then have s1f: "s1 = ?s0\<lparr>fibers := demo_heap(0 := \<lparr>m_id = 0, m_stacksize = 0, m_state = RUNNING,
      m_ctx = Captured, m_stack = False, m_cb_f = None, m_runInScheduler = False\<rparr>), next_fiber := 1,
      s_fiber_id := 1, s_fiber_count := 1, t_fiber := Some 0, t_thread_fiber := Some 0,
      t_scheduler_fiber := Some 0, running := Some 0\<rparr>"
    by (auto simp: GetThis_def Fiber_main_def thread_start_def SetThis_def Let_def)
  obtain s2 f where s2: "Fiber_new True True (Some 9) 0 True s1 = Inr (s2, f)"
    by (simp add: Fiber_new_def Let_def)
  obtain s3 where s3: "resume True f s2 = Inr s3"
    using s2 s1f by (auto simp: Fiber_new_def resume_def SetThis_def upd_fiber_def swapcontext_def Let_def)
  have "fiber_step ?s0 s1" by (rule fs_GetThis [OF s1])
  moreover have "fiber_step s1 s2" by (rule fs_new [OF s2])
  moreover have "fiber_step s2 s3"
    using s2 s1f by (intro fs_resume [OF _ _ s3]) (auto simp: Fiber_new_def Let_def)
  moreover have "demo_thread = s3" using s1 s2 s3 by (simp add: demo_thread_def)
  ultimately show ?thesis by (meson converse_rtranclp_into_rtranclp rtranclp.rtrancl_refl)
qed

lemma demo_thread_facts:
  "running demo_thread = Some 1" "t_thread_fiber demo_thread = Some 0"
  by (simp_all add: demo_thread_def GetThis_def Fiber_main_def thread_start_def SetThis_def Fiber_new_def
      resume_def upd_fiber_def swapcontext_def Let_def)

theorem yield_never_asserts_witness:
  "\<exists>s' g. yield True 1 demo_thread = Inr s' \<and> running s' = Some g \<and> m_state (fibers s' 1) = READY"
  using yield_never_asserts [OF fiber_start.intros [of demo_heap] demo_thread_reachable, of 1]
  by (auto simp: demo_thread_facts demo_heap_def)

text \<open>
  C29: resuming a ready task fiber from the scheduler fiber and the fiber's next \<open>yield\<close> are
  a round trip: control, \<open>t_fiber\<close> and the scheduler pointers are back where they were, the
  task fiber is \<open>READY\<close> again, and no other fiber changed (the two contexts involved were
  saved).
\<close>

theorem resume_yield_roundtrip:
  assumes "fiber_ok s" and "running s = Some g" and "t_scheduler_fiber s = Some g"
    and "m_runInScheduler (fibers s f)" and "m_state (fibers s f) = READY"
  shows "\<exists>s1 s2. resume True f s = Inr s1 \<and> running s1 = Some f \<and> t_fiber s1 = Some f
           \<and> m_state (fibers s1 f) = RUNNING \<and> yield True f s1 = Inr s2
           \<and> running s2 = Some g \<and> t_fiber s2 = Some g
           \<and> t_scheduler_fiber s2 = Some g \<and> t_thread_fiber s2 = t_thread_fiber s
           \<and> fibers s2 = (fibers s)(f := (fibers s f)\<lparr>m_ctx := Captured\<rparr>, g := (fibers s g)\<lparr>m_ctx := Captured\<rparr>)"
proof -
  have fg: "f \<noteq> g" using assms(1,2,5) by (auto simp: fiber_ok_def)
  have rs: "(fibers s f)\<lparr>m_state := READY, m_ctx := Captured\<rparr> = (fibers s f)\<lparr>m_ctx := Captured\<rparr>"
    using assms(5) by (simp add: fiber.equality)
  show ?thesis
    using assms(2-5) fg rs
    by (auto simp: resume_def yield_def SetThis_def upd_fiber_def swapcontext_def Let_def fun_eq_iff)
qed

text \<open>
  C28: a fiber that is not \<open>READY\<close> cannot be resumed and a fiber cannot be reset before it
  has terminated: both fail their assertion; after \<open>MainFunc\<close> has retired a fiber, \<open>reset\<close>
  makes it \<open>READY\<close> with the new function, to start from the beginning.
\<close>

theorem fiber_lifecycle:
  shows "(m_state (fibers s f) \<noteq> READY \<longleftrightarrow> resume ok f s = Inl AssertFailed)
    \<and> (m_state (fibers s f) \<noteq> TERM_S \<longrightarrow> Fiber_reset ok cb f s = Inl AssertFailed)
    \<and> (MainFunc_end True f s = Inr s' \<longrightarrow> m_stack (fibers s f) \<longrightarrow>
         m_state (fibers s' f) = TERM_S \<and> m_cb_f (fibers s' f) = None
         \<and> (\<exists>s''. Fiber_reset True cb f s' = Inr s'' \<and> m_state (fibers s'' f) = READY
               \<and> m_ctx (fibers s'' f) = Entry \<and> m_cb_f (fibers s'' f) = cb
               \<and> m_id (fibers s'' f) = m_id (fibers s f)))"
  by (auto simp: resume_def Fiber_reset_def MainFunc_end_def yield_def SetThis_def upd_fiber_def
      swapcontext_def Let_def split: if_splits option.splits)

theorem fiber_lifecycle_witness:
  "\<exists>s'. MainFunc_end True 1 (upd_fiber 1 (\<lambda>b. b\<lparr>m_stack := True\<rparr>) demo_thread) = Inr s'
     \<and> m_state (fibers s' 1) = TERM_S
     \<and> (\<exists>s''. Fiber_reset True (Some 4) 1 s' = Inr s'' \<and> m_state (fibers s'' 1) = READY)"
proof -
  let ?s = "upd_fiber 1 (\<lambda>b. b\<lparr>m_stack := True\<rparr>) demo_thread"
  obtain s' where "MainFunc_end True 1 ?s = Inr s'"
    by (simp add: demo_thread_def GetThis_def Fiber_main_def thread_start_def SetThis_def Fiber_new_def
        resume_def upd_fiber_def swapcontext_def Let_def MainFunc_end_def yield_def)
  then show ?thesis
    using fiber_lifecycle [of ?s 1 True "Some 4" s'] by auto
qed

theorem resume_yield_roundtrip_witness:
  "\<exists>s1 s2. resume True 1 (case yield True 1 demo_thread of Inr s \<Rightarrow> s | Inl _ \<Rightarrow> demo_thread) = Inr s1
     \<and> running s1 = Some 1 \<and> yield True 1 s1 = Inr s2 \<and> running s2 = Some 0"
proof -
  have ok: "fiber_ok demo_thread"
    using fb.reachable_inv [OF fiber_start.intros demo_thread_reachable] by (simp add: demo_heap_def)
  obtain s' where y: "yield True 1 demo_thread = Inr s'" and facts: "running s' = Some 0"
    "t_scheduler_fiber s' = Some 0" "m_runInScheduler (fibers s' 1)" "m_state (fibers s' 1) = READY"
    by (simp add: demo_thread_def GetThis_def Fiber_main_def thread_start_def SetThis_def Fiber_new_def
        resume_def upd_fiber_def swapcontext_def Let_def yield_def)
  have "fiber_ok s'"
    by (rule fiber_step_ok [OF fs_yield [OF _ _ y] ok]) (simp_all add: demo_thread_facts)
  then show ?thesis using resume_yield_roundtrip [OF _ facts] y by auto
qed

end
