(* ===== verification/Scheduler.thy ===== *)
theory Scheduler
  imports Prelude "HOL-Library.Multiset"
begin

text \<open>
  \<^verbatim>\<open>CoroutineLibrary/scheduler.h\<close>, \<^verbatim>\<open>scheduler.cpp\<close>: the task queue, the operations that
  put tasks into it and take them out, the loop of a worker thread, and shutdown.

  \<^verbatim>\<open>tickle()\<close> is virtual: the operations report how often they call it and the class that
  overrides it acts on the report.  A fiber is a number, a callback an abstract value.
  Each critical section of \<open>m_mutex\<close> is one function; the worker threads interleave
  between them, which the step relation below makes explicit.
\<close>

section \<open>Data\<close>

record 'cb ScheduleTask =
  fiber :: "nat option"
  cb :: "'cb option"
  thread :: int

definition ScheduleTask_empty :: "'cb ScheduleTask" where
  "ScheduleTask_empty = \<lparr>fiber = None, cb = None, thread = - 1\<rparr>"

definition ScheduleTask_fiber :: "nat option \<Rightarrow> int \<Rightarrow> 'cb ScheduleTask" where
  "ScheduleTask_fiber f thr = ScheduleTask_empty\<lparr>fiber := f, thread := thr\<rparr>"

definition ScheduleTask_cb :: "'cb option \<Rightarrow> int \<Rightarrow> 'cb ScheduleTask" where
  "ScheduleTask_cb f thr = ScheduleTask_empty\<lparr>cb := f, thread := thr\<rparr>"

definition ScheduleTask_fiber_ptr :: "nat option \<Rightarrow> int \<Rightarrow> 'cb ScheduleTask \<times> nat option" where
  \<comment> \<open>the constructor that swaps with the caller's pointer: the second result is what the
    caller's variable holds afterwards\<close>
  "ScheduleTask_fiber_ptr f thr = (ScheduleTask_empty\<lparr>fiber := f, thread := thr\<rparr>, None)"

definition ScheduleTask_cb_ptr :: "'cb option \<Rightarrow> int \<Rightarrow> 'cb ScheduleTask \<times> 'cb option" where
  "ScheduleTask_cb_ptr f thr = (ScheduleTask_empty\<lparr>cb := f, thread := thr\<rparr>, None)"

definition ScheduleTask_reset :: "'cb ScheduleTask \<Rightarrow> 'cb ScheduleTask" where
  "ScheduleTask_reset t = t\<lparr>fiber := None, cb := None, thread := - 1\<rparr>"

record 'cb scheduler =
  m_name :: string
  m_threads :: "int list"        \<comment> \<open>the pool, as the ids of its threads\<close>
  m_tasks :: "'cb ScheduleTask list"
  m_threadIds :: "int list"
  m_threadCount :: nat
  m_activeThreadCount :: nat
  m_idleThreadCount :: nat
  m_useCaller :: bool
  m_schedulerFiber :: "nat option"
  m_rootThread :: int
  m_stopping :: bool

datatype sched_error = SchedAssertFailed

section \<open>Construction, start\<close>

definition Scheduler_new ::
    "nat \<Rightarrow> bool \<Rightarrow> string \<Rightarrow> int \<Rightarrow> nat \<Rightarrow> sched_error + 'cb scheduler" where
  \<comment> \<open>\<open>tid\<close>: the constructing thread; \<open>sched_fiber\<close>: the fiber made for \<^verbatim>\<open>Scheduler::run\<close>,
    which \<^verbatim>\<open>Fiber::SetSchedulerFiber\<close> installs\<close>
  "Scheduler_new threads use_caller name tid sched_fiber =
     (if \<not> (threads > 0) then Inl SchedAssertFailed
      else
        (let s = \<lparr>m_name = name, m_threads = [], m_tasks = [], m_threadIds = [],
                  m_threadCount = 0, m_activeThreadCount = 0, m_idleThreadCount = 0,
                  m_useCaller = use_caller, m_schedulerFiber = None, m_rootThread = - 1,
                  m_stopping = False\<rparr>
         in if use_caller then
              Inr (s\<lparr>m_schedulerFiber := Some sched_fiber, m_rootThread := tid,
                     m_threadIds := m_threadIds s @ [tid], m_threadCount := threads - 1\<rparr>)
            else Inr (s\<lparr>m_threadCount := threads\<rparr>)))"

fun start_threads :: "nat \<Rightarrow> nat \<Rightarrow> (nat \<Rightarrow> int) \<Rightarrow> 'cb scheduler \<Rightarrow> 'cb scheduler" where
  \<comment> \<open>the loop of \<open>start\<close> from index \<open>i\<close>, \<open>n\<close> rounds to go; \<open>new_tid i\<close> is the id of the thread
    named \<open>m_name_i\<close>\<close>
  "start_threads 0 i new_tid s = s"
| "start_threads (Suc n) i new_tid s =
     start_threads n (Suc i) new_tid
       (s\<lparr>m_threads := m_threads s @ [new_tid i], m_threadIds := m_threadIds s @ [new_tid i]\<rparr>)"

definition Scheduler_start :: "(nat \<Rightarrow> int) \<Rightarrow> 'cb scheduler \<Rightarrow> sched_error + 'cb scheduler" where
  "Scheduler_start new_tid s =
     (if m_stopping s then Inr s
      else if m_threads s \<noteq> [] then Inl SchedAssertFailed
      else Inr (start_threads (m_threadCount s) 0 new_tid s))"

section \<open>The queue\<close>

definition scheduleLock :: "'cb ScheduleTask \<Rightarrow> 'cb scheduler \<Rightarrow> 'cb scheduler \<times> bool" where
  \<comment> \<open>the flag: \<open>tickle\<close> is called\<close>
  "scheduleLock task s =
     (let need_tickle = (m_tasks s = []);
          s' = (if fiber task \<noteq> None \<or> cb task \<noteq> None
                then s\<lparr>m_tasks := m_tasks s @ [task]\<rparr> else s)
      in (s', need_tickle))"

fun fetch_loop ::
    "int \<Rightarrow> 'cb ScheduleTask list \<Rightarrow> bool \<Rightarrow> 'cb ScheduleTask list
     \<Rightarrow> sched_error + ('cb ScheduleTask option \<times> 'cb ScheduleTask list \<times> bool)" where
  \<comment> \<open>the traversal of \<open>run\<close>: \<open>skipped\<close> is the part of the queue before the iterator\<close>
  "fetch_loop thread_id skipped tickle_me [] = Inr (None, skipped, tickle_me)"
| "fetch_loop thread_id skipped tickle_me (it # rest) =
     (if thread it \<noteq> - 1 \<and> thread it \<noteq> thread_id
      then fetch_loop thread_id (skipped @ [it]) True rest
      else if \<not> (fiber it \<noteq> None \<or> cb it \<noteq> None) then Inl SchedAssertFailed
      else Inr (Some it, skipped @ rest, tickle_me \<or> rest \<noteq> []))"

definition fetch :: "int \<Rightarrow> 'cb scheduler \<Rightarrow> sched_error + ('cb ScheduleTask option \<times> 'cb scheduler \<times> bool)" where
  \<comment> \<open>the locked part of one round of \<open>run\<close>: the task taken, and whether to \<open>tickle\<close>\<close>
  "fetch thread_id s =
     (case fetch_loop thread_id [] False (m_tasks s) of
        Inl e \<Rightarrow> Inl e
      | Inr (task, rest, tickle_me) \<Rightarrow>
          (case task of
             None \<Rightarrow> Inr (None, s, tickle_me)
           | Some t \<Rightarrow> Inr (Some t, s\<lparr>m_tasks := rest,
                                     m_activeThreadCount := m_activeThreadCount s + 1\<rparr>, tickle_me)))"

section \<open>Shutdown\<close>

definition stopping :: "'cb scheduler \<Rightarrow> bool" where
  "stopping s \<longleftrightarrow> m_stopping s \<and> m_tasks s = [] \<and> m_activeThreadCount s = 0"

definition Scheduler_stop :: "bool \<Rightarrow> bool \<Rightarrow> 'cb scheduler \<Rightarrow> sched_error + ('cb scheduler \<times> nat \<times> bool)" where
  \<comment> \<open>the part before the joins; \<open>is_stopping\<close>: the result of the virtual \<open>stopping()\<close>; \<open>self\<close>:
    \<open>GetThis() == this\<close>.  Results: how often \<open>tickle\<close> is called and whether the caller goes on
    to resume the scheduler fiber\<close>
  "Scheduler_stop is_stopping self s =
     (if is_stopping then Inr (s, 0, False)
      else
        (let s1 = s\<lparr>m_stopping := True\<rparr>
         in if m_useCaller s1 \<noteq> self then Inl SchedAssertFailed
            else Inr (s1, m_threadCount s1 + (if m_schedulerFiber s1 \<noteq> None then 1 else 0),
                      m_schedulerFiber s1 \<noteq> None)))"

definition Scheduler_join :: "'cb scheduler \<Rightarrow> 'cb scheduler \<times> int list" where
  \<comment> \<open>the swap of the pool out of the scheduler: the threads that are then joined\<close>
  "Scheduler_join s = (s\<lparr>m_threads := []\<rparr>, m_threads s)"

definition Scheduler_SetThis :: "nat \<Rightarrow> nat option \<Rightarrow> nat option" where
  \<comment> \<open>the thread-local \<^verbatim>\<open>t_scheduler\<close>, a scheduler by its number\<close>
  "Scheduler_SetThis me t_scheduler = Some me"

definition Scheduler_destroy :: "bool \<Rightarrow> nat \<Rightarrow> nat option \<Rightarrow> sched_error + nat option" where
  "Scheduler_destroy is_stopping me t_scheduler =
     (if \<not> is_stopping then Inl SchedAssertFailed
      else Inr (if t_scheduler = Some me then None else t_scheduler))"

lemmas sched_defs [model_defs] =
  ScheduleTask_empty_def ScheduleTask_fiber_def ScheduleTask_cb_def ScheduleTask_fiber_ptr_def
  ScheduleTask_cb_ptr_def ScheduleTask_reset_def Scheduler_new_def Scheduler_start_def
  scheduleLock_def fetch_def stopping_def Scheduler_stop_def Scheduler_join_def

section \<open>The worker threads\<close>

text \<open>
  Where a thread is in \<^verbatim>\<open>Scheduler::run\<close>: at the head of the loop, with a task in hand,
  inside \<^verbatim>\<open>resume()\<close> of the task's fiber (whose mutex it then holds), inside the idle
  fiber, or out of the loop.
\<close>

datatype 'cb worker =
    AtLoop
  | Taken "'cb ScheduleTask"
  | Resumed "'cb ScheduleTask"
  | InIdle
  | Ended

record 'cb pool =
  sched :: "'cb scheduler"
  workers :: "int \<Rightarrow> 'cb worker"
  idle_term :: "int \<Rightarrow> bool"              \<comment> \<open>the thread's idle fiber has terminated\<close>
  fiber_mutex :: "nat \<Rightarrow> int option"       \<comment> \<open>the thread that holds the fiber's \<open>m_mutex\<close>\<close>
  submitted :: "'cb ScheduleTask multiset"  \<comment> \<open>every task \<open>scheduleLock\<close> has pushed\<close>
  finished :: "'cb ScheduleTask multiset"   \<comment> \<open>every task a worker has finished with\<close>

definition pool_new :: "'cb scheduler \<Rightarrow> 'cb pool" where
  "pool_new s =
     \<lparr>sched = s, workers = (\<lambda>_. AtLoop), idle_term = (\<lambda>_. False), fiber_mutex = (\<lambda>_. None),
      submitted = mset (m_tasks s), finished = {#}\<rparr>"

definition run_fetch :: "int \<Rightarrow> 'cb pool \<Rightarrow> sched_error + 'cb pool" where
  \<comment> \<open>from the head of the loop to the choice of a branch\<close>
  "run_fetch tid p =
     (case fetch tid (sched p) of
        Inl e \<Rightarrow> Inl e
      | Inr (Some t, s', _) \<Rightarrow> Inr (p\<lparr>sched := s', workers := (workers p)(tid := Taken t)\<rparr>)
      | Inr (None, s', _) \<Rightarrow>
          (if idle_term p tid then Inr (p\<lparr>sched := s', workers := (workers p)(tid := Ended)\<rparr>)
           else Inr (p\<lparr>sched := s'\<lparr>m_idleThreadCount := m_idleThreadCount s' + 1\<rparr>,
                       workers := (workers p)(tid := InIdle)\<rparr>)))"

definition run_resume :: "int \<Rightarrow> 'cb ScheduleTask \<Rightarrow> 'cb pool \<Rightarrow> 'cb pool option" where
  \<comment> \<open>taking the mutex of the task's fiber (\<open>None\<close>: the thread blocks); a callback gets a
    fresh fiber, whose mutex nobody else knows\<close>
  "run_resume tid t p =
     (case fiber t of
        Some f \<Rightarrow> (if fiber_mutex p f = None
                   then Some (p\<lparr>fiber_mutex := (fiber_mutex p)(f := Some tid),
                                workers := (workers p)(tid := Resumed t)\<rparr>)
                   else None)
      | None \<Rightarrow> Some (p\<lparr>workers := (workers p)(tid := Resumed t)\<rparr>))"

definition run_finish :: "int \<Rightarrow> 'cb ScheduleTask \<Rightarrow> 'cb pool \<Rightarrow> 'cb pool" where
  \<comment> \<open>\<open>resume()\<close> came back (or was skipped for a terminated fiber): the mutex is released,
    the counter decremented and the task reset\<close>
  "run_finish tid t p =
     p\<lparr>fiber_mutex := (case fiber t of Some f \<Rightarrow> (fiber_mutex p)(f := None) | None \<Rightarrow> fiber_mutex p),
       sched := (sched p)\<lparr>m_activeThreadCount := m_activeThreadCount (sched p) - 1\<rparr>,
       workers := (workers p)(tid := AtLoop),
       finished := finished p + {#t#}\<rparr>"

definition run_idle_back :: "bool \<Rightarrow> int \<Rightarrow> 'cb pool \<Rightarrow> 'cb pool" where
  \<comment> \<open>the idle fiber yields (\<open>False\<close>) or leaves its loop and terminates (\<open>True\<close>)\<close>
  "run_idle_back term tid p =
     p\<lparr>sched := (sched p)\<lparr>m_idleThreadCount := m_idleThreadCount (sched p) - 1\<rparr>,
       workers := (workers p)(tid := AtLoop),
       idle_term := (if term then (idle_term p)(tid := True) else idle_term p)\<rparr>"

definition pool_submit :: "'cb ScheduleTask \<Rightarrow> 'cb pool \<Rightarrow> 'cb pool" where
  "pool_submit t p =
     p\<lparr>sched := fst (scheduleLock t (sched p)),
       submitted := (if fiber t \<noteq> None \<or> cb t \<noteq> None then submitted p + {#t#} else submitted p)\<rparr>"

inductive pool_step :: "int set \<Rightarrow> 'cb pool \<Rightarrow> 'cb pool \<Rightarrow> bool" for tids where
  ps_submit: "pool_step tids p (pool_submit t p)"
| ps_stop: "pool_step tids p (p\<lparr>sched := (sched p)\<lparr>m_stopping := True\<rparr>\<rparr>)"
| ps_fetch: "tid \<in> tids \<Longrightarrow> workers p tid = AtLoop \<Longrightarrow> run_fetch tid p = Inr p' \<Longrightarrow> pool_step tids p p'"
| ps_resume: "tid \<in> tids \<Longrightarrow> workers p tid = Taken t \<Longrightarrow> run_resume tid t p = Some p' \<Longrightarrow> pool_step tids p p'"
| ps_finish: "tid \<in> tids \<Longrightarrow> workers p tid = Resumed t \<Longrightarrow> pool_step tids p (run_finish tid t p)"
| ps_idle: "tid \<in> tids \<Longrightarrow> workers p tid = InIdle \<Longrightarrow> pool_step tids p (run_idle_back False tid p)"
| ps_idle_exit: "tid \<in> tids \<Longrightarrow> workers p tid = InIdle \<Longrightarrow> stopping (sched p) \<Longrightarrow>
     pool_step tids p (run_idle_back True tid p)"

section \<open>Invariant\<close>

fun in_hand :: "'cb worker \<Rightarrow> 'cb ScheduleTask multiset" where
  "in_hand (Taken t) = {#t#}"
| "in_hand (Resumed t) = {#t#}"
| "in_hand _ = {#}"

fun idling :: "'cb worker \<Rightarrow> nat" where
  "idling InIdle = 1"
| "idling _ = 0"

definition in_flight :: "int set \<Rightarrow> 'cb pool \<Rightarrow> 'cb ScheduleTask multiset" where
  "in_flight tids p = (\<Sum>tid \<in> tids. in_hand (workers p tid))"

definition eligible :: "int \<Rightarrow> 'cb ScheduleTask \<Rightarrow> bool" where
  "eligible tid t \<longleftrightarrow> thread t = - 1 \<or> thread t = tid"

fun worker_ok :: "(nat \<Rightarrow> int option) \<Rightarrow> int \<Rightarrow> 'cb worker \<Rightarrow> bool" where
  "worker_ok mutex tid (Taken t) = eligible tid t"
| "worker_ok mutex tid (Resumed t) =
     (eligible tid t \<and> (case fiber t of None \<Rightarrow> True | Some f \<Rightarrow> mutex f = Some tid))"
| "worker_ok mutex tid _ = True"

definition pool_ok :: "int set \<Rightarrow> 'cb pool \<Rightarrow> bool" where
  "pool_ok tids p \<longleftrightarrow>
     m_activeThreadCount (sched p) = size (in_flight tids p)
     \<and> m_idleThreadCount (sched p) = (\<Sum>tid \<in> tids. idling (workers p tid))
     \<and> submitted p = mset (m_tasks (sched p)) + in_flight tids p + finished p
     \<and> (\<forall>t \<in># submitted p. fiber t \<noteq> None \<or> cb t \<noteq> None)
     \<and> (\<forall>tid. worker_ok (fiber_mutex p) tid (workers p tid))"

lemma eligible_iff: "\<not> (thread t \<noteq> - 1 \<and> thread t \<noteq> tid) \<longleftrightarrow> eligible tid t"
  by (auto simp: eligible_def)

lemma fetch_loop_none:
  "\<forall>t \<in> set ts. \<not> eligible tid t \<Longrightarrow> fetch_loop tid skipped b ts = Inr (None, skipped @ ts, b \<or> ts \<noteq> [])"
  by (induction ts arbitrary: skipped b) (auto simp: eligible_def)

lemma fetch_loop_some:
  "\<forall>t \<in> set pre. \<not> eligible tid t \<Longrightarrow> eligible tid t \<Longrightarrow> fiber t \<noteq> None \<or> cb t \<noteq> None \<Longrightarrow>
     fetch_loop tid skipped b (pre @ t # rest) = Inr (Some t, skipped @ pre @ rest, b \<or> pre @ rest \<noteq> [])"
  by (induction pre arbitrary: skipped b) (auto simp: eligible_def)

lemma fetch_none: "\<forall>t \<in> set (m_tasks s). \<not> eligible tid t \<Longrightarrow> fetch tid s = Inr (None, s, m_tasks s \<noteq> [])"
  by (simp add: fetch_def fetch_loop_none)

lemma fetch_some:
  "m_tasks s = pre @ t # rest \<Longrightarrow> \<forall>t \<in> set pre. \<not> eligible tid t \<Longrightarrow> eligible tid t \<Longrightarrow>
     fiber t \<noteq> None \<or> cb t \<noteq> None \<Longrightarrow>
     fetch tid s = Inr (Some t, s\<lparr>m_tasks := pre @ rest, m_activeThreadCount := m_activeThreadCount s + 1\<rparr>,
                        pre @ rest \<noteq> [])"
  using fetch_loop_some [of pre tid t "[]" False rest] by (simp add: fetch_def)

lemma fetch_cases:
  assumes "\<forall>t \<in> set (m_tasks s). fiber t \<noteq> None \<or> cb t \<noteq> None"
  obtains (none) "\<forall>t \<in> set (m_tasks s). \<not> eligible tid t" "fetch tid s = Inr (None, s, m_tasks s \<noteq> [])"
  | (some) pre t rest where "m_tasks s = pre @ t # rest" "\<forall>t \<in> set pre. \<not> eligible tid t" "eligible tid t"
      "fetch tid s = Inr (Some t, s\<lparr>m_tasks := pre @ rest, m_activeThreadCount := m_activeThreadCount s + 1\<rparr>,
                          pre @ rest \<noteq> [])"
proof (cases "\<forall>t \<in> set (m_tasks s). \<not> eligible tid t")
  case True
  then show ?thesis using none fetch_none by blast
next
  case False
  then obtain pre t rest where ts: "m_tasks s = pre @ t # rest" "eligible tid t" "\<forall>t \<in> set pre. \<not> eligible tid t"
    using split_list_first_propE [of "m_tasks s" "eligible tid"] by metis
  then have "fiber t \<noteq> None \<or> cb t \<noteq> None" using assms by simp
  then show ?thesis using some [OF ts(1,3,2)] fetch_some [OF ts(1,3,2)] by blast
qed

lemma in_flight_upd:
  assumes "finite tids" and "tid \<in> tids"
  shows "(\<Sum>i \<in> tids. in_hand (((workers p)(tid := w)) i)) + in_hand (workers p tid) = in_flight tids p + in_hand w"
  unfolding in_flight_def by (rule sum_fun_upd [OF assms])

lemma idling_upd:
  assumes "finite tids" and "tid \<in> tids"
  shows "(\<Sum>i \<in> tids. idling (((workers p)(tid := w)) i)) + idling (workers p tid)
       = (\<Sum>i \<in> tids. idling (workers p i)) + idling w"
  by (rule sum_fun_upd [OF assms])

lemma pool_queue_nonnull:
  "pool_ok tids p \<Longrightarrow> \<forall>t \<in> set (m_tasks (sched p)). fiber t \<noteq> None \<or> cb t \<noteq> None"
  by (auto simp: pool_ok_def)

lemma run_fetch_ok:
  assumes fin: "finite tids" and tid: "tid \<in> tids" and at: "workers p tid = AtLoop"
    and ok: "pool_ok tids p" and r: "run_fetch tid p = Inr p'"
  shows "pool_ok tids p'"
proof (rule fetch_cases [OF pool_queue_nonnull [OF ok], of tid])
  assume "fetch tid (sched p) = Inr (None, sched p, m_tasks (sched p) \<noteq> [])"
  then have p': "p' = (if idle_term p tid then p\<lparr>workers := (workers p)(tid := Ended)\<rparr>
      else p\<lparr>sched := (sched p)\<lparr>m_idleThreadCount := m_idleThreadCount (sched p) + 1\<rparr>,
             workers := (workers p)(tid := InIdle)\<rparr>)"
    using r by (auto simp: run_fetch_def split: if_splits)
  have "in_flight tids p' = in_flight tids p"
    using in_flight_upd [OF fin tid, of p Ended] in_flight_upd [OF fin tid, of p InIdle] at p'
    by (auto simp: in_flight_def)
  moreover have "(\<Sum>i \<in> tids. idling (workers p' i)) =
      (\<Sum>i \<in> tids. idling (workers p i)) + (if idle_term p tid then 0 else 1)"
    using idling_upd [OF fin tid, of p Ended] idling_upd [OF fin tid, of p InIdle] at p' by auto
  ultimately show ?thesis
    using ok at p' unfolding pool_ok_def by (auto split: if_splits)
next
  fix pre t rest
  assume ts: "m_tasks (sched p) = pre @ t # rest" and nf: "eligible tid t"
    and f: "fetch tid (sched p) = Inr (Some t, (sched p)\<lparr>m_tasks := pre @ rest,
             m_activeThreadCount := m_activeThreadCount (sched p) + 1\<rparr>, pre @ rest \<noteq> [])"
  have p': "p' = p\<lparr>sched := (sched p)\<lparr>m_tasks := pre @ rest,
             m_activeThreadCount := m_activeThreadCount (sched p) + 1\<rparr>, workers := (workers p)(tid := Taken t)\<rparr>"
    using r f by (simp add: run_fetch_def)
  have "in_flight tids p' = in_flight tids p + {#t#}"
    using in_flight_upd [OF fin tid, of p "Taken t"] at p' by (simp add: in_flight_def)
  moreover have "(\<Sum>i \<in> tids. idling (workers p' i)) = (\<Sum>i \<in> tids. idling (workers p i))"
    using idling_upd [OF fin tid, of p "Taken t"] at p' by simp
  ultimately show ?thesis
    using ok ts nf unfolding pool_ok_def by (auto simp: p')
qed

lemma run_resume_ok:
  assumes fin: "finite tids" and tid: "tid \<in> tids" and at: "workers p tid = Taken t"
    and ok: "pool_ok tids p" and r: "run_resume tid t p = Some p'"
  shows "pool_ok tids p'"
proof -
  have "in_flight tids p' = in_flight tids p"
    using in_flight_upd [OF fin tid, of p "Resumed t"] at r
    by (auto simp: in_flight_def run_resume_def split: option.splits if_splits)
  moreover have "(\<Sum>i \<in> tids. idling (workers p' i)) = (\<Sum>i \<in> tids. idling (workers p i))"
    using idling_upd [OF fin tid, of p "Resumed t"] at r
    by (auto simp: run_resume_def split: option.splits if_splits)
  moreover have "worker_ok (fiber_mutex p') i (workers p' i)" for i
  proof -
    have "worker_ok (fiber_mutex p) i (workers p i)" "worker_ok (fiber_mutex p) tid (Taken t)"
      using ok at unfolding pool_ok_def by metis+
    then show ?thesis
      using r by (cases "workers p i") (auto simp: run_resume_def split: option.splits if_splits)
  qed
  moreover have "sched p' = sched p" "submitted p' = submitted p" "finished p' = finished p"
    using r by (auto simp: run_resume_def split: option.splits if_splits)
  ultimately show ?thesis using ok unfolding pool_ok_def by simp
qed

lemma run_finish_ok:
  assumes fin: "finite tids" and tid: "tid \<in> tids" and at: "workers p tid = Resumed t" and ok: "pool_ok tids p"
  shows "pool_ok tids (run_finish tid t p)"
proof -
  let ?p = "run_finish tid t p"
  have fl: "in_flight tids ?p + {#t#} = in_flight tids p"
    using in_flight_upd [OF fin tid, of p AtLoop] at by (simp add: in_flight_def run_finish_def)
  then have "size (in_flight tids ?p) + 1 = size (in_flight tids p)"
    by (metis size_union size_single)
  moreover have "(\<Sum>i \<in> tids. idling (workers ?p i)) = (\<Sum>i \<in> tids. idling (workers p i))"
    using idling_upd [OF fin tid, of p AtLoop] at by (simp add: run_finish_def)
  moreover have "submitted p = mset (m_tasks (sched p)) + in_flight tids ?p + (finished p + {#t#})"
    using ok fl by (simp add: pool_ok_def ac_simps)
  moreover have "worker_ok (fiber_mutex ?p) i (workers ?p i)" for i
  proof -
    have "worker_ok (fiber_mutex p) i (workers p i)" "worker_ok (fiber_mutex p) tid (Resumed t)"
      using ok at unfolding pool_ok_def by metis+
    then show ?thesis
      by (cases "workers p i") (auto simp: run_finish_def split: option.splits)
  qed
  ultimately show ?thesis
    using ok unfolding pool_ok_def by (simp add: run_finish_def)
qed

lemma run_idle_back_ok:
  assumes fin: "finite tids" and tid: "tid \<in> tids" and at: "workers p tid = InIdle" and ok: "pool_ok tids p"
  shows "pool_ok tids (run_idle_back b tid p)"
proof -
  have "in_flight tids (run_idle_back b tid p) = in_flight tids p"
    using in_flight_upd [OF fin tid, of p AtLoop] at by (simp add: in_flight_def run_idle_back_def)
  moreover have "(\<Sum>i \<in> tids. idling (workers (run_idle_back b tid p) i)) + 1 = (\<Sum>i \<in> tids. idling (workers p i))"
    using idling_upd [OF fin tid, of p AtLoop] at by (simp add: run_idle_back_def)
  ultimately show ?thesis
    using ok at unfolding pool_ok_def by (auto simp: run_idle_back_def)
qed

lemma pool_step_ok:
  assumes "finite tids" and "pool_step tids p p'" and "pool_ok tids p"
  shows "pool_ok tids p'"
  using assms(2,3)
proof (induction rule: pool_step.induct)
  case (ps_submit p t)
  have "in_flight tids (pool_submit t p) = in_flight tids p"
    by (simp add: in_flight_def pool_submit_def)
  then show ?case
    using ps_submit unfolding pool_ok_def
    by (auto simp: pool_submit_def scheduleLock_def Let_def)
next
  case (ps_stop p)
  then show ?case by (simp add: pool_ok_def in_flight_def)
qed (use assms(1) in \<open>auto intro: run_fetch_ok run_resume_ok run_finish_ok run_idle_back_ok\<close>)

inductive pool_start :: "'cb pool \<Rightarrow> bool" where
  "Scheduler_new threads use_caller name tid f = Inr s \<Longrightarrow> Scheduler_start new_tid s = Inr s' \<Longrightarrow>
     pool_start (pool_new s')"

lemma start_threads_frame:
  "m_tasks (start_threads n i new_tid s) = m_tasks s"
  "m_activeThreadCount (start_threads n i new_tid s) = m_activeThreadCount s"
  "m_idleThreadCount (start_threads n i new_tid s) = m_idleThreadCount s"
  by (induction n i new_tid s rule: start_threads.induct) auto

lemma pool_start_ok: "pool_start p \<Longrightarrow> pool_ok tids p"
  by (induction rule: pool_start.induct)
     (auto simp: pool_ok_def pool_new_def in_flight_def Scheduler_new_def Scheduler_start_def
        start_threads_frame Let_def split: if_splits)

text \<open>One interpretation for every finite set of worker threads.\<close>

definition pool_step_on :: "int set \<Rightarrow> 'cb pool \<Rightarrow> 'cb pool \<Rightarrow> bool" where
  "pool_step_on tids p p' \<longleftrightarrow> finite tids \<and> pool_step tids p p'"

interpretation ps: invariant_system pool_start "pool_step_on tids" "pool_ok tids" for tids
  by unfold_locales (auto simp: pool_step_on_def intro: pool_start_ok pool_step_ok)

section \<open>Properties\<close>

text \<open>
  C3: whatever the interleaving of the worker threads, no task is lost or duplicated:
  every task ever pushed is, exactly once, in the queue, in the hands of one worker, or
  finished; and \<open>m_activeThreadCount\<close> counts the workers that hold one.
\<close>

theorem tasks_conserved:
  assumes "pool_start p0" and "(pool_step_on tids)\<^sup>*\<^sup>* p0 p"
  shows "submitted p = mset (m_tasks (sched p)) + in_flight tids p + finished p
    \<and> m_activeThreadCount (sched p) = size (in_flight tids p)"
  using ps.reachable_inv [OF assms] by (simp add: pool_ok_def)

definition demo_sched :: "nat scheduler" where
  "demo_sched = (case Scheduler_new 2 False ''pool'' 1 0 of Inr s \<Rightarrow> start_threads 2 0 int s | Inl _ \<Rightarrow> undefined)"

definition demo_pool :: "nat pool" where
  "demo_pool = pool_submit (ScheduleTask_fiber (Some 7) 1) (pool_new demo_sched)"

lemma demo_sched_start:
  "Scheduler_new 2 False ''pool'' 1 0 = Inr demo_sched0 \<Longrightarrow> Scheduler_start int demo_sched0 = Inr demo_sched"
  for demo_sched0 :: "nat scheduler"
  by (auto simp: demo_sched_def Scheduler_new_def Scheduler_start_def Let_def numeral_2_eq_2)

lemma demo_pool_start: "pool_start (pool_new demo_sched)"
proof -
  obtain s0 :: "nat scheduler" where s0: "Scheduler_new 2 False ''pool'' 1 0 = Inr s0"
    by (simp add: Scheduler_new_def Let_def)
  show ?thesis by (rule pool_start.intros [OF s0 demo_sched_start [OF s0]])
qed

lemma demo_pool_reachable: "(pool_step_on {0, 1})\<^sup>*\<^sup>* (pool_new demo_sched) demo_pool"
  unfolding demo_pool_def by (rule r_into_rtranclp) (simp add: pool_step_on_def ps_submit)

lemma demo_pool_facts:
  "submitted demo_pool = {# ScheduleTask_fiber (Some 7) 1 #}" "finished demo_pool = {#}"
  "m_tasks (sched demo_pool) = [ScheduleTask_fiber (Some 7) 1]" "m_activeThreadCount (sched demo_pool) = 0"
  "workers demo_pool tid = AtLoop" "\<not> m_stopping (sched demo_pool)" "idle_term demo_pool tid = False"
  "fiber_mutex demo_pool f = None"
  by (simp_all add: demo_pool_def demo_sched_def pool_submit_def pool_new_def scheduleLock_def
      ScheduleTask_fiber_def ScheduleTask_empty_def Scheduler_new_def Let_def numeral_2_eq_2)

theorem tasks_conserved_witness:
  "submitted demo_pool = {# ScheduleTask_fiber (Some 7) 1 #} + in_flight {0, 1} demo_pool + {#}"
  using tasks_conserved [OF demo_pool_start demo_pool_reachable] by (simp add: demo_pool_facts)

text \<open>
  C18: the traversal of the queue takes the first task the thread may run (one with no
  thread preference or with this thread's id), keeps the others in order, and reports a
  \<open>tickle\<close> exactly when other tasks stay behind; the assertion on empty tasks never fails
  in a reachable state.
\<close>

theorem fetch_first_eligible:
  assumes "pool_start p0" and "(pool_step_on tids)\<^sup>*\<^sup>* p0 p"
  shows "case fetch tid (sched p) of
           Inl e \<Rightarrow> False
         | Inr (None, s', tk) \<Rightarrow> s' = sched p \<and> (\<forall>t \<in> set (m_tasks s'). \<not> eligible tid t)
             \<and> tk = (m_tasks s' \<noteq> [])
         | Inr (Some t, s', tk) \<Rightarrow> (\<exists>pre rest. m_tasks (sched p) = pre @ t # rest
             \<and> (\<forall>u \<in> set pre. \<not> eligible tid u) \<and> eligible tid t \<and> m_tasks s' = pre @ rest
             \<and> tk = (pre @ rest \<noteq> []))"
proof -
  have "pool_ok tids p" by (rule ps.reachable_inv [OF assms])
  then show ?thesis
    by (rule fetch_cases [OF pool_queue_nonnull, of tids p tid]) auto
qed

theorem fetch_first_eligible_witness:
  "fetch 1 (sched demo_pool) \<noteq> Inl SchedAssertFailed \<and>
   (case fetch 0 (sched demo_pool) of Inr (None, s', tk) \<Rightarrow> tk | _ \<Rightarrow> False)"
proof -
  have f0: "fetch 0 (sched demo_pool) = Inr (None, sched demo_pool, True)"
    by (simp add: fetch_def demo_pool_facts ScheduleTask_fiber_def ScheduleTask_empty_def)
  show ?thesis
    using fetch_first_eligible [OF demo_pool_start demo_pool_reachable, of 1]
      fetch_first_eligible [OF demo_pool_start demo_pool_reachable, of 0] f0
    by (auto split: sum.splits)
qed


definition demo_running :: "nat pool" where
  "demo_running = (case run_fetch 1 demo_pool of
      Inr p \<Rightarrow> (case run_resume 1 (ScheduleTask_fiber (Some 7) 1) p of Some p' \<Rightarrow> p' | None \<Rightarrow> p)
    | Inl _ \<Rightarrow> demo_pool)"

lemma demo_pool_running: "(pool_step_on {0, 1})\<^sup>*\<^sup>* demo_pool demo_running"
  and demo_running_worker: "workers demo_running 1 = Resumed (ScheduleTask_fiber (Some 7) 1)"
proof -
  obtain p1 where p1: "run_fetch 1 demo_pool = Inr p1" and w1: "workers p1 1 = Taken (ScheduleTask_fiber (Some 7) 1)"
    and m1: "fiber_mutex p1 7 = None"
    by (simp add: run_fetch_def fetch_def demo_pool_facts ScheduleTask_fiber_def ScheduleTask_empty_def)
  obtain p2 where p2: "run_resume 1 (ScheduleTask_fiber (Some 7) 1) p1 = Some p2"
    and w2: "workers p2 1 = Resumed (ScheduleTask_fiber (Some 7) 1)"
    using m1 by (simp add: run_resume_def ScheduleTask_fiber_def)
  have eq: "demo_running = p2" using p1 p2 by (simp add: demo_running_def)
  have "pool_step_on {0, 1} demo_pool p1"
    using ps_fetch [OF _ _ p1, of "{0, 1}"] by (simp add: pool_step_on_def demo_pool_facts)
  moreover have "pool_step_on {0, 1} p1 p2"
    using ps_resume [OF _ w1 p2, of "{0, 1}"] by (simp add: pool_step_on_def)
  ultimately show "(pool_step_on {0, 1})\<^sup>*\<^sup>* demo_pool demo_running"
    using eq by (meson rtranclp.rtrancl_refl rtranclp.rtrancl_into_rtrancl)
  show "workers demo_running 1 = Resumed (ScheduleTask_fiber (Some 7) 1)" using eq w2 by simp
qed

lemma demo_running_reachable: "(pool_step_on {0, 1})\<^sup>*\<^sup>* (pool_new demo_sched) demo_running"
  using demo_pool_reachable demo_pool_running by (rule rtranclp_trans)


text \<open>The idle fibers of the pool, and what an ended one says of the tasks.\<close>

definition none_idle_term :: "'cb pool \<Rightarrow> bool" where
  "none_idle_term p \<longleftrightarrow> (\<forall>tid. \<not> idle_term p tid)"

definition ended_ok :: "'cb ScheduleTask multiset \<Rightarrow> 'cb pool \<Rightarrow> bool" where
  "ended_ok work p \<longleftrightarrow> work \<subseteq># submitted p \<and> (none_idle_term p \<or> work \<subseteq># finished p \<and> m_stopping (sched p))
     \<and> (\<forall>tid. workers p tid = Ended \<longrightarrow> idle_term p tid)"

lemma run_fetch_frame:
  assumes "run_fetch tid p = Inr p'"
  shows "submitted p' = submitted p" "finished p' = finished p" "idle_term p' = idle_term p"
    "m_stopping (sched p') = m_stopping (sched p)"
    "workers p' i = Ended \<Longrightarrow> workers p i = Ended \<or> idle_term p i"
  using assms by (auto simp: run_fetch_def fetch_def split: sum.splits option.splits prod.splits if_splits)

lemma run_resume_frame:
  assumes "run_resume tid t p = Some p'"
  shows "submitted p' = submitted p" "finished p' = finished p" "idle_term p' = idle_term p" "sched p' = sched p"
    "workers p' i = Ended \<Longrightarrow> workers p i = Ended"
  using assms by (auto simp: run_resume_def split: option.splits if_splits)

lemma subseteq_add_mset: "A \<subseteq># B \<Longrightarrow> A \<subseteq># add_mset x B"
  by (metis add_mset_add_single mset_subset_eq_add_left subset_mset.order_trans)

lemma ended_ok_step:
  assumes "pool_step tids p p'" and "pool_ok tids p" and "ended_ok work p"
  shows "ended_ok work p'"
  using assms
proof (cases rule: pool_step.cases)
  case (ps_submit t)
  then show ?thesis using assms(3)
    by (auto simp: ended_ok_def none_idle_term_def pool_submit_def scheduleLock_def Let_def subseteq_add_mset)
next
  case ps_stop
  then show ?thesis using assms(3) by (auto simp: ended_ok_def none_idle_term_def)
next
  case (ps_fetch tid)
  then show ?thesis using assms(3) run_fetch_frame [OF ps_fetch(3)] unfolding ended_ok_def none_idle_term_def by metis
next
  case (ps_resume tid t)
  then show ?thesis using assms(3) run_resume_frame [OF ps_resume(3)] unfolding ended_ok_def none_idle_term_def by metis
next
  case (ps_finish tid t)
  then show ?thesis using assms(3)
    by (auto simp: ended_ok_def none_idle_term_def run_finish_def subseteq_add_mset split: if_splits)
next
  case (ps_idle tid)
  then show ?thesis using assms(3)
    by (auto simp: ended_ok_def none_idle_term_def run_idle_back_def split: if_splits)
next
  case (ps_idle_exit tid)
  then have "submitted p = finished p" "m_stopping (sched p)"
    using assms(2) by (auto simp: pool_ok_def stopping_def)
  then show ?thesis using ps_idle_exit assms(3)
    by (auto simp: ended_ok_def none_idle_term_def run_idle_back_def split: if_splits)
qed

lemma ended_ok_steps:
  assumes "(pool_step_on tids)\<^sup>*\<^sup>* p p'" and "pool_ok tids p" and "ended_ok work p"
  shows "ended_ok work p' \<and> pool_ok tids p'"
  using assms
proof (induction rule: rtranclp_induct)
  case (step y z)
  then have "pool_ok tids z" "ended_ok work z"
    using ended_ok_step [of tids y z work] pool_step_ok [of tids y z] by (auto simp: pool_step_on_def)
  then show ?case by simp
qed simp

lemma pool_start_ended: "pool_start p \<Longrightarrow> none_idle_term p \<and> workers p tid = AtLoop"
  by (auto simp: pool_start.simps pool_new_def none_idle_term_def)


text \<open>Thread 1 runs the task of \<open>demo_pool\<close>; the pool is stopped, and the thread ends.\<close>

definition demo_idle :: "nat pool" where
  "demo_idle = (let p = run_finish 1 (ScheduleTask_fiber (Some 7) 1) demo_running;
                    p1 = p\<lparr>sched := (sched p)\<lparr>m_stopping := True\<rparr>\<rparr>
                in case run_fetch 1 p1 of Inr p2 \<Rightarrow> p2 | Inl _ \<Rightarrow> p1)"

definition demo_ended :: "nat pool" where
  "demo_ended = (case run_fetch 1 (run_idle_back True 1 demo_idle) of Inr p \<Rightarrow> p | Inl _ \<Rightarrow> demo_idle)"

lemma demo_running_facts:
  "m_tasks (sched demo_running) = []" "m_activeThreadCount (sched demo_running) = 1" "idle_term demo_running tid = False"
  by (simp_all add: demo_running_def run_fetch_def fetch_def run_resume_def demo_pool_facts ScheduleTask_fiber_def
      ScheduleTask_empty_def)

lemma run_fetch_empty: "m_tasks (sched p) = [] \<Longrightarrow> run_fetch tid p =
    Inr (if idle_term p tid then p\<lparr>workers := (workers p)(tid := Ended)\<rparr>
         else p\<lparr>sched := (sched p)\<lparr>m_idleThreadCount := m_idleThreadCount (sched p) + 1\<rparr>, workers := (workers p)(tid := InIdle)\<rparr>)"
  by (simp add: run_fetch_def fetch_def)

lemma run_fetch_idle:
  assumes "run_fetch tid p = Inr q" "m_tasks (sched p) = []"
  shows "if idle_term p tid then workers q tid = Ended
    else m_tasks (sched q) = [] \<and> workers q tid = InIdle \<and> stopping (sched q) = stopping (sched p)"
  using assms by (auto simp: run_fetch_empty [OF assms(2)] stopping_def)

lemma demo_ended_reachable:
  "(pool_step_on {0, 1})\<^sup>*\<^sup>* demo_pool demo_ended" "workers demo_ended 1 = Ended"
proof -
  let ?t = "ScheduleTask_fiber (Some 7) 1"
  let ?p1 = "run_finish 1 ?t demo_running"
  let ?p2 = "?p1\<lparr>sched := (sched ?p1)\<lparr>m_stopping := True\<rparr>\<rparr>"
  let ?p4 = "run_idle_back True 1 demo_idle"
  have m2: "m_tasks (sched ?p2) = []" "m_activeThreadCount (sched ?p2) = 0" "workers ?p2 1 = AtLoop" "\<not> idle_term ?p2 1"
    by (simp_all add: run_finish_def demo_running_facts)
  have f3: "run_fetch 1 ?p2 = Inr demo_idle" by (simp add: demo_idle_def Let_def run_fetch_empty [OF m2(1)])
  have m3: "m_tasks (sched demo_idle) = []" "workers demo_idle 1 = InIdle" "stopping (sched demo_idle)"
    using run_fetch_idle [OF f3 m2(1)] m2 by (simp_all add: stopping_def)
  have m4: "m_tasks (sched ?p4) = []" "workers ?p4 1 = AtLoop" "idle_term ?p4 1" using m3 by (simp_all add: run_idle_back_def)
  have f5: "run_fetch 1 ?p4 = Inr demo_ended" by (simp add: demo_ended_def run_fetch_empty [OF m4(1)])
  have "pool_step_on {0, 1} demo_running ?p1"
    by (simp add: pool_step_on_def ps_finish demo_running_worker)
  moreover have "pool_step_on {0, 1} ?p1 ?p2" by (simp only: pool_step_on_def ps_stop finite.intros simp_thms)
  moreover have "pool_step_on {0, 1} ?p2 demo_idle" using ps_fetch [OF _ m2(3) f3, of "{0, 1}"] by (simp add: pool_step_on_def)
  moreover have "pool_step_on {0, 1} demo_idle ?p4" using ps_idle_exit [OF _ m3(2,3), of "{0, 1}"] by (simp add: pool_step_on_def)
  moreover have "pool_step_on {0, 1} ?p4 demo_ended" using ps_fetch [OF _ m4(2) f5, of "{0, 1}"] by (simp add: pool_step_on_def)
  ultimately show "(pool_step_on {0, 1})\<^sup>*\<^sup>* demo_pool demo_ended"
    using demo_pool_running by (meson rtranclp.rtrancl_into_rtrancl)
  show "workers demo_ended 1 = Ended" using run_fetch_idle [OF f5 m4(1)] m4(3) by simp
qed


text \<open>
  The constructor makes its own thread's \<open>GetThis()\<close> answer the new scheduler even when
  the caller is not to be a worker; a scheduler built with \<open>use_caller\<close> false whose pending
  work is not already drained therefore fails the assertion of \<open>stop()\<close> when it is stopped
  on the thread that built it (and nothing rebound the pointer), and passes it on any other.
\<close>

theorem stop_asserts_without_use_caller:
  assumes "Scheduler_new threads False name tid f = Inr s"
  shows "\<not> stopping s \<and> Scheduler_stop (stopping s) True s = Inl SchedAssertFailed
     \<and> Scheduler_stop (stopping s) False s = Inr (s\<lparr>m_stopping := True\<rparr>, threads, False)"
  using assms by (auto simp: Scheduler_new_def Scheduler_stop_def stopping_def Let_def split: if_splits)

theorem stop_asserts_without_use_caller_witness:
  "\<exists>s :: nat scheduler. Scheduler_new 5 False ''IOManager'' 1 0 = Inr s \<and> Scheduler_stop (stopping s) True s = Inl SchedAssertFailed"
proof -
  obtain s :: "nat scheduler" where s: "Scheduler_new 5 False ''IOManager'' 1 0 = Inr s"
    by (simp add: Scheduler_new_def Let_def)
  then show ?thesis using stop_asserts_without_use_caller [OF s] by auto
qed

end
