(* ===== verification/FdTable.thy ===== *)
theory FdTable
  imports Prelude
begin

text \<open>
  The two tables indexed by file descriptor, \<^verbatim>\<open>IOManager::m_fdContexts\<close> and
  \<^verbatim>\<open>FdManager::m_datas\<close>, grow in the same way: when a descriptor lies beyond the end, the
  vector is resized to one and a half times the descriptor.  This theory has the
  \<^verbatim>\<open>std::vector\<close> operation they use and the contract the users of a table rely on.
\<close>

definition vector_resize :: "nat \<Rightarrow> 'a \<Rightarrow> 'a list \<Rightarrow> 'a list" where
  \<comment> \<open>\<^verbatim>\<open>std::vector::resize\<close>: cuts at the end or appends value-initialised elements\<close>
  "vector_resize n d xs = take n xs @ replicate (n - length xs) d"

definition grow_size :: "nat \<Rightarrow> nat" where
  \<comment> \<open>\<^verbatim>\<open>fd * 1.5\<close> converted to \<^verbatim>\<open>size_t\<close>\<close>
  "grow_size fd = fd * 3 div 2"

lemma length_vector_resize [simp]: "length (vector_resize n d xs) = n"
  by (simp add: vector_resize_def)

lemma nth_vector_resize:
  "i < n \<Longrightarrow> vector_resize n d xs ! i = (if i < length xs then xs ! i else d)"
  by (auto simp: vector_resize_def nth_append)

lemma vector_resize_shrink: "n \<le> length xs \<Longrightarrow> vector_resize n d xs = take n xs"
  by (simp add: vector_resize_def)

lemma grow_size_gt: "2 \<le> fd \<Longrightarrow> fd < grow_size fd"
  by (simp add: grow_size_def)

text \<open>
  The contract: \<open>ensure fd\<close> makes \<open>fd\<close> a valid index, and neither moves nor changes the
  entries that are there; a new entry starts as \<open>fresh\<close>.  \<open>ok\<close> is the invariant the
  provider needs.
\<close>

locale growing_table =
  fixes tbl :: "'s \<Rightarrow> 'e list"
    and ensure :: "nat \<Rightarrow> 's \<Rightarrow> 's"
    and fresh :: "nat \<Rightarrow> 'e"
    and ok :: "'s \<Rightarrow> bool"
  assumes ensure_ok: "ok s \<Longrightarrow> ok (ensure fd s)"
    and ensure_covers: "ok s \<Longrightarrow> fd < length (tbl (ensure fd s))"
    and ensure_keeps: "ok s \<Longrightarrow> i < length (tbl s) \<Longrightarrow> tbl (ensure fd s) ! i = tbl s ! i"
    and ensure_new: "ok s \<Longrightarrow> length (tbl s) \<le> i \<Longrightarrow> i < length (tbl (ensure fd s)) \<Longrightarrow> tbl (ensure fd s) ! i = fresh i"
    and ensure_grows: "ok s \<Longrightarrow> length (tbl s) \<le> length (tbl (ensure fd s))"
begin

definition entry :: "'s \<Rightarrow> nat \<Rightarrow> 'e" where
  \<comment> \<open>the table as a total map: an index beyond the end stands for a fresh entry\<close>
  "entry s i = (if i < length (tbl s) then tbl s ! i else fresh i)"

lemma entry_ensure: "ok s \<Longrightarrow> entry (ensure fd s) i = entry s i"
  using ensure_keeps [of s i fd] ensure_new [of s i fd] ensure_grows [of s fd]
  by (auto simp: entry_def)

lemma nth_ensure: "ok s \<Longrightarrow> tbl (ensure fd s) ! fd = entry s fd"
  using entry_ensure [of s fd fd] ensure_covers [of s fd] by (simp add: entry_def)

lemma ensures_ok: "ok s \<Longrightarrow> ok (fold ensure fds s)"
  by (induction fds arbitrary: s) (auto intro: ensure_ok)

lemma entry_ensures: "ok s \<Longrightarrow> entry (fold ensure fds s) i = entry s i"
  by (induction fds arbitrary: s) (simp_all add: entry_ensure ensure_ok)

lemma ensures_grow: "ok s \<Longrightarrow> length (tbl s) \<le> length (tbl (fold ensure fds s))"
  by (induction fds arbitrary: s) (auto intro: ensure_ok order_trans [OF ensure_grows])

lemma ensures_cover: "ok s \<Longrightarrow> fd \<in> set fds \<Longrightarrow> fd < length (tbl (fold ensure fds s))"
proof (induction fds arbitrary: s)
  case Nil
  then show ?case by simp
next
  case (Cons x xs)
  then show ?case
    using ensures_grow [OF ensure_ok [OF Cons.prems(1)], of x xs] ensure_covers [OF Cons.prems(1), of x] ensure_ok
    by fastforce
qed

end

end
