(* ===== verification/FdManager.thy ===== *)
theory FdManager
  imports FdTable
begin

text \<open>
  \<^verbatim>\<open>CoroutineLibrary/fd_manager.h\<close>, \<^verbatim>\<open>fd_manager.cpp\<close>: what the hooks know of each
  descriptor (\<^verbatim>\<open>FdCtx\<close>) and the table of these records (\<^verbatim>\<open>FdManager\<close>).

  A \<^verbatim>\<open>shared_ptr<FdCtx>\<close> is a number into \<open>heap\<close>, so that a holder of the pointer and the
  table share the object.  The two system calls \<open>init\<close> makes are the fields of the record
  \<open>os\<close>, over a kernel state \<open>'k\<close> the model does not look into.
\<close>

section \<open>Data\<close>

unbundle bit_operations_syntax

record fd_ctx =
  m_isInit :: bool
  m_isSocket :: bool
  m_sysNonblock :: bool
  m_userNonblock :: bool
  m_isClosed :: bool
  m_fd :: int
  m_recvTimeout :: u64
  m_sendTimeout :: u64

record 'k os =
  fstat_call :: "int \<Rightarrow> 'k \<Rightarrow> u32 option"                     \<comment> \<open>\<open>st_mode\<close>, or the call fails\<close>
  fcntl_f :: "int \<Rightarrow> int \<Rightarrow> u32 \<Rightarrow> 'k \<Rightarrow> u32 \<times> 'k"

record fd_manager =
  heap :: "nat \<Rightarrow> fd_ctx"
  next_ctx :: nat
  m_datas :: "nat option list"

datatype fd_error = BadIndex   \<comment> \<open>an index the code does not check: undefined behaviour\<close>

definition SO_RCVTIMEO :: int where "SO_RCVTIMEO = 20"
definition SO_SNDTIMEO :: int where "SO_SNDTIMEO = 21"
definition F_GETFL :: int where "F_GETFL = 3"
definition F_SETFL :: int where "F_SETFL = 4"
definition O_NONBLOCK :: u32 where "O_NONBLOCK = 0x800"

definition S_ISSOCK :: "u32 \<Rightarrow> bool" where
  "S_ISSOCK mode \<longleftrightarrow> mode AND 0xF000 = 0xC000"

section \<open>\<open>FdCtx\<close>\<close>

definition FdCtx_fields :: "int \<Rightarrow> fd_ctx" where
  \<comment> \<open>the members before \<open>init\<close>\<close>
  "FdCtx_fields fd =
     \<lparr>m_isInit = False, m_isSocket = False, m_sysNonblock = False, m_userNonblock = False,
      m_isClosed = False, m_fd = fd, m_recvTimeout = - 1, m_sendTimeout = - 1\<rparr>"

definition FdCtx_init :: "'k os \<Rightarrow> fd_ctx \<Rightarrow> 'k \<Rightarrow> bool \<times> fd_ctx \<times> 'k" where
  "FdCtx_init os c k =
     (if m_isInit c then (True, c, k)
      else
        (let c1 = (case fstat_call os (m_fd c) k of
                     None \<Rightarrow> c\<lparr>m_isInit := False, m_isSocket := False\<rparr>
                   | Some mode \<Rightarrow> c\<lparr>m_isInit := True, m_isSocket := S_ISSOCK mode\<rparr>)
         in if m_isSocket c1 then
              (let (flags, k1) = fcntl_f os (m_fd c1) F_GETFL 0 k;
                   k2 = (if flags AND O_NONBLOCK = 0
                         then snd (fcntl_f os (m_fd c1) F_SETFL (flags OR O_NONBLOCK) k1) else k1)
               in (m_isInit c1, c1\<lparr>m_sysNonblock := True\<rparr>, k2))
            else (m_isInit c1, c1\<lparr>m_sysNonblock := False\<rparr>, k)))"

definition FdCtx_new :: "'k os \<Rightarrow> int \<Rightarrow> 'k \<Rightarrow> fd_ctx \<times> 'k" where
  "FdCtx_new os fd k = snd (FdCtx_init os (FdCtx_fields fd) k)"

definition setTimeout :: "int \<Rightarrow> u64 \<Rightarrow> fd_ctx \<Rightarrow> fd_ctx" where
  "setTimeout type v c = (if type = SO_RCVTIMEO then c\<lparr>m_recvTimeout := v\<rparr> else c\<lparr>m_sendTimeout := v\<rparr>)"

definition getTimeout :: "int \<Rightarrow> fd_ctx \<Rightarrow> u64" where
  "getTimeout type c = (if type = SO_RCVTIMEO then m_recvTimeout c else m_sendTimeout c)"

definition setUserNonblock :: "bool \<Rightarrow> fd_ctx \<Rightarrow> fd_ctx" where
  "setUserNonblock v c = c\<lparr>m_userNonblock := v\<rparr>"

section \<open>\<open>FdManager\<close>\<close>

definition FdManager_new :: fd_manager where
  "FdManager_new = \<lparr>heap = FdCtx_fields \<circ> int, next_ctx = 0, m_datas = vector_resize 64 None []\<rparr>"

definition fd_index :: "int \<Rightarrow> nat" where
  \<comment> \<open>an \<^verbatim>\<open>int\<close> compared with a \<^verbatim>\<open>size_t\<close>, or used as an index\<close>
  "fd_index fd = unat (word_of_int fd :: u64)"

definition FdManager_get_read :: "int \<Rightarrow> bool \<Rightarrow> fd_manager \<Rightarrow> nat option option" where
  \<comment> \<open>the part under the read lock: \<open>Some r\<close>, the call returns \<open>r\<close>; \<open>None\<close>, it goes on\<close>
  "FdManager_get_read fd auto_create m =
     (if fd = - 1 then Some None
      else if length (m_datas m) \<le> fd_index fd then (if auto_create = False then Some None else None)
      else if m_datas m ! fd_index fd \<noteq> None \<or> \<not> auto_create then Some (m_datas m ! fd_index fd)
      else None)"

definition fd_ensure :: "nat \<Rightarrow> fd_manager \<Rightarrow> fd_manager" where
  "fd_ensure i m =
     (if length (m_datas m) \<le> i then m\<lparr>m_datas := vector_resize (grow_size i) None (m_datas m)\<rparr> else m)"

definition FdManager_get_write ::
    "'k os \<Rightarrow> int \<Rightarrow> fd_manager \<Rightarrow> 'k \<Rightarrow> fd_error + (nat option \<times> fd_manager \<times> 'k)" where
  \<comment> \<open>the part under the write lock; a negative product converted to \<^verbatim>\<open>size_t\<close> is undefined\<close>
  "FdManager_get_write os fd m k =
     (if fd < 0 then Inl BadIndex
      else
        (let m1 = fd_ensure (fd_index fd) m;
             (c, k') = FdCtx_new os fd k;
             p = next_ctx m1
         in if \<not> fd_index fd < length (m_datas m1) then Inl BadIndex
            else Inr (Some p, m1\<lparr>heap := (heap m1)(p := c), next_ctx := Suc p,
                                 m_datas := (m_datas m1)[fd_index fd := Some p]\<rparr>, k')))"

definition FdManager_get ::
    "'k os \<Rightarrow> int \<Rightarrow> bool \<Rightarrow> fd_manager \<Rightarrow> 'k \<Rightarrow> fd_error + (nat option \<times> fd_manager \<times> 'k)" where
  "FdManager_get os fd auto_create m k =
     (case FdManager_get_read fd auto_create m of
        Some r \<Rightarrow> Inr (r, m, k)
      | None \<Rightarrow> FdManager_get_write os fd m k)"

definition FdManager_del :: "int \<Rightarrow> fd_manager \<Rightarrow> fd_manager" where
  "FdManager_del fd m =
     (if length (m_datas m) \<le> fd_index fd then m else m\<lparr>m_datas := (m_datas m)[fd_index fd := None]\<rparr>)"

definition GetInstance :: "fd_manager option \<Rightarrow> fd_manager option \<times> fd_manager" where
  \<comment> \<open>\<^verbatim>\<open>Singleton<FdManager>\<close>: the static pointer afterwards and the object returned\<close>
  "GetInstance inst = (case inst of None \<Rightarrow> (Some FdManager_new, FdManager_new) | Some m \<Rightarrow> (Some m, m))"

definition DestroyInstance :: "fd_manager option \<Rightarrow> fd_manager option" where
  "DestroyInstance inst = None"

lemmas fdm_defs [model_defs] =
  FdCtx_fields_def FdCtx_new_def setTimeout_def getTimeout_def setUserNonblock_def
  FdManager_get_read_def FdManager_get_write_def FdManager_get_def FdManager_del_def

section \<open>The table\<close>

definition fdm_ok :: "fd_manager \<Rightarrow> bool" where
  "fdm_ok m \<longleftrightarrow> 64 \<le> length (m_datas m)
     \<and> (\<forall>i < length (m_datas m). \<forall>p. m_datas m ! i = Some p \<longrightarrow> p < next_ctx m \<and> m_fd (heap m p) = int i)"

lemma fd_ensure_ok: "fdm_ok m \<Longrightarrow> fdm_ok (fd_ensure i m)"
  by (auto simp: fdm_ok_def fd_ensure_def nth_vector_resize grow_size_def split: if_splits)

interpretation fdt: growing_table m_datas fd_ensure "\<lambda>_. None" fdm_ok
proof unfold_locales
  fix s i fd
  assume ok: "fdm_ok s"
  then have *: "64 \<le> length (m_datas s)" by (simp add: fdm_ok_def)
  show "fd < length (m_datas (fd_ensure fd s))"
    using * by (auto simp: fd_ensure_def grow_size_def)
  show "i < length (m_datas s) \<Longrightarrow> m_datas (fd_ensure fd s) ! i = m_datas s ! i"
    using * by (auto simp: fd_ensure_def nth_vector_resize grow_size_def)
  show "length (m_datas s) \<le> i \<Longrightarrow> i < length (m_datas (fd_ensure fd s)) \<Longrightarrow> m_datas (fd_ensure fd s) ! i = None"
    by (auto simp: fd_ensure_def nth_vector_resize split: if_splits)
  show "length (m_datas s) \<le> length (m_datas (fd_ensure fd s))"
    by (auto simp: fd_ensure_def grow_size_def)
qed (rule fd_ensure_ok)

abbreviation fd_entry :: "fd_manager \<Rightarrow> nat \<Rightarrow> nat option" where
  "fd_entry \<equiv> fdt.entry"

lemma fd_entry_ensure [simp]: "fdm_ok m \<Longrightarrow> fd_entry (fd_ensure i m) j = fd_entry m j"
  by (rule fdt.entry_ensure)

lemma fd_index_nonneg: "0 \<le> fd \<Longrightarrow> fd < 2 ^ 31 \<Longrightarrow> fd_index fd = nat fd"
  by (simp add: fd_index_def unsigned_of_int take_bit_int_eq_self)

lemma FdManager_new_ok: "fdm_ok FdManager_new"
  by (simp add: fdm_ok_def FdManager_new_def nth_vector_resize)

lemma FdManager_new_entry [simp]: "fd_entry FdManager_new j = None"
  by (simp add: fdt.entry_def FdManager_new_def nth_vector_resize)

lemma FdManager_new_next [simp]: "next_ctx FdManager_new = 0"
  by (simp add: FdManager_new_def)

lemma fd_ensure_frame: "heap (fd_ensure i m) = heap m" "next_ctx (fd_ensure i m) = next_ctx m"
  by (simp_all add: fd_ensure_def)

lemma m_fd_FdCtx_new: "m_fd (fst (FdCtx_new os fd k)) = fd"
  by (auto simp: FdCtx_new_def FdCtx_init_def FdCtx_fields_def Let_def split: option.splits prod.splits)

lemma get_write_spec:
  assumes ok: "fdm_ok m" and fd: "0 \<le> fd" "fd < 2 ^ 31"
  obtains m' k' where "FdManager_get_write os fd m k = Inr (Some (next_ctx m), m', k')"
    and "fdm_ok m'" and "fd_entry m' (nat fd) = Some (next_ctx m)"
    and "\<And>j. j \<noteq> nat fd \<Longrightarrow> fd_entry m' j = fd_entry m j"
    and "heap m' = (heap m)(next_ctx m := fst (FdCtx_new os fd k))" and "k' = snd (FdCtx_new os fd k)"
    and "next_ctx m' = Suc (next_ctx m)" and "nat fd < length (m_datas m')"
proof
  let ?m1 = "fd_ensure (nat fd) m"
  let ?m' = "?m1\<lparr>heap := (heap m)(next_ctx m := fst (FdCtx_new os fd k)), next_ctx := Suc (next_ctx m),
                 m_datas := (m_datas ?m1)[nat fd := Some (next_ctx m)]\<rparr>"
  have len: "nat fd < length (m_datas ?m1)" by (rule fdt.ensure_covers [OF ok])
  have ok1: "fdm_ok ?m1" by (rule fd_ensure_ok [OF ok])
  show "FdManager_get_write os fd m k = Inr (Some (next_ctx m), ?m', snd (FdCtx_new os fd k))"
    using fd len by (auto simp: FdManager_get_write_def fd_index_nonneg fd_ensure_frame Let_def split: prod.splits)
  show "fdm_ok ?m'"
    using ok1 fd len by (auto simp: fdm_ok_def nth_list_update fd_ensure_frame m_fd_FdCtx_new less_Suc_eq)
  show "fd_entry ?m' (nat fd) = Some (next_ctx m)" using len by (simp add: fdt.entry_def)
  show "fd_entry ?m' j = fd_entry m j" if "j \<noteq> nat fd" for j
    using that fdt.entry_ensure [OF ok, of "nat fd" j] by (auto simp: fdt.entry_def split: if_splits)
  show "nat fd < length (m_datas ?m')" using len by simp
qed (simp_all add: fd_ensure_frame)

lemma get_read_hit:
  assumes "0 \<le> fd" "fd < 2 ^ 31" and "fd_entry m (nat fd) = Some p"
  shows "FdManager_get os fd b m k = Inr (Some p, m, k)"
  using assms by (auto simp: FdManager_get_def FdManager_get_read_def fd_index_nonneg fdt.entry_def split: if_splits)

lemma get_no_create:
  assumes "0 \<le> fd" "fd < 2 ^ 31"
  shows "FdManager_get os fd False m k = Inr (fd_entry m (nat fd), m, k)"
  using assms by (auto simp: FdManager_get_def FdManager_get_read_def fd_index_nonneg fdt.entry_def)

lemma get_create_miss:
  assumes "0 \<le> fd" "fd < 2 ^ 31" and "fd_entry m (nat fd) = None"
  shows "FdManager_get os fd True m k = FdManager_get_write os fd m k"
  using assms by (auto simp: FdManager_get_def FdManager_get_read_def fd_index_nonneg fdt.entry_def split: if_splits)

lemma del_entry:
  assumes "0 \<le> fd" "fd < 2 ^ 31"
  shows "fd_entry (FdManager_del fd m) j = (if j = nat fd then None else fd_entry m j)"
  using assms by (auto simp: FdManager_del_def fd_index_nonneg fdt.entry_def nth_list_update)

section \<open>Properties\<close>

text \<open>
  What the manual page of \<^verbatim>\<open>fcntl\<close> says of the file status flags \<open>fl\<close> of a descriptor that
  exists: \<^verbatim>\<open>F_GETFL\<close> returns them, \<^verbatim>\<open>F_SETFL\<close> sets their \<^verbatim>\<open>O_NONBLOCK\<close> to the argument's.
\<close>

definition flags_kernel :: "'k os \<Rightarrow> ('k \<Rightarrow> int \<Rightarrow> u32) \<Rightarrow> bool" where
  "flags_kernel os fl \<longleftrightarrow>
     (\<forall>fd a k. fstat_call os fd k \<noteq> None \<longrightarrow> fcntl_f os fd F_GETFL a k = (fl k fd, k))
     \<and> (\<forall>fd a k. fstat_call os fd k \<noteq> None \<longrightarrow>
          fl (snd (fcntl_f os fd F_SETFL a k)) fd AND O_NONBLOCK = a AND O_NONBLOCK)"

lemma or_and_nonblock: "(x OR O_NONBLOCK) AND O_NONBLOCK = O_NONBLOCK"
  by (rule bit_word_eqI) (auto simp: bit_simps)

lemma O_NONBLOCK_nonzero: "O_NONBLOCK \<noteq> 0"
  by (simp add: O_NONBLOCK_def)

lemma FdCtx_new_cases:
  assumes "flags_kernel os fl" and "FdCtx_new os fd k = (c, k')"
  shows "(m_isSocket c \<longleftrightarrow> (\<exists>mode. fstat_call os fd k = Some mode \<and> S_ISSOCK mode))
    \<and> m_sysNonblock c = m_isSocket c \<and> (m_isSocket c \<longrightarrow> fl k' fd AND O_NONBLOCK \<noteq> 0)
    \<and> (\<not> m_isSocket c \<longrightarrow> k' = k)
    \<and> \<not> m_userNonblock c \<and> \<not> m_isClosed c \<and> m_recvTimeout c = - 1 \<and> m_sendTimeout c = - 1"
proof (cases "fstat_call os fd k")
  case None
  then show ?thesis
    using assms(2) by (auto simp: FdCtx_new_def FdCtx_init_def FdCtx_fields_def Let_def)
next
  case (Some mode)
  then have g: "fcntl_f os fd F_GETFL 0 k = (fl k fd, k)"
    and s: "\<And>a. fl (snd (fcntl_f os fd F_SETFL a k)) fd AND O_NONBLOCK = a AND O_NONBLOCK"
    using assms(1) unfolding flags_kernel_def by auto
  show ?thesis
    using assms(2) Some s [of "fl k fd OR O_NONBLOCK"] O_NONBLOCK_nonzero
    by (auto simp: FdCtx_new_def FdCtx_init_def FdCtx_fields_def Let_def g or_and_nonblock split: if_splits)
qed

definition demo_os :: "(int \<Rightarrow> u32) os" where
  \<comment> \<open>a kernel in which every descriptor is a socket and a state is the flags of each\<close>
  "demo_os = \<lparr>fstat_call = (\<lambda>fd k. Some 0xC1FF),
              fcntl_f = (\<lambda>fd cmd a k. if cmd = F_GETFL then (k fd, k) else (0, k(fd := a)))\<rparr>"

lemma demo_os_flags: "flags_kernel demo_os (\<lambda>k. k)"
  by (simp add: flags_kernel_def demo_os_def F_GETFL_def F_SETFL_def)

text \<open>
  C31: \<open>get\<close> with \<open>auto_create\<close> registers a descriptor that is not in the table, whatever its
  size and without touching any other entry; the record knows whether the descriptor is a
  socket, has no timeouts, and a socket is non-blocking in the kernel afterwards.
\<close>

theorem get_registers:
  assumes "fdm_ok m" and "0 \<le> fd" and "fd < 2 ^ 31" and "fd_entry m (nat fd) = None" and "flags_kernel os fl"
  shows "\<exists>p m' k'. FdManager_get os fd True m k = Inr (Some p, m', k') \<and> fdm_ok m'
    \<and> fd_entry m' (nat fd) = Some p \<and> (\<forall>j. j \<noteq> nat fd \<longrightarrow> fd_entry m' j = fd_entry m j)
    \<and> (m_isSocket (heap m' p) \<longleftrightarrow> (\<exists>mode. fstat_call os fd k = Some mode \<and> S_ISSOCK mode))
    \<and> (m_isSocket (heap m' p) \<longrightarrow> m_sysNonblock (heap m' p) \<and> fl k' fd AND O_NONBLOCK \<noteq> 0)
    \<and> getTimeout SO_RCVTIMEO (heap m' p) = - 1 \<and> getTimeout SO_SNDTIMEO (heap m' p) = - 1"
proof (rule get_write_spec [OF assms(1-3), of os k])
  fix m' k'
  assume w: "FdManager_get_write os fd m k = Inr (Some (next_ctx m), m', k')" and ok: "fdm_ok m'"
    and e: "fd_entry m' (nat fd) = Some (next_ctx m)" "\<And>j. j \<noteq> nat fd \<Longrightarrow> fd_entry m' j = fd_entry m j"
    and h: "heap m' = (heap m)(next_ctx m := fst (FdCtx_new os fd k))" and k': "k' = snd (FdCtx_new os fd k)"
  have "FdManager_get os fd True m k = Inr (Some (next_ctx m), m', k')"
    using w by (simp only: get_create_miss [OF assms(2-4)])
  then show ?thesis
    using FdCtx_new_cases [OF assms(5), of fd k "fst (FdCtx_new os fd k)" k'] ok e h k'
    by (intro exI [of _ "next_ctx m"] exI [of _ m'] exI [of _ k']) (auto simp: getTimeout_def)
qed

theorem get_registers_witness:
  "\<exists>p m' k'. FdManager_get demo_os 200 True FdManager_new (\<lambda>_. 0) = Inr (Some p, m', k') \<and> fdm_ok m'
    \<and> fd_entry m' 200 = Some p \<and> k' 200 AND O_NONBLOCK \<noteq> 0"
proof -
  have "S_ISSOCK 0xC1FF" by (simp add: S_ISSOCK_def)
  then show ?thesis
    using get_registers [OF FdManager_new_ok _ _ _ demo_os_flags, of 200 "\<lambda>_. 0"]
    by (auto simp: demo_os_def)
qed

text \<open>
  The record of a descriptor is stable: until \<open>del\<close>, every \<open>get\<close>, creating or not, returns
  the same shared record and changes nothing, also when another descriptor was registered in
  between, which may grow the table; after \<open>del\<close> it is gone and the other entries are as they were.
\<close>

theorem get_stable_until_del:
  assumes "0 \<le> fd" and "fd < 2 ^ 31" and "fd_entry m (nat fd) = Some p" and "fdm_ok m"
    and "0 \<le> fd'" and "fd' < 2 ^ 31" and "fd' \<noteq> fd"
    and "FdManager_get os fd' True m k = Inr (r, m', k')"
  shows "FdManager_get os fd b m k = Inr (Some p, m, k)
    \<and> FdManager_get os fd b m' k = Inr (Some p, m', k) \<and> heap m' p = heap m p
    \<and> FdManager_get os fd False (FdManager_del fd m) k = Inr (None, FdManager_del fd m, k)
    \<and> (\<forall>j. j \<noteq> nat fd \<longrightarrow> fd_entry (FdManager_del fd m) j = fd_entry m j)"
proof -
  have p: "p < next_ctx m"
    using assms(3,4) by (auto simp: fdm_ok_def fdt.entry_def split: if_splits)
  have e: "fd_entry m' (nat fd) = Some p \<and> heap m' p = heap m p"
  proof (cases "fd_entry m (nat fd')")
    case (Some q)
    then show ?thesis using assms(3,8) get_read_hit [OF assms(5,6), of m q os True k] by simp
  next
    case None
    have "nat fd \<noteq> nat fd'" using assms(1,5,7) by linarith
    show ?thesis
    proof (rule get_write_spec [OF assms(4-6), of os k])
      fix m1 k1
      assume "FdManager_get_write os fd' m k = Inr (Some (next_ctx m), m1, k1)"
        and e: "\<And>j. j \<noteq> nat fd' \<Longrightarrow> fd_entry m1 j = fd_entry m j"
        and h: "heap m1 = (heap m)(next_ctx m := fst (FdCtx_new os fd' k))"
      then have "m1 = m'" using get_create_miss [OF assms(5,6) None, of os k] assms(8) by simp
      then show ?thesis using e [OF \<open>nat fd \<noteq> nat fd'\<close>] h p assms(3) by auto
    qed
  qed
  show ?thesis
    using get_read_hit [OF assms(1,2,3), of os b k] get_read_hit [OF assms(1,2), of m' p os b k] e
      get_no_create [OF assms(1,2), of os "FdManager_del fd m" k] del_entry [OF assms(1,2)] by simp
qed

definition demo_fdm :: "fd_manager" where
  "demo_fdm = (case FdManager_get demo_os 9 True FdManager_new (\<lambda>_. 0) of Inr (_, m, _) \<Rightarrow> m | Inl _ \<Rightarrow> FdManager_new)"

lemma demo_fdm_facts: "fdm_ok demo_fdm" "fd_entry demo_fdm 9 = Some 0" "fd_entry demo_fdm 300 = None"
  "next_ctx demo_fdm = 1"
proof -
  have m: "FdManager_get demo_os 9 True FdManager_new (\<lambda>_. 0) = FdManager_get_write demo_os 9 FdManager_new (\<lambda>_. 0)"
    by (rule get_create_miss) simp_all
  obtain m' k' where *: "FdManager_get_write demo_os 9 FdManager_new (\<lambda>_. 0) = Inr (Some 0, m', k')"
    "fdm_ok m'" "fd_entry m' 9 = Some 0" "\<And>j. j \<noteq> 9 \<Longrightarrow> fd_entry m' j = None" "next_ctx m' = 1"
    by (rule get_write_spec [OF FdManager_new_ok, of 9 demo_os "\<lambda>_. 0"]) auto
  have "demo_fdm = m'" by (simp add: demo_fdm_def m *(1))
  then show "fdm_ok demo_fdm" "fd_entry demo_fdm 9 = Some 0" "fd_entry demo_fdm 300 = None" "next_ctx demo_fdm = 1"
    using * by simp_all
qed

theorem get_stable_until_del_witness:
  "\<exists>m' k'. FdManager_get demo_os 300 True demo_fdm (\<lambda>_. 0) = Inr (Some 1, m', k')
     \<and> FdManager_get demo_os 9 True m' (\<lambda>_. 0) = Inr (Some 0, m', \<lambda>_. 0)"
proof -
  have c: "FdManager_get demo_os 300 True demo_fdm (\<lambda>_. 0) = FdManager_get_write demo_os 300 demo_fdm (\<lambda>_. 0)"
    by (rule get_create_miss) (simp_all add: demo_fdm_facts)
  obtain m' k' where g: "FdManager_get demo_os 300 True demo_fdm (\<lambda>_. 0) = Inr (Some 1, m', k')"
    unfolding c by (rule get_write_spec [OF demo_fdm_facts(1), of 300 demo_os "\<lambda>_. 0"]) (auto simp: demo_fdm_facts)
  then show ?thesis
    using get_stable_until_del [OF _ _ _ demo_fdm_facts(1) _ _ _ g, of 9 0 True] by (simp add: demo_fdm_facts)
qed

text \<open>
  Two threads that both saw the descriptor missing both create: the second replaces the
  record the first one got, so what the first caller then sets (a timeout, a user flag) is
  not what later calls see.
\<close>

theorem get_race_replaces:
  assumes "fdm_ok m" and "0 \<le> fd" and "fd < 2 ^ 31" and "fd_entry m (nat fd) = None"
  shows "FdManager_get_read fd True m = None
    \<and> (\<exists>p q m1 k1 m2 k2. FdManager_get_write os fd m k = Inr (Some p, m1, k1)
        \<and> FdManager_get_write os fd m1 k1 = Inr (Some q, m2, k2)
        \<and> p \<noteq> q \<and> FdManager_get os fd True m2 k2 = Inr (Some q, m2, k2))"
proof (rule get_write_spec [OF assms(1-3), of os k])
  fix m1 k1
  assume w1: "FdManager_get_write os fd m k = Inr (Some (next_ctx m), m1, k1)" and ok1: "fdm_ok m1"
    and n1: "next_ctx m1 = Suc (next_ctx m)"
  show ?thesis
  proof (rule get_write_spec [OF ok1 assms(2,3), of os k1])
    fix m2 k2
    assume w2: "FdManager_get_write os fd m1 k1 = Inr (Some (next_ctx m1), m2, k2)"
      and e2: "fd_entry m2 (nat fd) = Some (next_ctx m1)"
    have "FdManager_get_read fd True m = None"
      using assms by (auto simp: FdManager_get_read_def fd_index_nonneg fdt.entry_def split: if_splits)
    then show ?thesis
      using w1 w2 get_read_hit [OF assms(2,3) e2, of os True k2] n1 by auto
  qed
qed

theorem get_race_replaces_witness: "FdManager_get_read 9 True FdManager_new = None"
  using get_race_replaces [OF FdManager_new_ok, of 9 demo_os "\<lambda>_. 0"]
  by simp

end
