(* ===== verification/IOManager.thy ===== *)
theory IOManager
  imports Scheduler Timer FdTable
begin

text \<open>
  \<^verbatim>\<open>CoroutineLibrary/ioscheduler.h\<close>, \<^verbatim>\<open>ioscheduler.cpp\<close>: the scheduler that waits for
  descriptors with \<^verbatim>\<open>epoll\<close>.  An \<^verbatim>\<open>IOManager\<close> is a \<^verbatim>\<open>Scheduler\<close> and a \<^verbatim>\<open>TimerManager\<close>; the
  state holds the schedulers of the process by number (an event context points to one of
  them, \<open>self\<close> is the manager's own), the manager's timers, and its \<^verbatim>\<open>FdContext\<close> objects by
  number, because the table, the kernel (\<^verbatim>\<open>data.ptr\<close>) and the operations share them.

  \<^verbatim>\<open>epoll_ctl\<close> is the kernel: its result is an argument (\<open>rt\<close>, non-zero on failure) and
  each call is logged.  What \<^verbatim>\<open>epoll_wait\<close> returns is an argument too.  Every operation is
  the code under the descriptor's mutex, except that \<open>addEvent\<close> is also given split where it
  changes locks.
\<close>

section \<open>Data\<close>

unbundle bit_operations_syntax

type_synonym Event = u32

definition NONE :: Event where "NONE = 0"
definition READ :: Event where "READ = 1"
definition WRITE :: Event where "WRITE = 4"

definition EPOLLIN :: u32 where "EPOLLIN = 1"
definition EPOLLOUT :: u32 where "EPOLLOUT = 4"
definition EPOLLERR :: u32 where "EPOLLERR = 8"
definition EPOLLHUP :: u32 where "EPOLLHUP = 0x10"
definition EPOLLET :: u32 where "EPOLLET = 0x80000000"

definition EPOLL_CTL_ADD :: nat where "EPOLL_CTL_ADD = 1"
definition EPOLL_CTL_DEL :: nat where "EPOLL_CTL_DEL = 2"
definition EPOLL_CTL_MOD :: nat where "EPOLL_CTL_MOD = 3"

lemmas event_consts =
  NONE_def READ_def WRITE_def EPOLLIN_def EPOLLOUT_def EPOLLERR_def EPOLLHUP_def EPOLLET_def
  EPOLL_CTL_ADD_def EPOLL_CTL_DEL_def EPOLL_CTL_MOD_def

record 'cb EventContext =
  ev_scheduler :: "nat option"
  ev_fiber :: "nat option"
  ev_cb :: "'cb option"

record 'cb FdContext =
  read_ctx :: "'cb EventContext"
  write_ctx :: "'cb EventContext"
  fd_no :: int
  events :: Event

record ctl_call =
  ctl_op :: nat
  ctl_fd :: int
  ctl_events :: u32
  ctl_ptr :: nat
  ctl_ok :: bool

record 'cb iomanager =
  self :: nat
  scheds :: "nat \<Rightarrow> 'cb scheduler"
  pipes :: "nat \<Rightarrow> nat"                 \<comment> \<open>bytes written to the wake-up pipe of each manager\<close>
  timers :: "'cb timer_manager"
  ctxs :: "nat \<Rightarrow> 'cb FdContext"
  next_ptr :: nat
  m_fdContexts :: "nat list"
  m_pendingEventCount :: u64
  ctl_log :: "ctl_call list"

datatype iom_error = AssertFailed | InvalidArgument | NullScheduler | BadFdIndex

definition EventContext_new :: "'cb EventContext" where
  "EventContext_new = \<lparr>ev_scheduler = None, ev_fiber = None, ev_cb = None\<rparr>"

definition FdContext_new :: "nat \<Rightarrow> 'cb FdContext" where
  \<comment> \<open>\<^verbatim>\<open>new FdContext()\<close> followed by the assignment of \<^verbatim>\<open>fd\<close> in \<open>contextResize\<close>\<close>
  "FdContext_new i =
     \<lparr>read_ctx = EventContext_new, write_ctx = EventContext_new, fd_no = int i, events = NONE\<rparr>"

section \<open>\<open>FdContext\<close>\<close>

definition getEventContext :: "Event \<Rightarrow> 'cb FdContext \<Rightarrow> iom_error + 'cb EventContext" where
  "getEventContext event c =
     (if \<not> (event = READ \<or> event = WRITE) then Inl AssertFailed
      else if event = READ then Inr (read_ctx c)
      else if event = WRITE then Inr (write_ctx c)
      else Inl InvalidArgument)"

definition set_event_context :: "Event \<Rightarrow> 'cb EventContext \<Rightarrow> 'cb FdContext \<Rightarrow> 'cb FdContext" where
  \<comment> \<open>a write through the reference \<open>getEventContext\<close> returned\<close>
  "set_event_context event x c = (if event = READ then c\<lparr>read_ctx := x\<rparr> else c\<lparr>write_ctx := x\<rparr>)"

definition resetEventContext :: "'cb EventContext \<Rightarrow> 'cb EventContext" where
  "resetEventContext x = x\<lparr>ev_scheduler := None, ev_fiber := None, ev_cb := None\<rparr>"

definition tickle :: "nat \<Rightarrow> 'cb iomanager \<Rightarrow> 'cb iomanager" where
  "tickle sid s =
     (if \<not> m_idleThreadCount (scheds s sid) > 0 then s
      else s\<lparr>pipes := (pipes s)(sid := pipes s sid + 1)\<rparr>)"

definition schedule_on :: "nat \<Rightarrow> 'cb ScheduleTask \<Rightarrow> 'cb iomanager \<Rightarrow> 'cb iomanager" where
  \<comment> \<open>\<^verbatim>\<open>scheduleLock\<close> of the scheduler \<open>sid\<close>, with the virtual \<open>tickle\<close> it may call\<close>
  "schedule_on sid task s =
     (let (sc, need_tickle) = scheduleLock task (scheds s sid);
          s1 = s\<lparr>scheds := (scheds s)(sid := sc)\<rparr>
      in if need_tickle then tickle sid s1 else s1)"

definition triggerEvent ::
    "Event \<Rightarrow> 'cb FdContext \<Rightarrow> 'cb iomanager \<Rightarrow> iom_error + ('cb FdContext \<times> 'cb iomanager)" where
  "triggerEvent event c s =
     (if events c AND event = 0 then Inl AssertFailed
      else
        (let c1 = c\<lparr>events := events c AND NOT event\<rparr>
         in case getEventContext event c1 of
              Inl e \<Rightarrow> Inl e
            | Inr x \<Rightarrow>
                (case ev_scheduler x of
                   None \<Rightarrow> Inl NullScheduler
                 | Some sid \<Rightarrow>
                     (if ev_cb x \<noteq> None then
                        (let (task, cb') = ScheduleTask_cb_ptr (ev_cb x) (- 1)
                         in Inr (set_event_context event (resetEventContext (x\<lparr>ev_cb := cb'\<rparr>)) c1,
                                 schedule_on sid task s))
                      else
                        (let (task, f') = ScheduleTask_fiber_ptr (ev_fiber x) (- 1)
                         in Inr (set_event_context event (resetEventContext (x\<lparr>ev_fiber := f'\<rparr>)) c1,
                                 schedule_on sid task s))))))"

section \<open>The table of contexts\<close>

fun fill_contexts :: "nat \<Rightarrow> nat option list \<Rightarrow> 'cb iomanager \<Rightarrow> nat list \<times> 'cb iomanager" where
  \<comment> \<open>the loop of \<open>contextResize\<close> from index \<open>i\<close>: a null entry gets a new context\<close>
  "fill_contexts i [] s = ([], s)"
| "fill_contexts i (Some p # ps) s =
     (let (qs, s') = fill_contexts (Suc i) ps s in (p # qs, s'))"
| "fill_contexts i (None # ps) s =
     (let p = next_ptr s;
          s1 = s\<lparr>ctxs := (ctxs s)(p := FdContext_new i), next_ptr := Suc p\<rparr>;
          (qs, s') = fill_contexts (Suc i) ps s1
      in (p # qs, s'))"

definition contextResize :: "nat \<Rightarrow> 'cb iomanager \<Rightarrow> 'cb iomanager" where
  "contextResize n s =
     (let ptrs = vector_resize n None (map Some (m_fdContexts s));
          (ps, s') = fill_contexts 0 ptrs s
      in s'\<lparr>m_fdContexts := ps\<rparr>)"

definition IOManager_new :: "nat \<Rightarrow> (nat \<Rightarrow> 'cb scheduler) \<Rightarrow> int \<Rightarrow> 'cb iomanager" where
  \<comment> \<open>after the base constructors and the system calls that make the epoll instance and the
    pipe, which the code asserts to succeed; \<^verbatim>\<open>start()\<close> is the scheduler's\<close>
  "IOManager_new me sch now =
     contextResize 32
       \<lparr>self = me, scheds = sch, pipes = (\<lambda>_. 0), timers = TimerManager_new now,
        ctxs = (\<lambda>_. FdContext_new 0), next_ptr = 0, m_fdContexts = [], m_pendingEventCount = 0,
        ctl_log = []\<rparr>"

definition find_ctx :: "int \<Rightarrow> 'cb iomanager \<Rightarrow> iom_error + nat option" where
  \<comment> \<open>the lookup under the read lock; a negative index into the vector is undefined\<close>
  "find_ctx fd s =
     (if int (length (m_fdContexts s)) > fd then
        (if fd < 0 then Inl BadFdIndex else Inr (Some (m_fdContexts s ! nat fd)))
      else Inr None)"

definition grow_ctx :: "int \<Rightarrow> 'cb iomanager \<Rightarrow> iom_error + (nat \<times> 'cb iomanager)" where
  \<comment> \<open>the branch of \<open>addEvent\<close> under the write lock\<close>
  "grow_ctx fd s =
     (let s1 = contextResize (grow_size (nat fd)) s
      in if \<not> nat fd < length (m_fdContexts s1) then Inl BadFdIndex
         else Inr (m_fdContexts s1 ! nat fd, s1))"

definition log_ctl :: "nat \<Rightarrow> int \<Rightarrow> u32 \<Rightarrow> nat \<Rightarrow> int \<Rightarrow> 'cb iomanager \<Rightarrow> 'cb iomanager" where
  "log_ctl op fd ev p rt s =
     s\<lparr>ctl_log := ctl_log s @ [\<lparr>ctl_op = op, ctl_fd = fd, ctl_events = ev, ctl_ptr = p, ctl_ok = (rt = 0)\<rparr>]\<rparr>"

section \<open>\<open>addEvent\<close>, \<open>delEvent\<close>, \<open>cancelEvent\<close>, \<open>cancelAll\<close>\<close>

text \<open>The thread that calls: its \<^verbatim>\<open>Scheduler::GetThis()\<close>, \<^verbatim>\<open>Fiber::GetThis()\<close> and that fiber's state.\<close>

record caller =
  this_sched :: "nat option"
  this_fiber :: nat
  fiber_running :: bool

definition addEvent_locked ::
    "caller \<Rightarrow> int \<Rightarrow> int \<Rightarrow> nat \<Rightarrow> Event \<Rightarrow> 'cb option \<Rightarrow> 'cb iomanager \<Rightarrow> iom_error + (int \<times> 'cb iomanager)" where
  \<comment> \<open>the part under the mutex of the context \<open>p\<close>\<close>
  "addEvent_locked me rt fd p event cbk s =
     (let c = ctxs s p
      in if events c AND event \<noteq> 0 then Inr (- 1, s)
         else
           (let op = (if events c \<noteq> 0 then EPOLL_CTL_MOD else EPOLL_CTL_ADD);
                s1 = log_ctl op fd (EPOLLET OR events c OR event) p rt s
            in if rt \<noteq> 0 then Inr (- 1, s1)
               else
                 (let s2 = s1\<lparr>m_pendingEventCount := m_pendingEventCount s1 + 1\<rparr>;
                      c1 = c\<lparr>events := events c OR event\<rparr>
                  in case getEventContext event c1 of
                       Inl e \<Rightarrow> Inl e
                     | Inr x \<Rightarrow>
                         (if \<not> (ev_scheduler x = None \<and> ev_fiber x = None \<and> ev_cb x = None) then Inl AssertFailed
                          else
                            (let x1 = x\<lparr>ev_scheduler := this_sched me\<rparr>
                             in if cbk \<noteq> None then
                                  Inr (0, s2\<lparr>ctxs := (ctxs s2)(p := set_event_context event (x1\<lparr>ev_cb := cbk\<rparr>) c1)\<rparr>)
                                else if \<not> fiber_running me then Inl AssertFailed
                                else
                                  Inr (0, s2\<lparr>ctxs := (ctxs s2)(p := set_event_context event
                                            (x1\<lparr>ev_fiber := Some (this_fiber me)\<rparr>) c1)\<rparr>))))))"

definition addEvent ::
    "caller \<Rightarrow> int \<Rightarrow> int \<Rightarrow> Event \<Rightarrow> 'cb option \<Rightarrow> 'cb iomanager \<Rightarrow> iom_error + (int \<times> 'cb iomanager)" where
  "addEvent me rt fd event cbk s =
     (case find_ctx fd s of
        Inl e \<Rightarrow> Inl e
      | Inr (Some p) \<Rightarrow> addEvent_locked me rt fd p event cbk s
      | Inr None \<Rightarrow>
          (case grow_ctx fd s of
             Inl e \<Rightarrow> Inl e
           | Inr (p, s1) \<Rightarrow> addEvent_locked me rt fd p event cbk s1))"

definition with_ctx :: "int \<Rightarrow> (nat \<Rightarrow> 'cb iomanager \<Rightarrow> iom_error + (bool \<times> 'cb iomanager)) \<Rightarrow>
    'cb iomanager \<Rightarrow> iom_error + (bool \<times> 'cb iomanager)" where
  \<comment> \<open>the lookup \<open>delEvent\<close>, \<open>cancelEvent\<close> and \<open>cancelAll\<close> begin with\<close>
  "with_ctx fd body s =
     (case find_ctx fd s of
        Inl e \<Rightarrow> Inl e
      | Inr None \<Rightarrow> Inr (False, s)
      | Inr (Some p) \<Rightarrow> body p s)"

definition delEvent_locked ::
    "int \<Rightarrow> int \<Rightarrow> Event \<Rightarrow> nat \<Rightarrow> 'cb iomanager \<Rightarrow> iom_error + (bool \<times> 'cb iomanager)" where
  "delEvent_locked rt fd event p s =
     (let c = ctxs s p
      in if events c AND event = 0 then Inr (False, s)
         else
           (let new_events = events c AND NOT event;
                op = (if new_events \<noteq> 0 then EPOLL_CTL_MOD else EPOLL_CTL_DEL);
                s1 = log_ctl op fd (EPOLLET OR new_events) p rt s
            in if rt \<noteq> 0 then Inr (True, s1)   \<comment> \<open>\<^verbatim>\<open>return -1\<close> in a \<^verbatim>\<open>bool\<close> function\<close>
               else
                 (let s2 = s1\<lparr>m_pendingEventCount := m_pendingEventCount s1 - 1\<rparr>;
                      c1 = c\<lparr>events := new_events\<rparr>
                  in case getEventContext event c1 of
                       Inl e \<Rightarrow> Inl e
                     | Inr x \<Rightarrow> Inr (True, s2\<lparr>ctxs := (ctxs s2)(p :=
                                   set_event_context event (resetEventContext x) c1)\<rparr>))))"

definition delEvent :: "int \<Rightarrow> int \<Rightarrow> Event \<Rightarrow> 'cb iomanager \<Rightarrow> iom_error + (bool \<times> 'cb iomanager)" where
  "delEvent rt fd event s = with_ctx fd (delEvent_locked rt fd event) s"

definition put_ctx :: "nat \<Rightarrow> 'cb FdContext \<times> 'cb iomanager \<Rightarrow> 'cb iomanager" where
  "put_ctx p r = (case r of (c, s) \<Rightarrow> s\<lparr>ctxs := (ctxs s)(p := c)\<rparr>)"

definition cancelEvent_locked ::
    "int \<Rightarrow> int \<Rightarrow> Event \<Rightarrow> nat \<Rightarrow> 'cb iomanager \<Rightarrow> iom_error + (bool \<times> 'cb iomanager)" where
  "cancelEvent_locked rt fd event p s =
     (let c = ctxs s p
      in if events c AND event = 0 then Inr (False, s)
         else
           (let new_events = events c AND NOT event;
                op = (if new_events \<noteq> 0 then EPOLL_CTL_MOD else EPOLL_CTL_DEL);
                s1 = log_ctl op fd (EPOLLET OR new_events) p rt s
            in if rt \<noteq> 0 then Inr (True, s1)
               else
                 (let s2 = s1\<lparr>m_pendingEventCount := m_pendingEventCount s1 - 1\<rparr>
                  in case triggerEvent event c s2 of
                       Inl e \<Rightarrow> Inl e
                     | Inr r \<Rightarrow> Inr (True, put_ctx p r))))"

definition cancelEvent :: "int \<Rightarrow> int \<Rightarrow> Event \<Rightarrow> 'cb iomanager \<Rightarrow> iom_error + (bool \<times> 'cb iomanager)" where
  "cancelEvent rt fd event s = with_ctx fd (cancelEvent_locked rt fd event) s"

definition trigger_if ::
    "bool \<Rightarrow> Event \<Rightarrow> nat \<Rightarrow> 'cb iomanager \<Rightarrow> iom_error + 'cb iomanager" where
  \<comment> \<open>\<^verbatim>\<open>if (...) { fd_ctx->triggerEvent(event); --m_pendingEventCount; }\<close>\<close>
  "trigger_if b event p s =
     (if \<not> b then Inr s
      else case triggerEvent event (ctxs s p) s of
             Inl e \<Rightarrow> Inl e
           | Inr r \<Rightarrow> (let s1 = put_ctx p r in Inr (s1\<lparr>m_pendingEventCount := m_pendingEventCount s1 - 1\<rparr>)))"

definition cancelAll_locked ::
    "int \<Rightarrow> int \<Rightarrow> nat \<Rightarrow> 'cb iomanager \<Rightarrow> iom_error + (bool \<times> 'cb iomanager)" where
  "cancelAll_locked rt fd p s =
     (if events (ctxs s p) = 0 then Inr (False, s)
      else
        (let s1 = log_ctl EPOLL_CTL_DEL fd 0 p rt s
         in if rt \<noteq> 0 then Inr (True, s1)
            else
              (case trigger_if (events (ctxs s1 p) AND READ \<noteq> 0) READ p s1 of
                 Inl e \<Rightarrow> Inl e
               | Inr s2 \<Rightarrow>
                   (case trigger_if (events (ctxs s2 p) AND WRITE \<noteq> 0) WRITE p s2 of
                      Inl e \<Rightarrow> Inl e
                    | Inr s3 \<Rightarrow> if events (ctxs s3 p) = 0 then Inr (True, s3) else Inl AssertFailed))))"

definition cancelAll :: "int \<Rightarrow> int \<Rightarrow> 'cb iomanager \<Rightarrow> iom_error + (bool \<times> 'cb iomanager)" where
  "cancelAll rt fd s = with_ctx fd (cancelAll_locked rt fd) s"

section \<open>\<open>stopping\<close> and \<open>idle\<close>\<close>

definition iom_stopping :: "int \<Rightarrow> 'cb iomanager \<Rightarrow> 'cb iomanager \<times> bool" where
  "iom_stopping now s =
     (let (t, timeout) = getNextTimer now (timers s)
      in (s\<lparr>timers := t\<rparr>,
          timeout = - 1 \<and> m_pendingEventCount s = 0 \<and> stopping (scheds s (self s))))"

definition idle_timeout :: "int \<Rightarrow> 'cb iomanager \<Rightarrow> 'cb iomanager \<times> int" where
  \<comment> \<open>the argument of \<^verbatim>\<open>epoll_wait\<close>: the next timer, at most \<^verbatim>\<open>MAX_TIMEOUT\<close>\<close>
  "idle_timeout now s =
     (let (t, next_timeout) = getNextTimer now (timers s)
      in (s\<lparr>timers := t\<rparr>, sint (ucast (min next_timeout 5000) :: 32 word)))"

datatype event_data = TickleData | CtxData nat

type_synonym epoll_event = "u32 \<times> event_data"

datatype wait_result = Ready "epoll_event list" | Interrupted | WaitFailed

fun idle_wait :: "(int \<times> wait_result) list \<Rightarrow> 'cb iomanager \<Rightarrow> ('cb iomanager \<times> epoll_event list) option" where
  \<comment> \<open>the inner loop: each element is the time read and what \<^verbatim>\<open>epoll_wait\<close> then returns;
    \<open>None\<close>: still waiting when the list ends\<close>
  "idle_wait [] s = None"
| "idle_wait ((now, r) # rest) s =
     (let (s1, _) = idle_timeout now s
      in case r of
           Interrupted \<Rightarrow> idle_wait rest s1
         | WaitFailed \<Rightarrow> Some (s1, [])
         | Ready evs \<Rightarrow> Some (s1, evs))"

definition data_fd :: "(nat \<Rightarrow> u64) \<Rightarrow> u32 \<Rightarrow> event_data \<Rightarrow> u32" where
  \<comment> \<open>\<^verbatim>\<open>event.data.fd\<close>: the low half of the union, whichever member was stored\<close>
  "data_fd addr tickle_fd d = (case d of TickleData \<Rightarrow> tickle_fd | CtxData p \<Rightarrow> ucast (addr p))"

definition ready_mask :: "u32 \<Rightarrow> 'cb FdContext \<Rightarrow> u32" where
  \<comment> \<open>\<^verbatim>\<open>event.events\<close> after errors and hang-ups are turned into what the context waits for\<close>
  "ready_mask ev c =
     (if ev AND (EPOLLERR OR EPOLLHUP) \<noteq> 0 then ev OR ((EPOLLIN OR EPOLLOUT) AND events c) else ev)"

definition real_events :: "u32 \<Rightarrow> u32" where
  "real_events ev =
     (let r = (if ev AND EPOLLIN \<noteq> 0 then NONE OR READ else NONE)
      in if ev AND EPOLLOUT \<noteq> 0 then r OR WRITE else r)"

definition idle_event ::
    "(nat \<Rightarrow> u64) \<Rightarrow> u32 \<Rightarrow> int \<Rightarrow> epoll_event \<Rightarrow> 'cb iomanager \<Rightarrow> iom_error + 'cb iomanager" where
  \<comment> \<open>one round of the event loop; \<open>rt\<close> is the result of its \<^verbatim>\<open>epoll_ctl\<close>\<close>
  "idle_event addr tickle_fd rt e s =
     (if data_fd addr tickle_fd (snd e) = tickle_fd then Inr (s\<lparr>pipes := (pipes s)(self s := 0)\<rparr>)
      else case snd e of
        TickleData \<Rightarrow> Inr s
      | CtxData p \<Rightarrow>
          (let c = ctxs s p;
               real = real_events (ready_mask (fst e) c)
           in if events c AND real = NONE then Inr s
              else
                (let left_events = events c AND NOT real;
                     op = (if left_events \<noteq> 0 then EPOLL_CTL_MOD else EPOLL_CTL_DEL);
                     s1 = log_ctl op (fd_no c) (EPOLLET OR left_events) p rt s
                 in if rt \<noteq> 0 then Inr s1
                    else
                      (case trigger_if (real AND READ \<noteq> 0) READ p s1 of
                         Inl err \<Rightarrow> Inl err
                       | Inr s2 \<Rightarrow> trigger_if (real AND WRITE \<noteq> 0) WRITE p s2))))"

fun idle_events ::
    "(nat \<Rightarrow> u64) \<Rightarrow> u32 \<Rightarrow> (int \<times> epoll_event) list \<Rightarrow> 'cb iomanager \<Rightarrow> iom_error + 'cb iomanager" where
  "idle_events addr tickle_fd [] s = Inr s"
| "idle_events addr tickle_fd ((rt, e) # rest) s =
     (case idle_event addr tickle_fd rt e s of
        Inl err \<Rightarrow> Inl err
      | Inr s' \<Rightarrow> idle_events addr tickle_fd rest s')"

definition schedule_expired :: "'cb option list \<Rightarrow> 'cb iomanager \<Rightarrow> 'cb iomanager" where
  "schedule_expired cbs s = fold (\<lambda>f. schedule_on (self s) (ScheduleTask_cb f (- 1))) cbs s"

definition idle_round ::
    "int \<Rightarrow> (int \<times> wait_result) list \<Rightarrow> int \<Rightarrow> int \<Rightarrow> (nat \<Rightarrow> u64) \<Rightarrow> u32 \<Rightarrow> int list
     \<Rightarrow> 'cb iomanager \<Rightarrow> (iom_error + ('cb iomanager \<times> bool)) option" where
  \<comment> \<open>one round of the loop of \<open>idle\<close>, up to the \<open>yield\<close>; the flag says that it was left.
    \<open>None\<close>: the round does not end\<close>
  "idle_round now0 waits now1 now2 addr tickle_fd rts s =
     (let (s0, stop) = iom_stopping now0 s
      in if stop then Some (Inr (s0, True))
         else case idle_wait waits s0 of
                None \<Rightarrow> None
              | Some (s1, evs) \<Rightarrow>
                  (case listExpiredCb now1 now2 [] (timers s1) of
                     None \<Rightarrow> None
                   | Some (t, cbs) \<Rightarrow>
                       (let s2 = schedule_expired cbs (s1\<lparr>timers := t\<rparr>)
                        in case idle_events addr tickle_fd (zip rts evs) s2 of
                             Inl err \<Rightarrow> Some (Inl err)
                           | Inr s3 \<Rightarrow> Some (Inr (s3, False)))))"

definition onTimerInsertedAtFront :: "'cb iomanager \<Rightarrow> 'cb iomanager" where
  "onTimerInsertedAtFront s = tickle (self s) s"

section \<open>Well-formedness\<close>

definition slot :: "Event \<Rightarrow> 'cb FdContext \<Rightarrow> 'cb EventContext" where
  "slot event c = (if event = READ then read_ctx c else write_ctx c)"

definition slot_ok :: "bool \<Rightarrow> 'cb EventContext \<Rightarrow> bool" where
  \<comment> \<open>a slot has exactly one waiter when its event is registered, and is empty otherwise\<close>
  "slot_ok registered x \<longleftrightarrow>
     (if registered then ev_scheduler x \<noteq> None \<and> (ev_fiber x = None) \<noteq> (ev_cb x = None) else x = EventContext_new)"

definition ctx_ok :: "'cb FdContext \<Rightarrow> bool" where
  "ctx_ok c \<longleftrightarrow> events c \<in> {NONE, READ, WRITE, READ OR WRITE}
     \<and> slot_ok (events c AND READ \<noteq> 0) (read_ctx c) \<and> slot_ok (events c AND WRITE \<noteq> 0) (write_ctx c)"

definition waits :: "'cb FdContext \<Rightarrow> nat" where
  "waits c = of_bool (events c AND READ \<noteq> 0) + of_bool (events c AND WRITE \<noteq> 0)"

definition iom_ok :: "'cb iomanager \<Rightarrow> bool" where
  "iom_ok s \<longleftrightarrow> 32 \<le> length (m_fdContexts s)
     \<and> (\<forall>i < length (m_fdContexts s). m_fdContexts s ! i < next_ptr s
          \<and> fd_no (ctxs s (m_fdContexts s ! i)) = int i)
     \<and> (\<forall>p < next_ptr s. ctx_ok (ctxs s p))
     \<and> m_pendingEventCount s = of_nat (\<Sum>p < next_ptr s. waits (ctxs s p))"

definition task_of :: "'cb EventContext \<Rightarrow> 'cb ScheduleTask" where
  "task_of x = (if ev_cb x \<noteq> None then ScheduleTask_cb (ev_cb x) (- 1) else ScheduleTask_fiber (ev_fiber x) (- 1))"

definition clear_slot :: "Event \<Rightarrow> 'cb FdContext \<Rightarrow> 'cb FdContext" where
  "clear_slot event c = set_event_context event EventContext_new (c\<lparr>events := events c AND NOT event\<rparr>)"

text \<open>The queue of a scheduler, as the operations here use it.\<close>

locale task_queue =
  fixes push :: "'t \<Rightarrow> 's \<Rightarrow> 's"
    and tasks :: "'s \<Rightarrow> 't list"
    and real :: "'t \<Rightarrow> bool"
  assumes tasks_push: "tasks (push t s) = (if real t then tasks s @ [t] else tasks s)"
begin

lemma tasks_pushes: "tasks (fold push ts s) = tasks s @ filter real ts"
  by (induction ts arbitrary: s) (auto simp: tasks_push)

lemma push_keeps: "x \<in> set (tasks s) \<Longrightarrow> x \<in> set (tasks (fold push ts s))"
  by (simp add: tasks_pushes)

end

definition real_task :: "'cb ScheduleTask \<Rightarrow> bool" where
  "real_task t \<longleftrightarrow> fiber t \<noteq> None \<or> cb t \<noteq> None"

abbreviation queue :: "nat \<Rightarrow> 'cb iomanager \<Rightarrow> 'cb ScheduleTask list" where
  "queue sid s \<equiv> m_tasks (scheds s sid)"

lemma tickle_frame [simp]:
  "scheds (tickle sid s) = scheds s" "ctxs (tickle sid s) = ctxs s" "next_ptr (tickle sid s) = next_ptr s"
  "m_fdContexts (tickle sid s) = m_fdContexts s" "m_pendingEventCount (tickle sid s) = m_pendingEventCount s"
  "timers (tickle sid s) = timers s" "ctl_log (tickle sid s) = ctl_log s" "self (tickle sid s) = self s"
  by (simp_all add: tickle_def)

lemma schedule_on_frame [simp]:
  "ctxs (schedule_on sid t s) = ctxs s" "next_ptr (schedule_on sid t s) = next_ptr s"
  "m_fdContexts (schedule_on sid t s) = m_fdContexts s"
  "m_pendingEventCount (schedule_on sid t s) = m_pendingEventCount s"
  "timers (schedule_on sid t s) = timers s" "ctl_log (schedule_on sid t s) = ctl_log s"
  "self (schedule_on sid t s) = self s"
  by (simp_all add: schedule_on_def Let_def split: prod.splits)

lemma schedule_on_pending:
  "schedule_on sid t (s\<lparr>m_pendingEventCount := n\<rparr>) = (schedule_on sid t s)\<lparr>m_pendingEventCount := n\<rparr>"
  by (cases s) (simp add: schedule_on_def tickle_def Let_def split: prod.splits)

lemma queue_schedule_on:
  "queue sid' (schedule_on sid t s) = (if sid' = sid \<and> real_task t then queue sid s @ [t] else queue sid' s)"
  by (auto simp: schedule_on_def scheduleLock_def real_task_def Let_def)

interpretation tq: task_queue "schedule_on sid" "queue sid" real_task for sid
  by unfold_locales (simp add: queue_schedule_on)

lemma real_task_of: "slot_ok True x \<Longrightarrow> real_task (task_of x)"
  by (auto simp: slot_ok_def real_task_def task_of_def ScheduleTask_cb_def ScheduleTask_fiber_def ScheduleTask_empty_def)

lemma ctx_ok_events:
  assumes "ctx_ok c"
  obtains "events c = 0" | "events c = 1" | "events c = 4" | "events c = 5"
proof -
  have "events c \<in> {0, 1, 4, 5}" using assms by (simp add: ctx_ok_def event_consts)
  then show thesis using that by blast
qed

lemma clear_slot_ok:
  assumes "ctx_ok c" and "event = READ \<or> event = WRITE" and "events c AND event \<noteq> 0"
  shows "ctx_ok (clear_slot event c) \<and> waits (clear_slot event c) + 1 = waits c
    \<and> events (clear_slot event c) = events c AND NOT event \<and> fd_no (clear_slot event c) = fd_no c"
  using assms
  by (cases rule: ctx_ok_events [OF assms(1)])
     (auto simp: ctx_ok_def clear_slot_def set_event_context_def slot_ok_def waits_def event_consts)

lemma slot_registered:
  assumes "ctx_ok c" and "event = READ \<or> event = WRITE" and "events c AND event \<noteq> 0"
  shows "slot_ok True (slot event c)"
  using assms by (auto simp: ctx_ok_def slot_def)

lemma resetEventContext_new: "resetEventContext x = EventContext_new"
  by (cases x) (simp add: resetEventContext_def EventContext_new_def)

lemma trigger_spec:
  assumes ok: "ctx_ok c" and ev: "event = READ \<or> event = WRITE" and reg: "events c AND event \<noteq> 0"
  shows "triggerEvent event c s =
    Inr (clear_slot event c, schedule_on (the (ev_scheduler (slot event c))) (task_of (slot event c)) s)"
proof -
  let ?c1 = "c\<lparr>events := events c AND NOT event\<rparr>"
  have so: "slot_ok True (slot event c)" by (rule slot_registered [OF ok ev reg])
  have g: "getEventContext event ?c1 = Inr (slot event c)"
    using ev by (auto simp: getEventContext_def slot_def event_consts)
  obtain sid where sid: "ev_scheduler (slot event c) = Some sid" using so by (auto simp: slot_ok_def)
  show ?thesis
    using reg by (simp add: triggerEvent_def g sid resetEventContext_new clear_slot_def ScheduleTask_cb_ptr_def
        ScheduleTask_fiber_ptr_def task_of_def ScheduleTask_cb_def ScheduleTask_fiber_def)
qed

lemma iom_ok_upd:
  assumes ok: "iom_ok s" and p: "p < next_ptr s" and c': "ctx_ok c'" "fd_no c' = fd_no (ctxs s p)"
    and n: "m_pendingEventCount s' + of_nat (waits (ctxs s p)) = m_pendingEventCount s + of_nat (waits c')"
    and s': "ctxs s' = (ctxs s)(p := c')" "next_ptr s' = next_ptr s" "m_fdContexts s' = m_fdContexts s"
  shows "iom_ok s'"
proof -
  have "(\<Sum>i < next_ptr s. waits (((ctxs s)(p := c')) i)) + waits (ctxs s p)
      = (\<Sum>i < next_ptr s. waits (ctxs s i)) + waits c'"
    using p by (intro sum_fun_upd) auto
  then have "of_nat (\<Sum>i < next_ptr s. waits (((ctxs s)(p := c')) i)) + of_nat (waits (ctxs s p))
      = (m_pendingEventCount s + of_nat (waits c') :: u64)"
    using ok by (simp only: iom_ok_def of_nat_add [symmetric])
  then have "m_pendingEventCount s' = of_nat (\<Sum>i < next_ptr s. waits (((ctxs s)(p := c')) i))"
    using n by (metis add_right_cancel)
  then show ?thesis
    using ok c' s' by (auto simp: iom_ok_def)
qed

lemma iom_ok_cong:
  assumes "iom_ok s" and "ctxs s' = ctxs s" "next_ptr s' = next_ptr s" "m_fdContexts s' = m_fdContexts s"
    "m_pendingEventCount s' = m_pendingEventCount s"
  shows "iom_ok s'"
  using assms by (simp add: iom_ok_def)

lemma log_ctl_frame [simp]:
  "ctxs (log_ctl op fd ev p rt s) = ctxs s" "next_ptr (log_ctl op fd ev p rt s) = next_ptr s"
  "m_fdContexts (log_ctl op fd ev p rt s) = m_fdContexts s"
  "m_pendingEventCount (log_ctl op fd ev p rt s) = m_pendingEventCount s"
  "scheds (log_ctl op fd ev p rt s) = scheds s" "pipes (log_ctl op fd ev p rt s) = pipes s"
  "timers (log_ctl op fd ev p rt s) = timers s" "self (log_ctl op fd ev p rt s) = self s"
  by (simp_all add: log_ctl_def)

lemma iom_ok_log: "iom_ok s \<Longrightarrow> iom_ok (log_ctl op fd ev p rt s)"
  by (erule iom_ok_cong) simp_all

section \<open>What each operation does\<close>

definition woken :: "nat \<Rightarrow> Event \<Rightarrow> 'cb iomanager \<Rightarrow> 'cb iomanager" where
  \<comment> \<open>the event is removed and its waiter is in the queue of the scheduler it came from\<close>
  "woken p event s =
     (let x = slot event (ctxs s p);
          s1 = schedule_on (the (ev_scheduler x)) (task_of x) s
      in s1\<lparr>ctxs := (ctxs s1)(p := clear_slot event (ctxs s p)),
            m_pendingEventCount := m_pendingEventCount s1 - 1\<rparr>)"

lemma iom_ok_ctx: "iom_ok s \<Longrightarrow> p < next_ptr s \<Longrightarrow> ctx_ok (ctxs s p)"
  by (simp add: iom_ok_def)

lemma woken_frame [simp]:
  "next_ptr (woken p event s) = next_ptr s" "m_fdContexts (woken p event s) = m_fdContexts s"
  "timers (woken p event s) = timers s" "ctl_log (woken p event s) = ctl_log s" "self (woken p event s) = self s"
  "ctxs (woken p event s) = (ctxs s)(p := clear_slot event (ctxs s p))"
  "m_pendingEventCount (woken p event s) = m_pendingEventCount s - 1"
  by (simp_all add: woken_def Let_def)

lemma queue_woken:
  assumes "iom_ok s" "p < next_ptr s" "event = READ \<or> event = WRITE" "events (ctxs s p) AND event \<noteq> 0"
  shows "queue sid (woken p event s) =
    (if ev_scheduler (slot event (ctxs s p)) = Some sid then queue sid s @ [task_of (slot event (ctxs s p))]
     else queue sid s)"
proof -
  have so: "slot_ok True (slot event (ctxs s p))"
    using assms by (intro slot_registered iom_ok_ctx)
  then have "real_task (task_of (slot event (ctxs s p)))" by (rule real_task_of)
  then show ?thesis
    using so by (auto simp: woken_def Let_def queue_schedule_on slot_ok_def)
qed

lemma woken_ok:
  assumes "iom_ok s" "p < next_ptr s" "event = READ \<or> event = WRITE" "events (ctxs s p) AND event \<noteq> 0"
  shows "iom_ok (woken p event s)"
proof -
  have c: "ctx_ok (clear_slot event (ctxs s p)) \<and> waits (clear_slot event (ctxs s p)) + 1 = waits (ctxs s p)
    \<and> fd_no (clear_slot event (ctxs s p)) = fd_no (ctxs s p)"
    using clear_slot_ok [OF iom_ok_ctx [OF assms(1,2)] assms(3,4)] by simp
  then have "of_nat (waits (ctxs s p)) = (of_nat (waits (clear_slot event (ctxs s p))) + 1 :: u64)"
    by (metis of_nat_1 of_nat_add)
  then show ?thesis
    using c by (intro iom_ok_upd [OF assms(1,2), of "clear_slot event (ctxs s p)"]) simp_all
qed

lemma trigger_if_spec:
  assumes "iom_ok s" "p < next_ptr s" "event = READ \<or> event = WRITE" "b \<Longrightarrow> events (ctxs s p) AND event \<noteq> 0"
  shows "trigger_if b event p s = Inr (if b then woken p event s else s)"
  using trigger_spec [OF iom_ok_ctx [OF assms(1,2)] assms(3)] assms(4)
  by (auto simp: trigger_if_def put_ctx_def woken_def Let_def)

lemma cancelEvent_locked_cases:
  assumes "iom_ok s" "p < next_ptr s" "event = READ \<or> event = WRITE"
  shows "cancelEvent_locked rt fd event p s =
    (if events (ctxs s p) AND event = 0 then Inr (False, s)
     else
       (let left_events = events (ctxs s p) AND NOT event;
            s1 = log_ctl (if left_events \<noteq> 0 then EPOLL_CTL_MOD else EPOLL_CTL_DEL) fd (EPOLLET OR left_events) p rt s
        in Inr (True, if rt \<noteq> 0 then s1 else woken p event s1)))"
proof (cases "events (ctxs s p) AND event = 0")
  case False
  note t = trigger_spec [OF iom_ok_ctx [OF assms(1,2)] assms(3) False]
  show ?thesis
    using False by (simp add: cancelEvent_locked_def Let_def t put_ctx_def woken_def schedule_on_pending)
qed (simp add: cancelEvent_locked_def)

lemma delEvent_locked_cases:
  assumes "event = READ \<or> event = WRITE"
  shows "delEvent_locked rt fd event p s =
    (if events (ctxs s p) AND event = 0 then Inr (False, s)
     else
       (let left_events = events (ctxs s p) AND NOT event;
            s1 = log_ctl (if left_events \<noteq> 0 then EPOLL_CTL_MOD else EPOLL_CTL_DEL) fd (EPOLLET OR left_events) p rt s
        in Inr (True, if rt \<noteq> 0 then s1
                      else s1\<lparr>m_pendingEventCount := m_pendingEventCount s - 1,
                              ctxs := (ctxs s)(p := clear_slot event (ctxs s p))\<rparr>)))"
  using assms
  by (auto simp: delEvent_locked_def Let_def getEventContext_def clear_slot_def resetEventContext_new)

lemma clear_slot_both:
  "ctx_ok c \<Longrightarrow> events c AND READ \<noteq> 0 \<Longrightarrow>
     (events (clear_slot READ c) AND WRITE = 0) = (events c AND WRITE = 0)"
  by (erule ctx_ok_events) (simp_all add: clear_slot_def set_event_context_def event_consts)

lemma events_clear_slot [simp]: "events (clear_slot event c) = events c AND NOT event"
  by (simp add: clear_slot_def set_event_context_def)

definition woken_set :: "Event \<Rightarrow> nat \<Rightarrow> 'cb iomanager \<Rightarrow> 'cb iomanager" where
  \<comment> \<open>the waiters of the events in the msk are woken, the reader first\<close>
  "woken_set msk p s =
     (let s1 = (if msk AND READ \<noteq> 0 then woken p READ s else s)
      in if msk AND WRITE \<noteq> 0 then woken p WRITE s1 else s1)"

lemma woken_set_frame [simp]:
  "next_ptr (woken_set msk p s) = next_ptr s" "m_fdContexts (woken_set msk p s) = m_fdContexts s"
  "timers (woken_set msk p s) = timers s" "ctl_log (woken_set msk p s) = ctl_log s"
  "self (woken_set msk p s) = self s"
  by (simp_all add: woken_set_def Let_def)

lemma events_after_read:
  assumes "ctx_ok c"
  shows "(events c AND NOT READ) AND WRITE = events c AND WRITE"
  using assms by (rule ctx_ok_events) (simp_all add: event_consts)

lemma events_after_all:
  assumes "ctx_ok c"
  shows "(events c AND NOT READ) AND NOT WRITE = 0" "events c AND READ = 0 \<Longrightarrow> events c AND NOT WRITE = 0"
    "events c AND WRITE = 0 \<Longrightarrow> events c AND NOT READ = 0"
    "events c AND READ = 0 \<Longrightarrow> events c AND WRITE = 0 \<Longrightarrow> events c = 0"
  by (rule ctx_ok_events [OF assms]; simp add: event_consts)+

lemma events_subset:
  assumes "ctx_ok c" "msk AND NOT (events c) = 0"
  shows "msk AND READ \<noteq> 0 \<Longrightarrow> events c AND READ \<noteq> 0" "msk AND WRITE \<noteq> 0 \<Longrightarrow> events c AND WRITE \<noteq> 0"
proof -
  have *: "events c AND e \<noteq> 0" if "msk AND e \<noteq> 0" for e
  proof
    assume z: "events c AND e = 0"
    have "msk AND e = msk AND (events c AND e)"
    proof (rule bit_word_eqI)
      fix n
      assume "n < LENGTH(32)"
      moreover have "\<not> bit (msk AND NOT (events c)) n" using assms(2) by simp
      ultimately show "bit (msk AND e) n = bit (msk AND (events c AND e)) n"
        by (auto simp: bit_simps)
    qed
    with z that show False by simp
  qed
  show "msk AND READ \<noteq> 0 \<Longrightarrow> events c AND READ \<noteq> 0" by (rule *)
  show "msk AND WRITE \<noteq> 0 \<Longrightarrow> events c AND WRITE \<noteq> 0" by (rule *)
qed

lemma woken_set_ok:
  assumes "iom_ok s" "p < next_ptr s" "msk AND NOT (events (ctxs s p)) = 0"
  shows "iom_ok (woken_set msk p s)"
  using assms woken_ok [OF assms(1,2), of READ] woken_ok [OF assms(1,2), of WRITE]
    woken_ok [of "woken p READ s" p WRITE] events_after_read [OF iom_ok_ctx [OF assms(1,2)]]
    events_subset [OF iom_ok_ctx [OF assms(1,2)] assms(3)]
  by (auto simp: woken_set_def Let_def)

lemma trigger_both:
  assumes "iom_ok s" "p < next_ptr s" "msk AND NOT (events (ctxs s p)) = 0"
  shows "\<exists>s1. trigger_if (msk AND READ \<noteq> 0) READ p s = Inr s1
    \<and> trigger_if (msk AND WRITE \<noteq> 0) WRITE p s1 = Inr (woken_set msk p s)
    \<and> events (ctxs s1 p) AND WRITE = events (ctxs s p) AND WRITE"
proof -
  let ?s1 = "if msk AND READ \<noteq> 0 then woken p READ s else s"
  have c: "ctx_ok (ctxs s p)" using assms(1,2) by (rule iom_ok_ctx)
  note sub = events_subset [OF c assms(3)]
  have ok1: "iom_ok ?s1" "p < next_ptr ?s1" using woken_ok [OF assms(1,2), of READ] sub assms by auto
  have w: "events (ctxs ?s1 p) AND WRITE = events (ctxs s p) AND WRITE"
    using events_after_read [OF c] by simp
  have t1: "trigger_if (msk AND READ \<noteq> 0) READ p s = Inr ?s1"
    using trigger_if_spec [OF assms(1,2), of READ] sub by simp
  have t2: "trigger_if (msk AND WRITE \<noteq> 0) WRITE p ?s1 = Inr (woken_set msk p s)"
    using trigger_if_spec [OF ok1, of WRITE] sub w by (simp add: woken_set_def Let_def)
  from t1 t2 w show ?thesis by blast
qed

lemma events_woken_set:
  assumes "ctx_ok (ctxs s p)"
  shows "events (ctxs (woken_set (events (ctxs s p)) p s) p) = 0"
  using events_after_all [OF assms] by (simp add: woken_set_def Let_def)

lemma cancelAll_locked_cases:
  assumes ok: "iom_ok s" and p: "p < next_ptr s"
  shows "cancelAll_locked rt fd p s =
    (if events (ctxs s p) = 0 then Inr (False, s)
     else (let s1 = log_ctl EPOLL_CTL_DEL fd 0 p rt s
           in Inr (True, if rt \<noteq> 0 then s1 else woken_set (events (ctxs s p)) p s1)))"
proof (cases "events (ctxs s p) = 0 \<or> rt \<noteq> 0")
  case True
  then show ?thesis by (auto simp: cancelAll_locked_def Let_def)
next
  case False
  let ?s1 = "log_ctl EPOLL_CTL_DEL fd 0 p rt s"
  have sub: "events (ctxs s p) AND NOT (events (ctxs s p)) = 0" by simp
  obtain s2 where t: "trigger_if (events (ctxs s p) AND READ \<noteq> 0) READ p ?s1 = Inr s2"
    "trigger_if (events (ctxs s p) AND WRITE \<noteq> 0) WRITE p s2 = Inr (woken_set (events (ctxs s p)) p ?s1)"
    "events (ctxs s2 p) AND WRITE = events (ctxs s p) AND WRITE"
    using trigger_both [of ?s1 p "events (ctxs s p)"] iom_ok_log [OF ok] p sub by auto
  have "events (ctxs (woken_set (events (ctxs s p)) p ?s1) p) = 0"
    using events_woken_set [of ?s1 p] iom_ok_ctx [OF ok p] by simp
  then show ?thesis
    using False t by (simp add: cancelAll_locked_def Let_def)
qed

lemma addEvent_locked_cases:
  assumes "iom_ok s" "p < next_ptr s" "event = READ \<or> event = WRITE" "fiber_running me"
  shows "addEvent_locked me rt fd p event cbk s =
    (if events (ctxs s p) AND event \<noteq> 0 then Inr (- 1, s)
     else
       (let c = ctxs s p;
            s1 = log_ctl (if events c \<noteq> 0 then EPOLL_CTL_MOD else EPOLL_CTL_ADD) fd (EPOLLET OR events c OR event) p rt s
        in if rt \<noteq> 0 then Inr (- 1, s1)
           else Inr (0, s1\<lparr>m_pendingEventCount := m_pendingEventCount s + 1,
                  ctxs := (ctxs s)(p := set_event_context event
                    \<lparr>ev_scheduler = this_sched me, ev_fiber = (if cbk = None then Some (this_fiber me) else None),
                     ev_cb = cbk\<rparr> (c\<lparr>events := events c OR event\<rparr>))\<rparr>)))"
proof (cases "events (ctxs s p) AND event \<noteq> 0")
  case False
  have "slot_ok (events (ctxs s p) AND READ \<noteq> 0) (read_ctx (ctxs s p))"
    "slot_ok (events (ctxs s p) AND WRITE \<noteq> 0) (write_ctx (ctxs s p))"
    using iom_ok_ctx [OF assms(1,2)] by (simp_all only: ctx_ok_def)
  then have "getEventContext event (ctxs s p\<lparr>events := e\<rparr>) = Inr EventContext_new" for e
    using False assms(3) by (cases "event = READ") (simp_all add: getEventContext_def slot_ok_def)
  then show ?thesis
    using False assms(4) by (simp add: addEvent_locked_def Let_def EventContext_new_def)
qed (simp add: addEvent_locked_def)

lemma addEvent_ctx_ok:
  assumes "ctx_ok c" "event = READ \<or> event = WRITE" "events c AND event = 0" "slot_ok True x"
  shows "ctx_ok (set_event_context event x (c\<lparr>events := events c OR event\<rparr>))
    \<and> waits (set_event_context event x (c\<lparr>events := events c OR event\<rparr>)) = waits c + 1
    \<and> fd_no (set_event_context event x (c\<lparr>events := events c OR event\<rparr>)) = fd_no c"
  using assms
  by (cases rule: ctx_ok_events [OF assms(1)])
     (auto simp: ctx_ok_def set_event_context_def waits_def event_consts)

section \<open>The table\<close>

lemma fill_frame:
  "fill_contexts i ps s = (qs, s') \<Longrightarrow>
     length qs = length ps \<and> next_ptr s \<le> next_ptr s' \<and> (\<forall>p < next_ptr s. ctxs s' p = ctxs s p)
     \<and> scheds s' = scheds s \<and> pipes s' = pipes s \<and> timers s' = timers s \<and> ctl_log s' = ctl_log s
     \<and> m_pendingEventCount s' = m_pendingEventCount s \<and> self s' = self s \<and> m_fdContexts s' = m_fdContexts s"
proof (induction i ps s arbitrary: qs s' rule: fill_contexts.induct)
  case (1 i s)
  then show ?case by simp
next
  case (2 i q ps s)
  from 2(2) obtain rs where f: "fill_contexts (Suc i) ps s = (rs, s')" and qs: "qs = q # rs"
    by (auto simp: Let_def split: prod.splits)
  show ?case using 2(1) [OF f] qs by simp
next
  case (3 i ps s)
  let ?s1 = "s\<lparr>ctxs := (ctxs s)(next_ptr s := FdContext_new i), next_ptr := Suc (next_ptr s)\<rparr>"
  from 3(2) obtain rs where f: "fill_contexts (Suc i) ps ?s1 = (rs, s')" and qs: "qs = next_ptr s # rs"
    by (auto simp: Let_def split: prod.splits)
  show ?case using 3(1) [OF refl refl f] qs by simp
qed

lemma fill_new:
  "fill_contexts i ps s = (qs, s') \<Longrightarrow> next_ptr s \<le> p \<Longrightarrow> p < next_ptr s' \<Longrightarrow> \<exists>j. ctxs s' p = FdContext_new j"
proof (induction i ps s arbitrary: qs s' rule: fill_contexts.induct)
  case (1 i s)
  then show ?case by simp
next
  case (2 i q ps s)
  then show ?case by (auto simp: Let_def split: prod.splits)
next
  case (3 i ps s)
  let ?s1 = "s\<lparr>ctxs := (ctxs s)(next_ptr s := FdContext_new i), next_ptr := Suc (next_ptr s)\<rparr>"
  obtain rs where f: "fill_contexts (Suc i) ps ?s1 = (rs, s')"
    using 3 by (auto simp: Let_def split: prod.splits)
  show ?case
  proof (cases "p = next_ptr s")
    case True
    then show ?thesis using fill_frame [OF f] by (intro exI [of _ i]) simp
  next
    case False
    then show ?thesis using 3(1) [OF refl refl f] 3(3,4) by simp
  qed
qed

lemma fill_nth:
  "fill_contexts i ps s = (qs, s') \<Longrightarrow> j < length ps \<Longrightarrow>
     (case ps ! j of Some p \<Rightarrow> qs ! j = p
      | None \<Rightarrow> next_ptr s \<le> qs ! j \<and> qs ! j < next_ptr s' \<and> ctxs s' (qs ! j) = FdContext_new (i + j))"
proof (induction i ps s arbitrary: qs s' j rule: fill_contexts.induct)
  case (1 i s)
  then show ?case by simp
next
  case (2 i q ps s)
  then obtain rs where f: "fill_contexts (Suc i) ps s = (rs, s')" and qs: "qs = q # rs"
    by (auto simp: Let_def split: prod.splits)
  show ?case
  proof (cases j)
    case 0
    then show ?thesis using qs by simp
  next
    case (Suc k)
    then show ?thesis using 2(1) [OF f, of k] 2(3) qs by (simp split: option.splits)
  qed
next
  case (3 i ps s)
  let ?s1 = "s\<lparr>ctxs := (ctxs s)(next_ptr s := FdContext_new i), next_ptr := Suc (next_ptr s)\<rparr>"
  obtain rs where f: "fill_contexts (Suc i) ps ?s1 = (rs, s')" and qs: "qs = next_ptr s # rs"
    using 3 by (auto simp: Let_def split: prod.splits)
  show ?case
  proof (cases j)
    case 0
    then show ?thesis using qs fill_frame [OF f] by simp
  next
    case (Suc k)
    then show ?thesis using 3(1) [OF refl refl f, of k] 3(3) qs by (simp split: option.splits)
  qed
qed

lemma FdContext_new_ok: "ctx_ok (FdContext_new i)" "waits (FdContext_new i) = 0" "fd_no (FdContext_new i) = int i"
  by (simp_all add: ctx_ok_def waits_def FdContext_new_def slot_ok_def NONE_def)

definition table_ok :: "'cb iomanager \<Rightarrow> bool" where
  \<comment> \<open>the invariant without the minimal size\<close>
  "table_ok s \<longleftrightarrow>
     (\<forall>i < length (m_fdContexts s). m_fdContexts s ! i < next_ptr s \<and> fd_no (ctxs s (m_fdContexts s ! i)) = int i)
     \<and> (\<forall>p < next_ptr s. ctx_ok (ctxs s p))
     \<and> m_pendingEventCount s = of_nat (\<Sum>p < next_ptr s. waits (ctxs s p))"

lemma iom_ok_table: "iom_ok s \<longleftrightarrow> 32 \<le> length (m_fdContexts s) \<and> table_ok s"
  by (auto simp: iom_ok_def table_ok_def)

lemma contextResize_spec:
  assumes ok: "table_ok s"
  shows "table_ok (contextResize n s) \<and> length (m_fdContexts (contextResize n s)) = n
    \<and> (\<forall>i < n. (if i < length (m_fdContexts s) then m_fdContexts (contextResize n s) ! i = m_fdContexts s ! i
                else ctxs (contextResize n s) (m_fdContexts (contextResize n s) ! i) = FdContext_new i))
    \<and> (\<forall>p < next_ptr s. ctxs (contextResize n s) p = ctxs s p) \<and> next_ptr s \<le> next_ptr (contextResize n s)
    \<and> scheds (contextResize n s) = scheds s \<and> timers (contextResize n s) = timers s \<and> self (contextResize n s) = self s
    \<and> ctl_log (contextResize n s) = ctl_log s \<and> m_pendingEventCount (contextResize n s) = m_pendingEventCount s"
proof -
  let ?ptrs = "vector_resize n None (map Some (m_fdContexts s))"
  obtain ps s' where f: "fill_contexts 0 ?ptrs s = (ps, s')" by (cases "fill_contexts 0 ?ptrs s")
  have r: "contextResize n s = s'\<lparr>m_fdContexts := ps\<rparr>" by (simp add: contextResize_def f)
  note fr = fill_frame [OF f]
  have nth: "if i < length (m_fdContexts s) then ps ! i = m_fdContexts s ! i
      else next_ptr s \<le> ps ! i \<and> ps ! i < next_ptr s' \<and> ctxs s' (ps ! i) = FdContext_new i" if "i < n" for i
    using fill_nth [OF f, of i] that by (simp add: nth_vector_resize split: if_splits)
  have new: "ctx_ok (ctxs s' p) \<and> waits (ctxs s' p) = 0" if "next_ptr s \<le> p" "p < next_ptr s'" for p
    using fill_new [OF f that] FdContext_new_ok by auto
  have "(\<Sum>p < next_ptr s'. waits (ctxs s' p)) = (\<Sum>p < next_ptr s. waits (ctxs s' p))"
    using fr new by (intro sum.mono_neutral_right) auto
  also have "\<dots> = (\<Sum>p < next_ptr s. waits (ctxs s p))" using fr by simp
  finally have "m_pendingEventCount s' = of_nat (\<Sum>p < next_ptr s'. waits (ctxs s' p))"
    using ok fr by (simp add: table_ok_def)
  moreover have "\<forall>i < n. ps ! i < next_ptr s' \<and> fd_no (ctxs s' (ps ! i)) = int i"
  proof (intro allI impI)
    fix i
    assume "i < n"
    then show "ps ! i < next_ptr s' \<and> fd_no (ctxs s' (ps ! i)) = int i"
      using nth [of i] ok fr by (cases "i < length (m_fdContexts s)")
        (auto simp: table_ok_def FdContext_new_ok dest: order.strict_trans2)
  qed
  moreover have "\<forall>p < next_ptr s'. ctx_ok (ctxs s' p)"
  proof (intro allI impI)
    fix p
    assume "p < next_ptr s'"
    then show "ctx_ok (ctxs s' p)"
      using new [of p] ok fr by (cases "p < next_ptr s") (auto simp: table_ok_def)
  qed
  moreover have "\<forall>i < n. (if i < length (m_fdContexts s) then ps ! i = m_fdContexts s ! i
      else ctxs s' (ps ! i) = FdContext_new i)"
    using nth by auto
  ultimately show ?thesis
    using fr by (simp add: r table_ok_def)
qed

lemmas contextResize_facts =
  contextResize_spec [THEN conjunct1]
  contextResize_spec [THEN conjunct2, THEN conjunct1]
  contextResize_spec [THEN conjunct2, THEN conjunct2, THEN conjunct1, rule_format]
  contextResize_spec [THEN conjunct2, THEN conjunct2, THEN conjunct2, THEN conjunct1, rule_format]

lemma contextResize_keeps:
  assumes "table_ok s" "i < n" "i < length (m_fdContexts s)"
  shows "m_fdContexts (contextResize n s) ! i = m_fdContexts s ! i"
    "ctxs (contextResize n s) (m_fdContexts s ! i) = ctxs s (m_fdContexts s ! i)"
  using assms contextResize_facts(3,4) [OF assms(1)] by (auto simp: table_ok_def)

lemma contextResize_fresh:
  assumes "table_ok s" "i < n" "length (m_fdContexts s) \<le> i"
  shows "ctxs (contextResize n s) (m_fdContexts (contextResize n s) ! i) = FdContext_new i"
  using assms contextResize_facts(3) [OF assms(1,2)] by simp

lemma contextResize_frame:
  assumes "table_ok s"
  shows "scheds (contextResize n s) = scheds s" "timers (contextResize n s) = timers s"
    "self (contextResize n s) = self s" "ctl_log (contextResize n s) = ctl_log s"
    "m_pendingEventCount (contextResize n s) = m_pendingEventCount s"
    "next_ptr s \<le> next_ptr (contextResize n s)"
  using contextResize_spec [OF assms, of n] by simp_all

lemma IOManager_new_ok: "iom_ok (IOManager_new me sch now)"
proof -
  let ?s = "\<lparr>self = me, scheds = sch, pipes = (\<lambda>_. 0), timers = TimerManager_new now,
        ctxs = (\<lambda>_. FdContext_new 0), next_ptr = 0, m_fdContexts = [], m_pendingEventCount = 0, ctl_log = []\<rparr>"
  have "table_ok ?s" by (simp add: table_ok_def)
  then show ?thesis using contextResize_spec [of ?s 32] by (simp add: IOManager_new_def iom_ok_table)
qed

definition ensure_ctx :: "nat \<Rightarrow> 'cb iomanager \<Rightarrow> 'cb iomanager" where
  \<comment> \<open>the table \<open>addEvent\<close> works on: \<open>grow_ctx\<close> where \<open>find_ctx\<close> finds none\<close>
  "ensure_ctx i s = (if length (m_fdContexts s) \<le> i then contextResize (grow_size i) s else s)"

lemma ensure_ctx_ok: "iom_ok s \<Longrightarrow> iom_ok (ensure_ctx i s)"
  using contextResize_spec [of s "grow_size i"] by (auto simp: ensure_ctx_def iom_ok_table grow_size_def)

definition contexts :: "'cb iomanager \<Rightarrow> 'cb FdContext list" where
  "contexts s = map (ctxs s) (m_fdContexts s)"

interpretation ct: growing_table contexts ensure_ctx FdContext_new iom_ok
proof unfold_locales
  fix s :: "'a iomanager" and i fd
  assume ok: "iom_ok s"
  then have t: "table_ok s" "32 \<le> length (m_fdContexts s)" by (simp_all add: iom_ok_table)
  have g: "length (m_fdContexts s) \<le> fd \<Longrightarrow> fd < grow_size fd" using t(2) by (simp add: grow_size_def)
  show "iom_ok (ensure_ctx fd s)" using ok by (rule ensure_ctx_ok)
  show "fd < length (contexts (ensure_ctx fd s))"
    using g contextResize_facts(2) [OF t(1)] by (simp add: contexts_def ensure_ctx_def)
  show "i < length (contexts s) \<Longrightarrow> contexts (ensure_ctx fd s) ! i = contexts s ! i"
    using g contextResize_keeps [OF t(1), of i "grow_size fd"] contextResize_facts(2) [OF t(1), of "grow_size fd"]
    by (cases "length (m_fdContexts s) \<le> fd") (simp_all add: contexts_def ensure_ctx_def)
  show "length (contexts s) \<le> i \<Longrightarrow> i < length (contexts (ensure_ctx fd s)) \<Longrightarrow>
      contexts (ensure_ctx fd s) ! i = FdContext_new i"
    using contextResize_fresh [OF t(1), of i "grow_size fd"] contextResize_facts(2) [OF t(1), of "grow_size fd"]
    by (simp add: contexts_def ensure_ctx_def split: if_splits)
  show "length (contexts s) \<le> length (contexts (ensure_ctx fd s))"
    using g contextResize_facts(2) [OF t(1), of "grow_size fd"] by (auto simp: contexts_def ensure_ctx_def)
qed

abbreviation ctx_of :: "'cb iomanager \<Rightarrow> nat \<Rightarrow> 'cb FdContext" where
  "ctx_of \<equiv> ct.entry"

lemma ctx_of_nth: "i < length (m_fdContexts s) \<Longrightarrow> ctx_of s i = ctxs s (m_fdContexts s ! i)"
  by (simp add: ct.entry_def contexts_def)

lemma addEvent_ensure:
  assumes "iom_ok s" "0 \<le> fd"
  shows "addEvent me rt fd event cbk s =
    (let s1 = ensure_ctx (nat fd) s in addEvent_locked me rt fd (m_fdContexts s1 ! nat fd) event cbk s1)"
proof (cases "fd < int (length (m_fdContexts s))")
  case True
  then have "\<not> length (m_fdContexts s) \<le> nat fd" using assms(2) by linarith
  then show ?thesis using True assms by (simp add: addEvent_def find_ctx_def ensure_ctx_def Let_def)
next
  case False
  have "nat fd < length (m_fdContexts (ensure_ctx (nat fd) s))"
    using ct.ensure_covers [OF assms(1), of "nat fd"] by (simp add: contexts_def)
  then show ?thesis
    using False assms(2) by (simp add: addEvent_def find_ctx_def grow_ctx_def ensure_ctx_def Let_def nat_le_iff split: if_splits)
qed

section \<open>The event loop\<close>

lemma real_events_range: "real_events e \<in> {0, 1, 4, 5}"
  by (simp add: real_events_def event_consts Let_def)

lemma idle_event_cases:
  assumes ok: "iom_ok s" and p: "p < next_ptr s" and t: "data_fd addr tickle_fd (CtxData p) \<noteq> tickle_fd"
  shows "idle_event addr tickle_fd rt (ev, CtxData p) s =
    (let c = ctxs s p;
         real = real_events (ready_mask ev c);
         left_events = events c AND NOT real;
         s1 = log_ctl (if left_events \<noteq> 0 then EPOLL_CTL_MOD else EPOLL_CTL_DEL) (fd_no c) (EPOLLET OR left_events) p rt s
     in if events c AND real = 0 then Inr s
        else if rt \<noteq> 0 then Inr s1
        else if real AND NOT (events c) = 0 then Inr (woken_set real p s1) else Inl AssertFailed)"
proof -
  define real where "real = real_events (ready_mask ev (ctxs s p))"
  define left where "left = events (ctxs s p) AND NOT real"
  define s1 where "s1 = log_ctl (if left \<noteq> 0 then EPOLL_CTL_MOD else EPOLL_CTL_DEL) (fd_no (ctxs s p))
    (EPOLLET OR left) p rt s"
  have ok1: "iom_ok s1" "p < next_ptr s1" and c1: "ctxs s1 = ctxs s"
    using ok p by (simp_all add: s1_def iom_ok_log)
  have c: "ctx_ok (ctxs s p)" using ok p by (rule iom_ok_ctx)
  have tr: "(case trigger_if (real AND READ \<noteq> 0) READ p s1 of
               Inl err \<Rightarrow> Inl err | Inr s2 \<Rightarrow> trigger_if (real AND WRITE \<noteq> 0) WRITE p s2)
     = (if real AND NOT (events (ctxs s p)) = 0 then Inr (woken_set real p s1) else Inl AssertFailed)"
    if hit: "events (ctxs s p) AND real \<noteq> 0"
  proof (cases "real AND NOT (events (ctxs s p)) = 0")
    case True
    then show ?thesis using trigger_both [OF ok1, of real] c1 by auto
  next
    case False
    have "real \<in> {0, 1, 4, 5}" unfolding real_def by (rule real_events_range)
    then consider "events (ctxs s p) AND READ = 0" "real AND READ \<noteq> 0"
      | "events (ctxs s p) AND WRITE = 0" "real AND WRITE \<noteq> 0" "events (ctxs s p) AND READ \<noteq> 0" "real AND READ \<noteq> 0"
      using False hit by (cases rule: ctx_ok_events [OF c]) (auto simp: event_consts)
    then show ?thesis
    proof cases
      case 1
      then show ?thesis using False c1 by (simp add: trigger_if_def triggerEvent_def)
    next
      case 2
      have "trigger_if (real AND READ \<noteq> 0) READ p s1 = Inr (woken p READ s1)"
        using trigger_if_spec [OF ok1, of READ "real AND READ \<noteq> 0"] 2 c1 by simp
      moreover have "events (ctxs (woken p READ s1) p) AND WRITE = 0"
        using events_after_read [OF c] 2 c1 by simp
      ultimately show ?thesis using False 2 by (simp add: trigger_if_def triggerEvent_def)
    qed
  qed
  have "idle_event addr tickle_fd rt (ev, CtxData p) s =
      (if events (ctxs s p) AND real = 0 then Inr s
       else if rt \<noteq> 0 then Inr s1
       else case trigger_if (real AND READ \<noteq> 0) READ p s1 of
              Inl err \<Rightarrow> Inl err | Inr s2 \<Rightarrow> trigger_if (real AND WRITE \<noteq> 0) WRITE p s2)"
    using t by (simp only: idle_event_def snd_conv fst_conv event_data.case Let_def real_def left_def s1_def
        NONE_def if_False if_not_P)
  then show ?thesis
    using tr unfolding real_def [symmetric] left_def [symmetric] s1_def [symmetric] Let_def
    by (cases "events (ctxs s p) AND real = 0") simp_all
qed

section \<open>Interleavings of the critical sections\<close>

text \<open>
  One step is one critical section: an operation on any context that was ever handed out
  (a thread may have looked the context up before another one resized the table), the
  resize of \<open>addEvent\<close>, or a change to the schedulers and timers made elsewhere.
\<close>

definition caller_ok :: "caller \<Rightarrow> bool" where
  \<comment> \<open>the calling thread works for a scheduler and runs in a fiber\<close>
  "caller_ok me \<longleftrightarrow> this_sched me \<noteq> None \<and> fiber_running me"

definition rw :: "Event \<Rightarrow> bool" where
  "rw event \<longleftrightarrow> event = READ \<or> event = WRITE"

inductive iom_step :: "'cb iomanager \<Rightarrow> 'cb iomanager \<Rightarrow> bool" where
  is_grow: "32 \<le> fd \<Longrightarrow> grow_ctx fd s = Inr (p, s') \<Longrightarrow> iom_step s s'"
| is_add: "p < next_ptr s \<Longrightarrow> rw event \<Longrightarrow> caller_ok me \<Longrightarrow>
     addEvent_locked me rt (fd_no (ctxs s p)) p event cbk s = Inr (r, s') \<Longrightarrow> iom_step s s'"
| is_del: "p < next_ptr s \<Longrightarrow> rw event \<Longrightarrow>
     delEvent_locked rt (fd_no (ctxs s p)) event p s = Inr (b, s') \<Longrightarrow> iom_step s s'"
| is_cancel: "p < next_ptr s \<Longrightarrow> rw event \<Longrightarrow>
     cancelEvent_locked rt (fd_no (ctxs s p)) event p s = Inr (b, s') \<Longrightarrow> iom_step s s'"
| is_cancelAll: "p < next_ptr s \<Longrightarrow>
     cancelAll_locked rt (fd_no (ctxs s p)) p s = Inr (b, s') \<Longrightarrow> iom_step s s'"
| is_event: "p < next_ptr s \<Longrightarrow> idle_event addr tickle_fd rt (ev, CtxData p) s = Inr s' \<Longrightarrow> iom_step s s'"
| is_other: "iom_step s (s\<lparr>scheds := x, pipes := y, timers := z\<rparr>)"

inductive iom_start :: "'cb iomanager \<Rightarrow> bool" where
  "iom_start (IOManager_new me sch now)"

lemma addEvent_locked_ok:
  assumes ok: "iom_ok s" and p: "p < next_ptr s" and ev: "rw event" and me: "caller_ok me"
    and r: "addEvent_locked me rt fd p event cbk s = Inr (r, s')"
  shows "iom_ok s'"
proof (cases "events (ctxs s p) AND event \<noteq> 0 \<or> rt \<noteq> 0")
  case True
  then show ?thesis
    using r addEvent_locked_cases [OF ok p, of event me rt fd cbk] ev me ok
    by (auto simp: rw_def caller_ok_def Let_def iom_ok_log split: if_splits)
next
  case False
  let ?x = "\<lparr>ev_scheduler = this_sched me, ev_fiber = (if cbk = None then Some (this_fiber me) else None), ev_cb = cbk\<rparr>"
  let ?c = "set_event_context event ?x ((ctxs s p)\<lparr>events := events (ctxs s p) OR event\<rparr>)"
  have "ctx_ok ?c \<and> waits ?c = waits (ctxs s p) + 1 \<and> fd_no ?c = fd_no (ctxs s p)"
    using ev me False
    by (intro addEvent_ctx_ok iom_ok_ctx [OF ok p]) (auto simp: rw_def caller_ok_def slot_ok_def)
  then show ?thesis
    using r addEvent_locked_cases [OF ok p, of event me rt fd cbk] ev me False
    by (intro iom_ok_upd [OF ok p, of ?c]) (auto simp: rw_def caller_ok_def Let_def)
qed

lemma delEvent_locked_ok:
  assumes ok: "iom_ok s" and p: "p < next_ptr s" and ev: "rw event"
    and r: "delEvent_locked rt fd event p s = Inr (b, s')"
  shows "iom_ok s'"
proof (cases "events (ctxs s p) AND event = 0 \<or> rt \<noteq> 0")
  case True
  then show ?thesis
    using r delEvent_locked_cases [of event rt fd p s] ev ok
    by (auto simp: rw_def Let_def iom_ok_log split: if_splits)
next
  case False
  have c: "ctx_ok (clear_slot event (ctxs s p)) \<and> waits (clear_slot event (ctxs s p)) + 1 = waits (ctxs s p)
    \<and> fd_no (clear_slot event (ctxs s p)) = fd_no (ctxs s p)"
    using clear_slot_ok [OF iom_ok_ctx [OF ok p], of event] ev False by (simp add: rw_def)
  then have "of_nat (waits (ctxs s p)) = (of_nat (waits (clear_slot event (ctxs s p))) + 1 :: u64)"
    by (metis of_nat_1 of_nat_add)
  then show ?thesis
    using r c delEvent_locked_cases [of event rt fd p s] ev False
    by (intro iom_ok_upd [OF ok p, of "clear_slot event (ctxs s p)"]) (auto simp: rw_def Let_def)
qed

lemma cancelEvent_locked_ok:
  assumes "iom_ok s" and "p < next_ptr s" and "rw event"
    and "cancelEvent_locked rt fd event p s = Inr (b, s')"
  shows "iom_ok s'"
  using assms cancelEvent_locked_cases [OF assms(1,2), of event rt fd]
    woken_ok [OF iom_ok_log [OF assms(1)], where p = p and event = event]
  by (auto simp: rw_def Let_def iom_ok_log split: if_splits)

lemma cancelAll_locked_ok:
  assumes "iom_ok s" and "p < next_ptr s" and "cancelAll_locked rt fd p s = Inr (b, s')"
  shows "iom_ok s'"
proof -
  have "iom_ok (woken_set (events (ctxs s p)) p (log_ctl EPOLL_CTL_DEL fd 0 p rt s))"
    using assms by (intro woken_set_ok iom_ok_log) simp_all
  then show ?thesis
    using assms cancelAll_locked_cases [OF assms(1,2), of rt fd]
    by (auto simp: Let_def iom_ok_log split: if_splits)
qed

lemma idle_event_ok:
  assumes "iom_ok s" and "p < next_ptr s" and "idle_event addr tickle_fd rt (ev, CtxData p) s = Inr s'"
  shows "iom_ok s'"
proof (cases "data_fd addr tickle_fd (CtxData p) = tickle_fd")
  case True
  then show ?thesis using assms by (auto simp: idle_event_def intro: iom_ok_cong)
next
  case False
  show ?thesis
    using assms(3) woken_set_ok [OF iom_ok_log [OF assms(1)], where p = p] assms(1,2)
    unfolding idle_event_cases [OF assms(1,2) False]
    by (auto simp: Let_def iom_ok_log split: if_splits)
qed

lemma grow_ctx_ok:
  assumes "iom_ok s" and "32 \<le> fd" and "grow_ctx fd s = Inr (p, s')"
  shows "iom_ok s'"
  using assms contextResize_facts(1,2) [of s "grow_size (nat fd)"]
  by (auto simp: grow_ctx_def Let_def iom_ok_table grow_size_def split: if_splits)

lemma iom_step_ok: "iom_step s s' \<Longrightarrow> iom_ok s \<Longrightarrow> iom_ok s'"
proof (induction rule: iom_step.induct)
  case (is_other s x y z)
  then show ?case by (auto intro: iom_ok_cong)
qed (blast intro: grow_ctx_ok addEvent_locked_ok delEvent_locked_ok cancelEvent_locked_ok
      cancelAll_locked_ok idle_event_ok)+

interpretation im: invariant_system iom_start iom_step iom_ok
  by unfold_locales (auto elim!: iom_start.cases intro: IOManager_new_ok iom_step_ok)

section \<open>Sequential use, and what the kernel knows\<close>

fun apply_ctl :: "ctl_call \<Rightarrow> (int \<Rightarrow> u32 option) \<Rightarrow> int \<Rightarrow> u32 option" where
  \<comment> \<open>the interest list after a call\<close>
  "apply_ctl c interest =
     (if \<not> ctl_ok c then interest
      else if ctl_op c = EPOLL_CTL_DEL then interest(ctl_fd c := None)
      else interest(ctl_fd c := Some (ctl_events c)))"

definition interest :: "ctl_call list \<Rightarrow> int \<Rightarrow> u32 option" where
  "interest log = fold apply_ctl log (\<lambda>_. None)"

definition ctl_legal :: "(int \<Rightarrow> u32 option) \<Rightarrow> ctl_call \<Rightarrow> bool" where
  \<comment> \<open>neither \<^verbatim>\<open>EEXIST\<close> nor \<^verbatim>\<open>ENOENT\<close>\<close>
  "ctl_legal i c \<longleftrightarrow> (ctl_op c = EPOLL_CTL_ADD) = (i (ctl_fd c) = None)"

definition ctls_legal :: "ctl_call list \<Rightarrow> bool" where
  "ctls_legal log \<longleftrightarrow> (\<forall>i < length log. ctl_legal (interest (take i log)) (log ! i))"

lemma interest_append: "interest (log @ [c]) = apply_ctl c (interest log)"
  by (simp add: interest_def)

lemma ctls_legal_append: "ctls_legal (log @ [c]) \<longleftrightarrow> ctls_legal log \<and> ctl_legal (interest log) c"
  by (auto simp: ctls_legal_def nth_append less_Suc_eq)

definition want :: "'cb FdContext \<Rightarrow> u32 option" where
  "want c = (if events c = 0 then None else Some (EPOLLET OR events c))"

definition seq_ok :: "'cb iomanager \<Rightarrow> bool" where
  "seq_ok s \<longleftrightarrow> iom_ok s \<and> ctls_legal (ctl_log s)
     \<and> (\<forall>fd. interest (ctl_log s) fd = (if fd < 0 then None else want (ctx_of s (nat fd))))"

inductive seq_step :: "'cb iomanager \<Rightarrow> 'cb iomanager \<Rightarrow> bool" where
  sq_add: "0 \<le> fd \<Longrightarrow> rw event \<Longrightarrow> caller_ok me \<Longrightarrow> addEvent me rt fd event cbk s = Inr (r, s') \<Longrightarrow> seq_step s s'"
| sq_del: "0 \<le> fd \<Longrightarrow> rw event \<Longrightarrow> delEvent rt fd event s = Inr (b, s') \<Longrightarrow> seq_step s s'"
| sq_cancel: "0 \<le> fd \<Longrightarrow> rw event \<Longrightarrow> cancelEvent rt fd event s = Inr (b, s') \<Longrightarrow> seq_step s s'"
| sq_cancelAll: "0 \<le> fd \<Longrightarrow> cancelAll rt fd s = Inr (b, s') \<Longrightarrow> seq_step s s'"
| sq_event: "p \<in> set (m_fdContexts s) \<Longrightarrow> idle_event addr tickle_fd rt (ev, CtxData p) s = Inr s' \<Longrightarrow> seq_step s s'"
| sq_other: "seq_step s (s\<lparr>scheds := x, pipes := y, timers := z\<rparr>)"

lemma with_ctx_nonneg:
  "0 \<le> fd \<Longrightarrow> with_ctx fd body s =
     (if nat fd < length (m_fdContexts s) then body (m_fdContexts s ! nat fd) s else Inr (False, s))"
  by (auto simp: with_ctx_def find_ctx_def)

lemma table_distinct:
  assumes "iom_ok s" "i < length (m_fdContexts s)" "j < length (m_fdContexts s)"
  shows "m_fdContexts s ! i = m_fdContexts s ! j \<longleftrightarrow> i = j"
  using assms by (metis iom_ok_def of_nat_eq_iff)

lemma ctx_of_upd:
  assumes "iom_ok s" "i < length (m_fdContexts s)"
    and "m_fdContexts s' = m_fdContexts s" "ctxs s' = (ctxs s)(m_fdContexts s ! i := c)"
  shows "ctx_of s' j = (if j = i then c else ctx_of s j)"
  using assms table_distinct [OF assms(1,2), of j] by (auto simp: ct.entry_def contexts_def)

lemma ctx_of_frame:
  "m_fdContexts s' = m_fdContexts s \<Longrightarrow> ctxs s' = ctxs s \<Longrightarrow> ctx_of s' j = ctx_of s j"
  by (simp add: ct.entry_def contexts_def)

text \<open>The two ways an operation extends the log: a call that failed, and one that took effect.\<close>

lemma seq_failed_call:
  assumes "seq_ok s" and "iom_ok s'" and "m_fdContexts s' = m_fdContexts s" "ctxs s' = ctxs s"
    and "ctl_log s' = ctl_log s @ [c]" and "\<not> ctl_ok c" and "ctl_fd c = int i"
    and "(ctl_op c = EPOLL_CTL_ADD) = (events (ctx_of s i) = 0)"
  shows "seq_ok s'"
  using assms ctx_of_frame [OF assms(3,4)]
  by (auto simp: seq_ok_def interest_append ctls_legal_append ctl_legal_def want_def)

lemma seq_done_call:
  assumes "seq_ok s" and "iom_ok s'" and "m_fdContexts s' = m_fdContexts s" "i < length (m_fdContexts s)"
    and "ctxs s' = (ctxs s)(m_fdContexts s ! i := c')"
    and "ctl_log s' = ctl_log s @ [c]" and "ctl_ok c" and "ctl_fd c = int i"
    and "(ctl_op c = EPOLL_CTL_ADD) = (events (ctx_of s i) = 0)"
    and "if events c' = 0 then ctl_op c = EPOLL_CTL_DEL
         else ctl_op c \<noteq> EPOLL_CTL_DEL \<and> ctl_events c = EPOLLET OR events c'"
  shows "seq_ok s'"
proof -
  have "iom_ok s" using assms(1) by (simp add: seq_ok_def)
  note u = ctx_of_upd [OF this assms(4,3,5)]
  have "interest (ctl_log s') fd = (if fd < 0 then None else want (ctx_of s' (nat fd)))" for fd
    using assms u [of "nat fd"] by (auto simp: seq_ok_def interest_append want_def split: if_splits)
  then show ?thesis
    using assms by (simp add: seq_ok_def ctls_legal_append ctl_legal_def want_def)
qed

lemma ctl_log_log_ctl [simp]:
  "ctl_log (log_ctl op fd ev p rt s) =
     ctl_log s @ [\<lparr>ctl_op = op, ctl_fd = fd, ctl_events = ev, ctl_ptr = p, ctl_ok = (rt = 0)\<rparr>]"
  by (simp add: log_ctl_def)

lemma events_set_event_context [simp]: "events (set_event_context e x c) = events c"
  by (simp add: set_event_context_def)

lemma seq_ensure:
  assumes "seq_ok s"
  shows "seq_ok (ensure_ctx i s)"
proof -
  have ok: "iom_ok s" using assms by (simp add: seq_ok_def)
  have "ctl_log (ensure_ctx i s) = ctl_log s"
    using ok contextResize_frame(4) [of s "grow_size i"] by (simp add: ensure_ctx_def iom_ok_table)
  then show ?thesis
    using assms ct.entry_ensure [OF ok, of i] ct.ensure_ok [OF ok] by (simp add: seq_ok_def)
qed

lemma iom_ok_table_nth: "iom_ok s \<Longrightarrow> i < length (m_fdContexts s) \<Longrightarrow>
    m_fdContexts s ! i < next_ptr s \<and> fd_no (ctxs s (m_fdContexts s ! i)) = int i"
  by (simp add: iom_ok_def)

lemma ctl_op_distinct [simp]:
  "EPOLL_CTL_MOD \<noteq> EPOLL_CTL_ADD" "EPOLL_CTL_DEL \<noteq> EPOLL_CTL_ADD" "EPOLL_CTL_ADD \<noteq> EPOLL_CTL_DEL"
  "EPOLL_CTL_MOD \<noteq> EPOLL_CTL_DEL" "EPOLL_CTL_DEL \<noteq> EPOLL_CTL_MOD"
  "(if b then EPOLL_CTL_MOD else EPOLL_CTL_ADD) = EPOLL_CTL_ADD \<longleftrightarrow> \<not> b"
  "(if b then EPOLL_CTL_MOD else EPOLL_CTL_DEL) = EPOLL_CTL_DEL \<longleftrightarrow> \<not> b"
  "(if b then EPOLL_CTL_MOD else EPOLL_CTL_DEL) \<noteq> EPOLL_CTL_ADD"
  "(if b then EPOLL_CTL_MOD else EPOLL_CTL_ADD) \<noteq> EPOLL_CTL_DEL"
  by (simp_all add: event_consts)

lemma seq_addEvent:
  assumes s: "seq_ok s" and i: "i < length (m_fdContexts s)" and ev: "rw event" and me: "caller_ok me"
    and r: "addEvent_locked me rt (int i) (m_fdContexts s ! i) event cbk s = Inr (r, s')"
  shows "seq_ok s'"
proof -
  let ?p = "m_fdContexts s ! i"
  have ok: "iom_ok s" using s by (simp add: seq_ok_def)
  have p: "?p < next_ptr s" using iom_ok_table_nth [OF ok i] by simp
  have ok': "iom_ok s'" by (rule addEvent_locked_ok [OF ok p ev me r])
  have nz: "events (ctxs s ?p) OR event \<noteq> 0"
    using ev by (cases rule: ctx_ok_events [OF iom_ok_ctx [OF ok p]]) (auto simp: rw_def event_consts)
  have ev': "event = READ \<or> event = WRITE" and me': "fiber_running me"
    using ev me by (simp_all add: rw_def caller_ok_def)
  note c = addEvent_locked_cases [OF ok p ev' me', of rt "int i" cbk]
  consider "events (ctxs s ?p) AND event \<noteq> 0" | "events (ctxs s ?p) AND event = 0" "rt \<noteq> 0"
    | "events (ctxs s ?p) AND event = 0" "rt = 0" by blast
  then show ?thesis
  proof cases
    case 1
    then show ?thesis using r c s by simp
  next
    case 2
    then show ?thesis
      using r c by (intro seq_failed_call [OF s ok', where i = i]) (auto simp: Let_def ctx_of_nth [OF i])
  next
    case 3
    then show ?thesis
      using r c nz by (intro seq_done_call [OF s ok', where i = i])
        (auto simp: Let_def ctx_of_nth [OF i] i)
  qed
qed

lemma seq_delEvent:
  assumes s: "seq_ok s" and i: "i < length (m_fdContexts s)" and ev: "rw event"
    and r: "delEvent_locked rt (int i) event (m_fdContexts s ! i) s = Inr (b, s')"
  shows "seq_ok s'"
proof -
  let ?p = "m_fdContexts s ! i"
  have ok: "iom_ok s" using s by (simp add: seq_ok_def)
  have p: "?p < next_ptr s" using iom_ok_table_nth [OF ok i] by simp
  have ok': "iom_ok s'" by (rule delEvent_locked_ok [OF ok p ev r])
  have ev': "event = READ \<or> event = WRITE" using ev by (simp add: rw_def)
  note c = delEvent_locked_cases [OF ev', of rt "int i" ?p s]
  consider "events (ctxs s ?p) AND event = 0" | "events (ctxs s ?p) AND event \<noteq> 0" "rt \<noteq> 0"
    | "events (ctxs s ?p) AND event \<noteq> 0" "rt = 0" by blast
  then show ?thesis
  proof cases
    case 1
    then show ?thesis using r c s by simp
  next
    case 2
    then have "events (ctxs s ?p) \<noteq> 0" by auto
    then show ?thesis
      using 2 r c by (intro seq_failed_call [OF s ok', where i = i]) (auto simp: Let_def ctx_of_nth [OF i])
  next
    case 3
    then have "events (ctxs s ?p) \<noteq> 0" by auto
    then show ?thesis
      using 3 r c by (intro seq_done_call [OF s ok', where i = i]) (auto simp: Let_def ctx_of_nth [OF i] i)
  qed
qed

lemma seq_cancelEvent:
  assumes s: "seq_ok s" and i: "i < length (m_fdContexts s)" and ev: "rw event"
    and r: "cancelEvent_locked rt (int i) event (m_fdContexts s ! i) s = Inr (b, s')"
  shows "seq_ok s'"
proof -
  let ?p = "m_fdContexts s ! i"
  have ok: "iom_ok s" using s by (simp add: seq_ok_def)
  have p: "?p < next_ptr s" using iom_ok_table_nth [OF ok i] by simp
  have ok': "iom_ok s'" by (rule cancelEvent_locked_ok [OF ok p ev r])
  have ev': "event = READ \<or> event = WRITE" using ev by (simp add: rw_def)
  note c = cancelEvent_locked_cases [OF ok p ev', of rt "int i"]
  consider "events (ctxs s ?p) AND event = 0" | "events (ctxs s ?p) AND event \<noteq> 0" "rt \<noteq> 0"
    | "events (ctxs s ?p) AND event \<noteq> 0" "rt = 0" by blast
  then show ?thesis
  proof cases
    case 1
    then show ?thesis using r c s by simp
  next
    case 2
    then have "events (ctxs s ?p) \<noteq> 0" by auto
    then show ?thesis
      using 2 r c by (intro seq_failed_call [OF s ok', where i = i]) (auto simp: Let_def ctx_of_nth [OF i])
  next
    case 3
    then have "events (ctxs s ?p) \<noteq> 0" by auto
    then show ?thesis
      using 3 r c by (intro seq_done_call [OF s ok', where i = i]) (auto simp: Let_def ctx_of_nth [OF i] i)
  qed
qed

lemma woken_set_ctxs:
  assumes "msk \<in> {0, 1, 4, 5}"
  shows "\<exists>c'. ctxs (woken_set msk p s) = (ctxs s)(p := c') \<and> events c' = events (ctxs s p) AND NOT msk"
proof (cases "msk = 0")
  case True
  then show ?thesis by (intro exI [of _ "ctxs s p"]) (simp add: woken_set_def)
next
  case False
  then show ?thesis using assms by (auto simp: woken_set_def event_consts and.assoc)
qed

lemma seq_woken_set:
  assumes s: "seq_ok s" and i: "i < length (m_fdContexts s)" and p: "p = m_fdContexts s ! i"
    and m: "msk AND NOT (events (ctxs s p)) = 0" "msk \<in> {0, 1, 4, 5}" "events (ctxs s p) \<noteq> 0"
    and ev: "events (ctxs s p) AND NOT msk \<noteq> 0 \<Longrightarrow> ev = EPOLLET OR (events (ctxs s p) AND NOT msk)"
    and op: "op = (if events (ctxs s p) AND NOT msk \<noteq> 0 then EPOLL_CTL_MOD else EPOLL_CTL_DEL)"
  shows "seq_ok (woken_set msk p (log_ctl op (int i) ev p 0 s))"
proof -
  let ?s1 = "log_ctl op (int i) ev p 0 s"
  have ok: "iom_ok s" using s by (simp add: seq_ok_def)
  have pp: "p < next_ptr s" using iom_ok_table_nth [OF ok i] p by simp
  obtain c' where c': "ctxs (woken_set msk p ?s1) = (ctxs s)(p := c')" "events c' = events (ctxs s p) AND NOT msk"
    using woken_set_ctxs [OF m(2), of p ?s1] by auto
  have "iom_ok (woken_set msk p ?s1)"
    using iom_ok_log [OF ok] pp m by (intro woken_set_ok) auto
  then show ?thesis
    using c' op ev p m by (intro seq_done_call [OF s _ _ i, where c' = c']) (auto simp: ctx_of_nth [OF i] split: if_splits)
qed

lemma seq_cancelAll:
  assumes s: "seq_ok s" and i: "i < length (m_fdContexts s)"
    and r: "cancelAll_locked rt (int i) (m_fdContexts s ! i) s = Inr (b, s')"
  shows "seq_ok s'"
proof -
  let ?p = "m_fdContexts s ! i"
  have ok: "iom_ok s" using s by (simp add: seq_ok_def)
  have p: "?p < next_ptr s" using iom_ok_table_nth [OF ok i] by simp
  have rng: "events (ctxs s ?p) \<in> {0, 1, 4, 5}"
    by (rule ctx_ok_events [OF iom_ok_ctx [OF ok p]]) simp_all
  note c = cancelAll_locked_cases [OF ok p, of rt "int i"]
  consider "events (ctxs s ?p) = 0" | "events (ctxs s ?p) \<noteq> 0" "rt \<noteq> 0" | "events (ctxs s ?p) \<noteq> 0" "rt = 0" by blast
  then show ?thesis
  proof cases
    case 1
    then show ?thesis using r c s by simp
  next
    case 2
    then show ?thesis
      using r c iom_ok_log [OF ok] by (intro seq_failed_call [OF s, where i = i]) (auto simp: Let_def ctx_of_nth [OF i])
  next
    case 3
    then have "s' = woken_set (events (ctxs s ?p)) ?p (log_ctl EPOLL_CTL_DEL (int i) 0 ?p 0 s)"
      using r c by (simp add: Let_def)
    then show ?thesis using seq_woken_set [OF s i refl _ rng 3(1), of 0 EPOLL_CTL_DEL] by simp
  qed
qed

lemma seq_idle_event:
  assumes s: "seq_ok s" and p: "p \<in> set (m_fdContexts s)"
    and r: "idle_event addr tickle_fd rt (ev, CtxData p) s = Inr s'"
  shows "seq_ok s'"
proof -
  obtain i where i: "i < length (m_fdContexts s)" "p = m_fdContexts s ! i" using p by (auto simp: in_set_conv_nth)
  have ok: "iom_ok s" using s by (simp add: seq_ok_def)
  have pp: "p < next_ptr s" "fd_no (ctxs s p) = int i" using iom_ok_table_nth [OF ok i(1)] i(2) by simp_all
  show ?thesis
  proof (cases "data_fd addr tickle_fd (CtxData p) = tickle_fd")
    case True
    then have "s' = s\<lparr>pipes := (pipes s)(self s := 0)\<rparr>" using r by (simp add: idle_event_def)
    then show ?thesis
      using s ctx_of_frame [of s' s] iom_ok_cong [OF ok, of s'] by (simp add: seq_ok_def)
  next
    case False
    define real where "real = real_events (ready_mask ev (ctxs s p))"
    define left where "left = events (ctxs s p) AND NOT real"
    have rng: "real \<in> {0, 1, 4, 5}" unfolding real_def by (rule real_events_range)
    note c = idle_event_cases [OF ok pp(1) False, of rt ev, unfolded Let_def, folded real_def, folded left_def]
    consider "events (ctxs s p) AND real = 0" | "events (ctxs s p) AND real \<noteq> 0" "rt \<noteq> 0"
      | "events (ctxs s p) AND real \<noteq> 0" "rt = 0" by blast
    then show ?thesis
    proof cases
      case 1
      then show ?thesis using r c s by simp
    next
      case 2
      then have "events (ctxs s p) \<noteq> 0" by auto
      then show ?thesis
        using 2 r c pp i iom_ok_log [OF ok]
        by (intro seq_failed_call [OF s, where i = i]) (auto simp: ctx_of_nth [OF i(1)] split: if_splits)
    next
      case 3
      then have nz: "events (ctxs s p) \<noteq> 0" by auto
      have sub: "real AND NOT (events (ctxs s p)) = 0" using 3 r c by (simp split: if_splits)
      then have "s' = woken_set real p (log_ctl (if left \<noteq> 0 then EPOLL_CTL_MOD else EPOLL_CTL_DEL) (int i) (EPOLLET OR left) p 0 s)"
        using 3 r c pp(2) by simp
      then show ?thesis
        using seq_woken_set [OF s i(1,2) sub rng nz, of "EPOLLET OR left"] by (simp add: left_def)
    qed
  qed
qed

lemma seq_step_ok: "seq_step s s' \<Longrightarrow> seq_ok s \<Longrightarrow> seq_ok s'"
proof (induction rule: seq_step.induct)
  case (sq_add fd event me rt cbk s r s')
  then have ok: "iom_ok s" by (simp add: seq_ok_def)
  have i: "nat fd < length (m_fdContexts (ensure_ctx (nat fd) s))"
    using ct.ensure_covers [OF ok, of "nat fd"] by (simp add: contexts_def)
  show ?case
    using seq_addEvent [OF seq_ensure [OF sq_add.prems] i, of event me rt cbk r s'] sq_add
    by (simp add: addEvent_ensure [OF ok] Let_def)
next
  case (sq_del fd event rt s b s')
  then show ?case
    using seq_delEvent [of s "nat fd" event rt b s'] by (simp add: delEvent_def with_ctx_nonneg split: if_splits)
next
  case (sq_cancel fd event rt s b s')
  then show ?case
    using seq_cancelEvent [of s "nat fd" event rt b s'] by (simp add: cancelEvent_def with_ctx_nonneg split: if_splits)
next
  case (sq_cancelAll fd rt s b s')
  then show ?case
    using seq_cancelAll [of s "nat fd" rt b s'] by (simp add: cancelAll_def with_ctx_nonneg split: if_splits)
next
  case (sq_event p s addr tickle_fd rt ev s')
  show ?case by (rule seq_idle_event [OF sq_event(3,1,2)])
next
  case (sq_other s z y x)
  have "iom_ok (s\<lparr>scheds := x, pipes := y, timers := z\<rparr>)"
    by (rule iom_ok_cong [of s]) (use sq_other in \<open>simp_all add: seq_ok_def\<close>)
  then show ?case
    using sq_other ctx_of_frame [of "s\<lparr>scheds := x, pipes := y, timers := z\<rparr>" s] by (simp add: seq_ok_def)
qed

lemma IOManager_new_seq: "seq_ok (IOManager_new me sch now)"
proof -
  let ?s = "\<lparr>self = me, scheds = sch, pipes = (\<lambda>_. 0), timers = TimerManager_new now,
        ctxs = (\<lambda>_. FdContext_new 0), next_ptr = 0, m_fdContexts = [], m_pendingEventCount = 0, ctl_log = []\<rparr>"
  have t: "table_ok ?s" by (simp add: table_ok_def)
  have "ctx_of (IOManager_new me sch now) i = FdContext_new i" for i
    using contextResize_fresh [OF t, of i 32] contextResize_facts(2) [OF t, of 32]
    by (simp add: ct.entry_def contexts_def IOManager_new_def)
  moreover have "ctl_log (IOManager_new me sch now) = []"
    using contextResize_frame(4) [OF t, of 32] by (simp add: IOManager_new_def)
  ultimately show ?thesis
    using IOManager_new_ok [of me sch now]
    by (simp add: seq_ok_def ctls_legal_def interest_def want_def FdContext_new_def NONE_def)
qed

interpretation sq: invariant_system iom_start seq_step seq_ok
  by unfold_locales (auto elim!: iom_start.cases intro: IOManager_new_seq seq_step_ok)

section \<open>Properties\<close>

lemma addEvent_effect:
  assumes ok: "iom_ok s" and fd: "0 \<le> fd" and ev: "rw event" and me: "caller_ok me"
  shows "if events (ctx_of s (nat fd)) AND event \<noteq> 0 then
      \<exists>s'. addEvent me rt fd event cbk s = Inr (- 1, s') \<and> s' = s
    else if rt \<noteq> 0 then
      \<exists>s'. addEvent me rt fd event cbk s = Inr (- 1, s') \<and> iom_ok s' \<and> (\<forall>j. ctx_of s' j = ctx_of s j)
        \<and> m_pendingEventCount s' = m_pendingEventCount s
    else
      \<exists>s'. addEvent me rt fd event cbk s = Inr (0, s') \<and> iom_ok s' \<and> nat fd < length (m_fdContexts s')
        \<and> (\<forall>j. ctx_of s' j = (if j = nat fd then set_event_context event
              \<lparr>ev_scheduler = this_sched me, ev_fiber = (if cbk = None then Some (this_fiber me) else None), ev_cb = cbk\<rparr>
              ((ctx_of s j)\<lparr>events := events (ctx_of s j) OR event\<rparr>) else ctx_of s j))
        \<and> m_pendingEventCount s' = m_pendingEventCount s + 1 \<and> scheds s' = scheds s \<and> timers s' = timers s
        \<and> self s' = self s"
proof -
  let ?s1 = "ensure_ctx (nat fd) s" and ?p = "m_fdContexts (ensure_ctx (nat fd) s) ! nat fd"
  have i: "nat fd < length (m_fdContexts ?s1)"
    using ct.ensure_covers [OF ok, of "nat fd"] by (simp add: contexts_def)
  have ok1: "iom_ok ?s1" by (rule ensure_ctx_ok [OF ok])
  have p: "?p < next_ptr ?s1" using iom_ok_table_nth [OF ok1 i] by simp
  have e: "ctxs ?s1 ?p = ctx_of s (nat fd)"
    using ctx_of_nth [OF i] ct.entry_ensure [OF ok, of "nat fd"] by simp
  have ev': "event = READ \<or> event = WRITE" and me': "fiber_running me"
    using ev me by (simp_all add: rw_def caller_ok_def)
  note c = addEvent_locked_cases [OF ok1 p ev' me', of rt fd cbk, folded addEvent_ensure [OF ok fd, of me rt event cbk, unfolded Let_def]]
  have fr: "scheds ?s1 = scheds s" "m_pendingEventCount ?s1 = m_pendingEventCount s" "timers ?s1 = timers s"
    "self ?s1 = self s"
    using ok contextResize_frame [of s "grow_size (nat fd)"] by (simp_all add: ensure_ctx_def iom_ok_table)
  consider "events (ctx_of s (nat fd)) AND event \<noteq> 0" | "events (ctx_of s (nat fd)) AND event = 0" "rt \<noteq> 0"
    | "events (ctx_of s (nat fd)) AND event = 0" "rt = 0" by blast
  then show ?thesis
  proof cases
    case 1
    moreover have "nat fd < length (m_fdContexts s)"
      by (rule ccontr) (use 1 in \<open>simp add: ct.entry_def contexts_def FdContext_new_def NONE_def\<close>)
    then have "?s1 = s" by (simp add: ensure_ctx_def)
    ultimately show ?thesis using c e by simp
  next
    case 2
    let ?s' = "log_ctl (if events (ctxs ?s1 ?p) \<noteq> 0 then EPOLL_CTL_MOD else EPOLL_CTL_ADD) fd
        (EPOLLET OR events (ctxs ?s1 ?p) OR event) ?p rt ?s1"
    have "addEvent me rt fd event cbk s = Inr (- 1, ?s')" using 2 c e by (simp add: Let_def)
    moreover have "iom_ok ?s'" by (rule iom_ok_log [OF ok1])
    moreover have "ctx_of ?s' j = ctx_of s j" for j
      using ctx_of_frame [of ?s' ?s1 j] ct.entry_ensure [OF ok, of "nat fd" j] by simp
    ultimately show ?thesis using 2 fr by (auto simp del: ctl_log_log_ctl)
  next
    case 3
    then have "events (ctxs ?s1 ?p) AND event = 0" using e by simp
    then obtain s' where r: "addEvent me rt fd event cbk s = Inr (0, s')" and s': "ctxs s' = (ctxs ?s1)(?p := set_event_context event
              \<lparr>ev_scheduler = this_sched me, ev_fiber = (if cbk = None then Some (this_fiber me) else None), ev_cb = cbk\<rparr>
              ((ctxs ?s1 ?p)\<lparr>events := events (ctxs ?s1 ?p) OR event\<rparr>))"
       "m_pendingEventCount s' = m_pendingEventCount ?s1 + 1" "scheds s' = scheds ?s1" "m_fdContexts s' = m_fdContexts ?s1"
       "timers s' = timers ?s1" "self s' = self ?s1"
      using 3(2) c by (simp add: Let_def)
    have "addEvent_locked me rt fd ?p event cbk ?s1 = Inr (0, s')"
      using r addEvent_ensure [OF ok fd, of me rt event cbk] by (simp add: Let_def)
    then have "iom_ok s'" by (rule addEvent_locked_ok [OF ok1 p ev me])
    moreover have "ctx_of s' j = (if j = nat fd then set_event_context event
              \<lparr>ev_scheduler = this_sched me, ev_fiber = (if cbk = None then Some (this_fiber me) else None), ev_cb = cbk\<rparr>
              ((ctx_of s j)\<lparr>events := events (ctx_of s j) OR event\<rparr>) else ctx_of s j)" for j
      using ctx_of_upd [OF ok1 i s'(4,1), of j] ct.entry_ensure [OF ok, of "nat fd" j] e by simp
    ultimately show ?thesis using 3 r s' fr i by auto
  qed
qed

text \<open>A manager with one reader waiting on descriptor 5, the fiber 7 of the scheduler 0.\<close>

definition demo_caller :: caller where
  "demo_caller = \<lparr>this_sched = Some 0, this_fiber = 7, fiber_running = True\<rparr>"

definition demo_scheds :: "nat \<Rightarrow> nat scheduler" where
  "demo_scheds = (\<lambda>_. demo_sched)"

definition demo_iom :: "nat iomanager" where
  "demo_iom = (case addEvent demo_caller 0 5 READ None (IOManager_new 0 demo_scheds 0) of
                 Inr (_, s) \<Rightarrow> s | Inl _ \<Rightarrow> IOManager_new 0 demo_scheds 0)"

lemma demo_caller_ok: "caller_ok demo_caller" "rw READ" "rw WRITE"
  by (simp_all add: demo_caller_def caller_ok_def rw_def)

lemma IOManager_new_facts:
  "ctx_of (IOManager_new me sch now) i = FdContext_new i" "scheds (IOManager_new me sch now) = sch"
  "length (m_fdContexts (IOManager_new me sch now)) = 32" "m_pendingEventCount (IOManager_new me sch now) = 0"
  "self (IOManager_new me sch now) = me" "timers (IOManager_new me sch now) = TimerManager_new now"
proof -
  let ?s = "\<lparr>self = me, scheds = sch, pipes = (\<lambda>_. 0), timers = TimerManager_new now,
        ctxs = (\<lambda>_. FdContext_new 0), next_ptr = 0, m_fdContexts = [], m_pendingEventCount = 0, ctl_log = []\<rparr>"
  have t: "table_ok ?s" by (simp add: table_ok_def)
  show "ctx_of (IOManager_new me sch now) i = FdContext_new i"
    using contextResize_fresh [OF t, of i 32] contextResize_facts(2) [OF t, of 32]
    by (simp add: ct.entry_def contexts_def IOManager_new_def)
  show "scheds (IOManager_new me sch now) = sch" "length (m_fdContexts (IOManager_new me sch now)) = 32"
    "m_pendingEventCount (IOManager_new me sch now) = 0" "self (IOManager_new me sch now) = me"
    "timers (IOManager_new me sch now) = TimerManager_new now"
    using contextResize_frame [OF t, of 32] contextResize_facts(2) [OF t, of 32] by (simp_all add: IOManager_new_def)
qed

lemma demo_caller_fields: "this_sched demo_caller = Some 0" "this_fiber demo_caller = 7"
  by (simp_all add: demo_caller_def)

lemma demo_iom_add:
  "addEvent demo_caller 0 5 READ None (IOManager_new 0 demo_scheds 0) = Inr (0, demo_iom)"
  "iom_ok demo_iom" "5 < length (m_fdContexts demo_iom)"
  "ctx_of demo_iom 5 = \<lparr>read_ctx = \<lparr>ev_scheduler = Some 0, ev_fiber = Some 7, ev_cb = None\<rparr>,
     write_ctx = EventContext_new, fd_no = 5, events = READ\<rparr>"
  "j \<noteq> 5 \<Longrightarrow> ctx_of demo_iom j = FdContext_new j"
  "m_pendingEventCount demo_iom = 1" "scheds demo_iom = demo_scheds"
proof -
  obtain s' where s': "addEvent demo_caller 0 5 READ None (IOManager_new 0 demo_scheds 0) = Inr (0, s')"
    "iom_ok s'" "5 < length (m_fdContexts s')"
    "\<And>j. ctx_of s' j = (if j = 5 then set_event_context READ
        \<lparr>ev_scheduler = Some 0, ev_fiber = Some 7, ev_cb = None\<rparr> ((FdContext_new j)\<lparr>events := NONE OR READ\<rparr>)
        else FdContext_new j)"
    "m_pendingEventCount s' = 1" "scheds s' = demo_scheds"
    using addEvent_effect [OF IOManager_new_ok [of 0 demo_scheds 0], of 5 READ demo_caller 0 None]
    by (auto simp: demo_caller_ok demo_caller_fields IOManager_new_facts FdContext_new_def NONE_def)
  have d: "demo_iom = s'" by (simp add: demo_iom_def s'(1))
  show "addEvent demo_caller 0 5 READ None (IOManager_new 0 demo_scheds 0) = Inr (0, demo_iom)"
    "iom_ok demo_iom" "5 < length (m_fdContexts demo_iom)" "m_pendingEventCount demo_iom = 1"
    "scheds demo_iom = demo_scheds" "j \<noteq> 5 \<Longrightarrow> ctx_of demo_iom j = FdContext_new j"
    using s' by (simp_all add: d)
  show "ctx_of demo_iom 5 = \<lparr>read_ctx = \<lparr>ev_scheduler = Some 0, ev_fiber = Some 7, ev_cb = None\<rparr>,
     write_ctx = EventContext_new, fd_no = 5, events = READ\<rparr>"
    by (simp add: d s'(4) set_event_context_def FdContext_new_def NONE_def)
qed

text \<open>
  C11: \<open>addEvent\<close> on any descriptor, also one beyond the end of the table: an event that is
  registered already is refused and nothing changes; when \<^verbatim>\<open>epoll_ctl\<close> fails nothing is
  registered; otherwise the event is registered for exactly this descriptor with the
  callback, or else the calling fiber, as its only waiter, and the count goes up by one.
\<close>

theorem addEvent_registers:
  assumes "iom_ok s" and "0 \<le> fd" and "rw event" and "caller_ok me"
  shows "\<exists>r s'. addEvent me rt fd event cbk s = Inr (r, s') \<and> iom_ok s'
    \<and> (r = 0 \<longleftrightarrow> events (ctx_of s (nat fd)) AND event = 0 \<and> rt = 0) \<and> (r \<noteq> 0 \<longrightarrow> r = - 1)
    \<and> (r \<noteq> 0 \<longrightarrow> (\<forall>j. ctx_of s' j = ctx_of s j) \<and> m_pendingEventCount s' = m_pendingEventCount s)
    \<and> (r = 0 \<longrightarrow> m_pendingEventCount s' = m_pendingEventCount s + 1
         \<and> (\<forall>j. j \<noteq> nat fd \<longrightarrow> ctx_of s' j = ctx_of s j)
         \<and> events (ctx_of s' (nat fd)) = events (ctx_of s (nat fd)) OR event
         \<and> slot event (ctx_of s' (nat fd)) =
             \<lparr>ev_scheduler = this_sched me, ev_fiber = (if cbk = None then Some (this_fiber me) else None), ev_cb = cbk\<rparr>)"
proof -
  have s: "slot event (set_event_context event x c) = x" for x c
    using assms(3) by (auto simp: slot_def set_event_context_def rw_def event_consts)
  show ?thesis
    using addEvent_effect [OF assms, of rt cbk] assms(1) by (auto simp: s split: if_splits)
qed

theorem addEvent_registers_witness:
  "\<exists>s'. addEvent demo_caller 0 100 WRITE (Some 3) demo_iom = Inr (0, s')
     \<and> slot WRITE (ctx_of s' 100) = \<lparr>ev_scheduler = Some 0, ev_fiber = None, ev_cb = Some 3\<rparr>
     \<and> m_pendingEventCount s' = 2"
  using addEvent_registers [OF demo_iom_add(2) _ demo_caller_ok(3,1), of 100 0 "Some 3"] demo_iom_add(6)
  by (auto simp: demo_iom_add(5) FdContext_new_def NONE_def demo_caller_fields)

text \<open>
  C4: in every state the interleaved critical sections reach, also after a resize that
  raced with others, \<open>m_pendingEventCount\<close> is the number of registered events, each of them
  has exactly one waiter and an event that is not registered has none; so no \<open>addEvent\<close>,
  \<open>delEvent\<close>, \<open>cancelEvent\<close> or \<open>cancelAll\<close> fails an assertion.
\<close>

theorem waiters_consistent:
  assumes "iom_start s0" and "iom_step\<^sup>*\<^sup>* s0 s" and "p < next_ptr s" and "rw event" and "caller_ok me"
  shows "m_pendingEventCount s = of_nat (\<Sum>q < next_ptr s. waits (ctxs s q))
    \<and> slot_ok (events (ctxs s p) AND event \<noteq> 0) (slot event (ctxs s p))
    \<and> (\<exists>r. addEvent_locked me rt fd p event cbk s = Inr r)
    \<and> (\<exists>r. delEvent_locked rt fd event p s = Inr r)
    \<and> (\<exists>r. cancelEvent_locked rt fd event p s = Inr r)
    \<and> (\<exists>r. cancelAll_locked rt fd p s = Inr r)"
proof -
  have ok: "iom_ok s" by (rule im.reachable_inv [OF assms(1,2)])
  have ev: "event = READ \<or> event = WRITE" and me: "fiber_running me"
    using assms(4,5) by (simp_all add: rw_def caller_ok_def)
  have "slot_ok (events (ctxs s p) AND event \<noteq> 0) (slot event (ctxs s p))"
    using iom_ok_ctx [OF ok assms(3)] ev by (auto simp: ctx_ok_def slot_def)
  moreover have "m_pendingEventCount s = of_nat (\<Sum>q < next_ptr s. waits (ctxs s q))"
    using ok by (simp add: iom_ok_def)
  ultimately show ?thesis
    using addEvent_locked_cases [OF ok assms(3) ev me, of rt fd cbk] delEvent_locked_cases [OF ev, of rt fd p s]
      cancelEvent_locked_cases [OF ok assms(3) ev, of rt fd] cancelAll_locked_cases [OF ok assms(3), of rt fd]
    by (auto simp: Let_def)
qed

lemma IOManager_new_next: "0 < next_ptr (IOManager_new me sch now)"
  using iom_ok_table_nth [OF IOManager_new_ok, of 0 me sch now] by (simp add: IOManager_new_facts)

theorem waiters_consistent_witness:
  "\<exists>r. cancelAll_locked 0 0 0 (IOManager_new 0 demo_scheds 0) = Inr r"
  using waiters_consistent [OF iom_start.intros rtranclp.rtrancl_refl IOManager_new_next demo_caller_ok(2,1)]
  by blast

lemma find_nonneg:
  "0 \<le> fd \<Longrightarrow> nat fd < length (m_fdContexts s) \<Longrightarrow> with_ctx fd body s = body (m_fdContexts s ! nat fd) s"
  by (simp add: with_ctx_nonneg)

lemma ctx_registered_in_table: "events (ctx_of s i) \<noteq> 0 \<Longrightarrow> i < length (m_fdContexts s)"
  by (rule ccontr) (simp add: ct.entry_def contexts_def FdContext_new_def NONE_def)

lemma slot_clear_other:
  "rw e \<Longrightarrow> rw e' \<Longrightarrow> e \<noteq> e' \<Longrightarrow> slot e' (clear_slot e c) = slot e' c"
  by (auto simp: slot_def clear_slot_def set_event_context_def rw_def event_consts)

lemma cancelEvent_effect:
  assumes "iom_ok s" and "0 \<le> fd" and "rw event" and "events (ctx_of s (nat fd)) AND event \<noteq> 0"
  shows "\<exists>s'. cancelEvent 0 fd event s = Inr (True, s') \<and> iom_ok s'
    \<and> (\<forall>sid. queue sid s' = (if ev_scheduler (slot event (ctx_of s (nat fd))) = Some sid
                             then queue sid s @ [task_of (slot event (ctx_of s (nat fd)))] else queue sid s))
    \<and> events (ctx_of s' (nat fd)) = events (ctx_of s (nat fd)) AND NOT event
    \<and> (\<forall>e. rw e \<and> e \<noteq> event \<longrightarrow> slot e (ctx_of s' (nat fd)) = slot e (ctx_of s (nat fd)))
    \<and> (\<forall>j. j \<noteq> nat fd \<longrightarrow> ctx_of s' j = ctx_of s j)
    \<and> m_pendingEventCount s' = m_pendingEventCount s - 1
    \<and> cancelEvent rt fd event s' = Inr (False, s')
    \<and> timers s' = timers s \<and> self s' = self s"
proof -
  have i: "nat fd < length (m_fdContexts s)"
    using assms(4) by (intro ctx_registered_in_table) auto
  let ?p = "m_fdContexts s ! nat fd"
  have p: "?p < next_ptr s" using iom_ok_table_nth [OF assms(1) i] by simp
  have ev: "event = READ \<or> event = WRITE" using assms(3) by (simp add: rw_def)
  have e: "ctxs s ?p = ctx_of s (nat fd)" using ctx_of_nth [OF i] by simp
  define s1 where "s1 = log_ctl (if events (ctxs s ?p) AND NOT event \<noteq> 0 then EPOLL_CTL_MOD else EPOLL_CTL_DEL) fd
      (EPOLLET OR (events (ctxs s ?p) AND NOT event)) ?p 0 s"
  have ok1: "iom_ok s1" "?p < next_ptr s1" and f1: "ctxs s1 = ctxs s" "scheds s1 = scheds s"
    "m_fdContexts s1 = m_fdContexts s" "m_pendingEventCount s1 = m_pendingEventCount s"
    "timers s1 = timers s" "self s1 = self s"
    using iom_ok_log [OF assms(1)] p by (simp_all add: s1_def)
  have hit: "events (ctxs s1 ?p) AND event \<noteq> 0" using assms(4) e f1 by simp
  let ?s' = "woken ?p event s1"
  have r: "cancelEvent 0 fd event s = Inr (True, ?s')"
    using cancelEvent_locked_cases [OF assms(1) p ev, of 0 fd] assms(2,4) i e
    by (simp add: cancelEvent_def find_nonneg Let_def s1_def)
  have ok': "iom_ok ?s'" by (rule woken_ok [OF ok1 ev hit])
  have u: "ctx_of ?s' j = (if j = nat fd then clear_slot event (ctx_of s (nat fd)) else ctx_of s j)" for j
    using ctx_of_upd [OF assms(1) i, of ?s'] f1 e by simp
  have "cancelEvent rt fd event ?s' = Inr (False, ?s')"
    using i assms(2) f1 u [of "nat fd"] ctx_of_nth [of "nat fd" ?s']
    by (simp add: cancelEvent_def find_nonneg cancelEvent_locked_def and.assoc)
  then show ?thesis
    using r ok' u queue_woken [OF ok1 ev hit] f1 e slot_clear_other [OF assms(3)] by auto
qed

text \<open>
  C8: \<open>cancelEvent\<close> on a registered event (and a working \<^verbatim>\<open>epoll_ctl\<close>) puts its waiter, the
  callback or else the fiber, at the end of the queue of the scheduler it was registered
  under, exactly once: the event is gone, the other event of the descriptor and all other
  descriptors keep theirs, and cancelling again finds nothing.
\<close>

theorem cancelEvent_wakes_once:
  assumes "iom_ok s" and "0 \<le> fd" and "rw event" and "events (ctx_of s (nat fd)) AND event \<noteq> 0"
  shows "\<exists>s'. cancelEvent 0 fd event s = Inr (True, s') \<and> iom_ok s'
    \<and> (\<forall>sid. queue sid s' = (if ev_scheduler (slot event (ctx_of s (nat fd))) = Some sid
                             then queue sid s @ [task_of (slot event (ctx_of s (nat fd)))] else queue sid s))
    \<and> events (ctx_of s' (nat fd)) = events (ctx_of s (nat fd)) AND NOT event
    \<and> (\<forall>e. rw e \<and> e \<noteq> event \<longrightarrow> slot e (ctx_of s' (nat fd)) = slot e (ctx_of s (nat fd)))
    \<and> (\<forall>j. j \<noteq> nat fd \<longrightarrow> ctx_of s' j = ctx_of s j)
    \<and> m_pendingEventCount s' = m_pendingEventCount s - 1
    \<and> cancelEvent rt fd event s' = Inr (False, s')"
  using cancelEvent_effect [OF assms, of rt] by blast

theorem cancelEvent_wakes_once_witness:
  "\<exists>s'. cancelEvent 0 5 READ demo_iom = Inr (True, s') \<and> queue 0 s' = [ScheduleTask_fiber (Some 7) (- 1)]
      \<and> events (ctx_of s' 5) = NONE \<and> cancelEvent 0 5 READ s' = Inr (False, s')"
proof -
  have "queue 0 demo_iom = []" "events (ctx_of demo_iom 5) = READ"
    "slot READ (ctx_of demo_iom 5) = \<lparr>ev_scheduler = Some 0, ev_fiber = Some 7, ev_cb = None\<rparr>"
    using demo_iom_add(4,7) demo_pool_facts(3)
    by (simp_all add: demo_scheds_def slot_def demo_sched_def Scheduler_new_def Let_def numeral_2_eq_2)
  then show ?thesis
    using cancelEvent_wakes_once [OF demo_iom_add(2), of 5 READ 0]
    by (auto simp: rw_def task_of_def event_consts)
qed

definition waiters :: "nat \<Rightarrow> Event \<Rightarrow> 'cb FdContext \<Rightarrow> 'cb ScheduleTask list" where
  \<comment> \<open>what the waiters of the events in a mask leave in the queue of the scheduler \<open>sid\<close>\<close>
  "waiters sid msk c =
     (if msk AND READ \<noteq> 0 \<and> ev_scheduler (read_ctx c) = Some sid then [task_of (read_ctx c)] else [])
     @ (if msk AND WRITE \<noteq> 0 \<and> ev_scheduler (write_ctx c) = Some sid then [task_of (write_ctx c)] else [])"

lemma queue_woken_set:
  assumes "iom_ok s" "p < next_ptr s" "msk AND NOT (events (ctxs s p)) = 0"
  shows "queue sid (woken_set msk p s) = queue sid s @ waiters sid msk (ctxs s p)"
proof -
  have c: "ctx_ok (ctxs s p)" using assms(1,2) by (rule iom_ok_ctx)
  note sub = events_subset [OF c assms(3)]
  have r: "slot READ x = read_ctx x" "slot WRITE x = write_ctx x" "write_ctx (clear_slot READ x) = write_ctx x"
    for x :: "'a FdContext"
    by (simp_all add: slot_def clear_slot_def set_event_context_def event_consts)
  define s1 where "s1 = (if msk AND READ \<noteq> 0 then woken p READ s else s)"
  have ok1: "iom_ok s1" "p < next_ptr s1" using woken_ok [OF assms(1,2), of READ] sub assms by (auto simp: s1_def)
  have q1: "queue sid s1 = queue sid s @
      (if msk AND READ \<noteq> 0 \<and> ev_scheduler (read_ctx (ctxs s p)) = Some sid then [task_of (read_ctx (ctxs s p))] else [])"
    using queue_woken [OF assms(1,2), of READ sid] sub r by (simp add: s1_def)
  have w1: "write_ctx (ctxs s1 p) = write_ctx (ctxs s p)" using r by (simp add: s1_def)
  have e1: "events (ctxs s1 p) AND WRITE \<noteq> 0" if "msk AND WRITE \<noteq> 0"
    using sub(2) [OF that] events_after_read [OF c] by (simp add: s1_def)
  have s': "woken_set msk p s = (if msk AND WRITE \<noteq> 0 then woken p WRITE s1 else s1)"
    by (simp add: woken_set_def Let_def s1_def)
  show ?thesis
  proof (cases "msk AND WRITE = 0")
    case True
    then show ?thesis using q1 by (simp add: s' waiters_def)
  next
    case False
    then show ?thesis
      using q1 queue_woken [OF ok1 _ e1, of sid] by (simp add: s' waiters_def r w1)
  qed
qed

lemma cancelAll_effect:
  assumes "iom_ok s" and "0 \<le> fd"
  shows "if events (ctx_of s (nat fd)) = NONE then cancelAll 0 fd s = Inr (False, s)
    else \<exists>s'. cancelAll 0 fd s = Inr (True, s') \<and> iom_ok s' \<and> events (ctx_of s' (nat fd)) = NONE
      \<and> (\<forall>sid. queue sid s' = queue sid s @ waiters sid (events (ctx_of s (nat fd))) (ctx_of s (nat fd)))
      \<and> (\<forall>j. j \<noteq> nat fd \<longrightarrow> ctx_of s' j = ctx_of s j)
      \<and> cancelAll rt fd s' = Inr (False, s')"
proof (cases "events (ctx_of s (nat fd)) = NONE")
  case True
  then show ?thesis
    using assms(2) ctx_of_nth [of "nat fd" s]
    by (cases "nat fd < length (m_fdContexts s)")
      (simp_all add: cancelAll_def with_ctx_nonneg cancelAll_locked_def NONE_def)
next
  case False
  then have i: "nat fd < length (m_fdContexts s)" by (intro ctx_registered_in_table) (simp add: NONE_def)
  let ?p = "m_fdContexts s ! nat fd"
  have p: "?p < next_ptr s" using iom_ok_table_nth [OF assms(1) i] by simp
  have e: "ctxs s ?p = ctx_of s (nat fd)" using ctx_of_nth [OF i] by simp
  let ?m = "events (ctx_of s (nat fd))"
  define s1 where "s1 = log_ctl EPOLL_CTL_DEL fd 0 ?p 0 s"
  have ok1: "iom_ok s1" "?p < next_ptr s1" and f1: "ctxs s1 = ctxs s" "scheds s1 = scheds s"
    "m_fdContexts s1 = m_fdContexts s"
    using iom_ok_log [OF assms(1)] p by (simp_all add: s1_def)
  have rng: "?m \<in> {0, 1, 4, 5}" by (rule ctx_ok_events [OF iom_ok_ctx [OF assms(1) p]]) (simp_all add: e)
  let ?s' = "woken_set ?m ?p s1"
  have r: "cancelAll 0 fd s = Inr (True, ?s')"
    using cancelAll_locked_cases [OF assms(1) p, of 0 fd] assms(2) False i e
    by (simp add: cancelAll_def find_nonneg Let_def s1_def NONE_def)
  have sub: "?m AND NOT (events (ctxs s1 ?p)) = 0" using f1 e by simp
  obtain c' where c': "ctxs ?s' = (ctxs s1)(?p := c')" "events c' = events (ctxs s1 ?p) AND NOT ?m"
    using woken_set_ctxs [OF rng, of ?p s1] by blast
  have u: "ctx_of ?s' j = (if j = nat fd then c' else ctx_of s j)" for j
    using ctx_of_upd [OF assms(1) i, of ?s'] f1 c' by simp
  have n: "events (ctx_of ?s' (nat fd)) = NONE" using u c' f1 e by (simp add: NONE_def)
  have "cancelAll rt fd ?s' = Inr (False, ?s')"
    using i assms(2) f1 n ctx_of_nth [of "nat fd" ?s']
    by (simp add: cancelAll_def find_nonneg cancelAll_locked_def NONE_def)
  then show ?thesis
    using False r n u queue_woken_set [OF ok1 sub] woken_set_ok [OF ok1 sub] f1 e by auto
qed

text \<open>
  \<open>cancelAll\<close> on a descriptor with events registered (and a working \<^verbatim>\<open>epoll_ctl\<close>) wakes
  every waiter exactly once, the reader before the writer, and leaves no event; its
  assertion never fails.  Without events it changes nothing.
\<close>

theorem cancelAll_wakes_all:
  assumes "iom_ok s" and "0 \<le> fd"
  shows "if events (ctx_of s (nat fd)) = NONE then cancelAll 0 fd s = Inr (False, s)
    else \<exists>s'. cancelAll 0 fd s = Inr (True, s') \<and> iom_ok s' \<and> events (ctx_of s' (nat fd)) = NONE
      \<and> (\<forall>sid. queue sid s' = queue sid s @ waiters sid (events (ctx_of s (nat fd))) (ctx_of s (nat fd)))
      \<and> (\<forall>j. j \<noteq> nat fd \<longrightarrow> ctx_of s' j = ctx_of s j)
      \<and> cancelAll rt fd s' = Inr (False, s')"
  by (rule cancelAll_effect [OF assms])

theorem cancelAll_wakes_all_witness:
  "\<exists>s'. cancelAll 0 5 demo_iom = Inr (True, s') \<and> queue 0 s' = [ScheduleTask_fiber (Some 7) (- 1)]"
proof -
  have "queue 0 demo_iom = []"
    using demo_iom_add(7) by (simp add: demo_scheds_def demo_sched_def Scheduler_new_def Let_def numeral_2_eq_2)
  then show ?thesis
    using cancelAll_wakes_all [OF demo_iom_add(2), of 5 0] demo_iom_add(4)
    by (auto simp: waiters_def task_of_def event_consts)
qed

definition ready_set :: "u32 \<Rightarrow> Event \<Rightarrow> Event" where
  \<comment> \<open>which events a report \<open>ev\<close> makes ready on a context with the events \<open>reg\<close>\<close>
  "ready_set ev reg =
     (let broken = (bit ev 3 \<or> bit ev 4)
      in (if bit ev 0 \<or> broken \<and> reg AND READ \<noteq> 0 then READ else NONE)
         OR (if bit ev 2 \<or> broken \<and> reg AND WRITE \<noteq> 0 then WRITE else NONE))"

lemma and_pow_nonzero:
  fixes w :: u32
  shows "w AND 1 = 0 \<longleftrightarrow> \<not> bit w 0" "w AND 4 = 0 \<longleftrightarrow> \<not> bit w 2" "w AND 0x18 = 0 \<longleftrightarrow> \<not> bit w 3 \<and> \<not> bit w 4"
proof -
  show "w AND 1 = 0 \<longleftrightarrow> \<not> bit w 0" by (simp add: and_one_eq bit_0 flip: even_iff_mod_2_eq_zero)
  have m: "(w AND m = 0) = (\<forall>n. bit m n \<longrightarrow> \<not> bit w n)" for m
  proof -
    have "n < 32" if "bit w n" for n using bit_imp_le_length [OF that] by simp
    then show ?thesis by (auto simp: bit_eq_iff bit_simps)
  qed
  have b4: "bit (4 :: u32) n \<longleftrightarrow> n = 2" for n
    using bit_push_bit_iff [of 2 "1 :: u32" n] by (auto simp: push_bit_eq_mult bit_1_iff)
  have "bit (0x18 :: u32) n \<longleftrightarrow> n = 3 \<or> n = 4" for n
  proof -
    have e: "(0x18 :: u32) = push_bit 3 1 OR push_bit 4 1" by (simp add: push_bit_eq_mult)
    show ?thesis unfolding e bit_or_iff bit_push_bit_iff by (auto simp: bit_1_iff)
  qed
  with m b4 show "w AND 4 = 0 \<longleftrightarrow> \<not> bit w 2" "w AND 0x18 = 0 \<longleftrightarrow> \<not> bit w 3 \<and> \<not> bit w 4"
    by auto
qed

lemma real_events_ready:
  assumes "ctx_ok c"
  shows "real_events (ready_mask ev c) = ready_set ev (events c)"
proof -
  have m: "ev AND (EPOLLERR OR EPOLLHUP) \<noteq> 0 \<longleftrightarrow> bit ev 3 \<or> bit ev 4"
    using and_pow_nonzero(3) [of ev] by (simp add: event_consts)
  have b: "bit (5 :: u32) 0" "bit (5 :: u32) 2" "bit (4 :: u32) 2" "\<not> bit (4 :: u32) 0" "bit (1 :: u32) 0" "\<not> bit (1 :: u32) 2"
    by simp_all
  show ?thesis
    unfolding real_events_def ready_mask_def ready_set_def m Let_def
    by (rule ctx_ok_events [OF assms]) (auto simp: event_consts and_pow_nonzero bit_or_iff b)
qed

text \<open>
  C10: one ready descriptor in the event loop: nothing happens when no registered event is
  ready; otherwise, when the kernel reports only events that are still registered (errors
  and hang-ups count for every registered one), exactly the waiters of the ready events are
  put in their queues and the other event stays; but when a reported event was deleted
  between \<^verbatim>\<open>epoll_wait\<close> and the mutex while the other one is ready too, the assertion of
  \<open>triggerEvent\<close> fails.
\<close>

theorem idle_event_wakes_ready:
  assumes "iom_ok s" and "i < length (m_fdContexts s)"
    and "data_fd addr tickle_fd (CtxData (m_fdContexts s ! i)) \<noteq> tickle_fd"
    and "real = ready_set ev (events (ctx_of s i))"
  shows "if events (ctx_of s i) AND real = NONE
      then idle_event addr tickle_fd 0 (ev, CtxData (m_fdContexts s ! i)) s = Inr s
    else if real AND NOT (events (ctx_of s i)) = 0
      then \<exists>s'. idle_event addr tickle_fd 0 (ev, CtxData (m_fdContexts s ! i)) s = Inr s' \<and> iom_ok s'
        \<and> (\<forall>sid. queue sid s' = queue sid s @ waiters sid real (ctx_of s i))
        \<and> events (ctx_of s' i) = events (ctx_of s i) AND NOT real
        \<and> (\<forall>j. j \<noteq> i \<longrightarrow> ctx_of s' j = ctx_of s j)
    else idle_event addr tickle_fd 0 (ev, CtxData (m_fdContexts s ! i)) s = Inl AssertFailed"
proof -
  let ?p = "m_fdContexts s ! i"
  define s1 where "s1 = log_ctl (if events (ctx_of s i) AND NOT real \<noteq> 0 then EPOLL_CTL_MOD else EPOLL_CTL_DEL)
      (fd_no (ctx_of s i)) (EPOLLET OR (events (ctx_of s i) AND NOT real)) ?p 0 s"
  have p: "?p < next_ptr s" using iom_ok_table_nth [OF assms(1,2)] by simp
  have e: "ctxs s ?p = ctx_of s i" using ctx_of_nth [OF assms(2)] by simp
  have real: "real = real_events (ready_mask ev (ctx_of s i))"
    using real_events_ready [OF iom_ok_ctx [OF assms(1) p], of ev] assms(4) e by simp
  note c = idle_event_cases [OF assms(1) p assms(3), of 0 ev, unfolded Let_def e, folded real, folded s1_def]
  have ok1: "iom_ok s1" "?p < next_ptr s1" and f1: "ctxs s1 = ctxs s" "scheds s1 = scheds s"
    "m_fdContexts s1 = m_fdContexts s"
    using iom_ok_log [OF assms(1)] p by (simp_all add: s1_def)
  show ?thesis
  proof (cases "events (ctx_of s i) AND real \<noteq> 0 \<and> real AND NOT (events (ctx_of s i)) = 0")
    case True
    then have sub: "real AND NOT (events (ctxs s1 ?p)) = 0" using f1 e by simp
    have rng: "real \<in> {0, 1, 4, 5}" unfolding real by (rule real_events_range)
    obtain c' where c': "ctxs (woken_set real ?p s1) = (ctxs s1)(?p := c')" "events c' = events (ctxs s1 ?p) AND NOT real"
      using woken_set_ctxs [OF rng, of ?p s1] by blast
    have u: "ctx_of (woken_set real ?p s1) j = (if j = i then c' else ctx_of s j)" for j
      using ctx_of_upd [OF assms(1,2), of "woken_set real ?p s1"] f1 c' by simp
    show ?thesis
      using True c u c' queue_woken_set [OF ok1 sub] woken_set_ok [OF ok1 sub] f1 e by (auto simp: NONE_def)
  next
    case False
    then show ?thesis using c by (auto simp: NONE_def)
  qed
qed

theorem idle_event_wakes_ready_witness:
  "\<exists>s'. idle_event (\<lambda>_. 0x10000) 3 0 (EPOLLHUP, CtxData (m_fdContexts demo_iom ! 5)) demo_iom = Inr s'
      \<and> queue 0 s' = [ScheduleTask_fiber (Some 7) (- 1)]"
proof -
  have q: "queue 0 demo_iom = []"
    using demo_iom_add(7) by (simp add: demo_scheds_def demo_sched_def Scheduler_new_def Let_def numeral_2_eq_2)
  have r: "ready_set EPOLLHUP (events (ctx_of demo_iom 5)) = 1"
    by (simp add: ready_set_def demo_iom_add(4) event_consts Let_def)
  show ?thesis
    using idle_event_wakes_ready [OF demo_iom_add(2,3), of "\<lambda>_. 0x10000" 3 1 EPOLLHUP] q r demo_iom_add(4)
    by (auto simp: waiters_def task_of_def event_consts data_fd_def)
qed

text \<open>
  C9: when operations do not race with a resize, the kernel's interest list is exactly what
  the contexts say: a descriptor is in it, edge-triggered and with its registered events,
  if and only if it has some; and every \<^verbatim>\<open>epoll_ctl\<close> is the right one, \<open>ADD\<close> for a
  descriptor that is not in the list and \<open>MOD\<close> or \<open>DEL\<close> for one that is.
\<close>

theorem epoll_interest_exact:
  assumes "iom_start s0" and "seq_step\<^sup>*\<^sup>* s0 s"
  shows "interest (ctl_log s) (int i) =
      (if events (ctx_of s i) = NONE then None else Some (EPOLLET OR events (ctx_of s i)))
    \<and> (\<forall>n < length (ctl_log s). (ctl_op (ctl_log s ! n) = EPOLL_CTL_ADD)
        = (interest (take n (ctl_log s)) (ctl_fd (ctl_log s ! n)) = None))"
  using sq.reachable_inv [OF assms]
  by (simp add: seq_ok_def want_def ctls_legal_def ctl_legal_def NONE_def)

lemma demo_iom_reachable: "seq_step\<^sup>*\<^sup>* (IOManager_new 0 demo_scheds 0) demo_iom"
  by (rule r_into_rtranclp, rule sq_add [OF _ demo_caller_ok(2,1) demo_iom_add(1)]) simp

theorem epoll_interest_exact_witness: "interest (ctl_log demo_iom) 5 = Some (EPOLLET OR READ)"
  using epoll_interest_exact [OF iom_start.intros demo_iom_reachable, of 5] demo_iom_add(4)
  by (simp add: event_consts)

text \<open>
  When \<^verbatim>\<open>epoll_ctl\<close> fails, \<open>delEvent\<close>, \<open>cancelEvent\<close> and \<open>cancelAll\<close> return true (their
  \<^verbatim>\<open>return -1\<close> is converted to \<^verbatim>\<open>bool\<close>) although the event stays registered, nobody was
  woken and the count is unchanged.
\<close>

theorem failed_ctl_returns_true:
  assumes "iom_ok s" and "0 \<le> fd" and "rw event" and "events (ctx_of s (nat fd)) AND event \<noteq> 0" and "rt \<noteq> 0"
  shows "\<forall>r \<in> {delEvent rt fd event s, cancelEvent rt fd event s, cancelAll rt fd s}.
    \<exists>s'. r = Inr (True, s') \<and> (\<forall>j. ctx_of s' j = ctx_of s j) \<and> scheds s' = scheds s
      \<and> m_pendingEventCount s' = m_pendingEventCount s"
proof -
  have nz: "events (ctx_of s (nat fd)) \<noteq> 0" using assms(4) by auto
  then have i: "nat fd < length (m_fdContexts s)" by (rule ctx_registered_in_table)
  let ?p = "m_fdContexts s ! nat fd"
  have p: "?p < next_ptr s" using iom_ok_table_nth [OF assms(1) i] by simp
  have e: "ctxs s ?p = ctx_of s (nat fd)" using ctx_of_nth [OF i] by simp
  have ev: "event = READ \<or> event = WRITE" using assms(3) by (simp add: rw_def)
  have fr: "ctx_of (log_ctl op fd m q rt s) j = ctx_of s j" for op m q j
    by (rule ctx_of_frame) simp_all
  show ?thesis
    using cancelEvent_locked_cases [OF assms(1) p ev, of rt fd] delEvent_locked_cases [OF ev, of rt fd ?p s]
      cancelAll_locked_cases [OF assms(1) p, of rt fd] assms(2,4,5) nz e fr
    by (simp add: delEvent_def cancelEvent_def cancelAll_def find_nonneg [OF assms(2) i] Let_def)
qed

theorem failed_ctl_returns_true_witness:
  "\<exists>s'. cancelEvent (- 1) 5 READ demo_iom = Inr (True, s') \<and> ctx_of s' 5 = ctx_of demo_iom 5"
proof -
  have "events (ctx_of demo_iom (nat 5)) AND READ \<noteq> 0" by (simp add: demo_iom_add(4) event_consts)
  from failed_ctl_returns_true [OF demo_iom_add(2) _ demo_caller_ok(2) this, of "- 1"]
  show ?thesis by auto
qed

text \<open>
  C32: the write lock of \<open>addEvent\<close> is taken without looking at the size again: if another
  thread registered a descriptor \<open>b\<close> in between and grew the table further, the resize to
  \<^verbatim>\<open>fd * 1.5\<close> shrinks it, the context of \<open>b\<close> is no longer in the table although its waiter
  is counted, and \<open>delEvent\<close>, \<open>cancelEvent\<close> and \<open>cancelAll\<close> on \<open>b\<close> find nothing.
\<close>

theorem stale_resize_loses_context:
  assumes "iom_ok s" and "find_ctx a s = Inr None" and "0 \<le> b" and "grow_size (nat a) \<le> nat b"
    and "rw event" and "caller_ok me" and "events (ctx_of s (nat b)) AND event = 0"
  shows "\<exists>s1 p s2. addEvent me 0 b event cbk s = Inr (0, s1) \<and> grow_ctx a s1 = Inr (p, s2)
    \<and> delEvent rt b e s2 = Inr (False, s2) \<and> cancelEvent rt b e s2 = Inr (False, s2)
    \<and> cancelAll rt b s2 = Inr (False, s2)
    \<and> m_pendingEventCount s2 = m_pendingEventCount s + 1 \<and> events (ctx_of s1 (nat b)) AND event \<noteq> 0"
proof -
  have a: "int (length (m_fdContexts s)) \<le> a" using assms(2) by (simp add: find_ctx_def split: if_splits)
  moreover have "32 \<le> length (m_fdContexts s)" using assms(1) by (simp add: iom_ok_def)
  ultimately have a32: "32 \<le> nat a" by linarith
  obtain s1 where s1: "addEvent me 0 b event cbk s = Inr (0, s1)" "iom_ok s1" "nat b < length (m_fdContexts s1)"
      "events (ctx_of s1 (nat b)) = events (ctx_of s (nat b)) OR event"
      "m_pendingEventCount s1 = m_pendingEventCount s + 1"
    using addEvent_effect [OF assms(1,3,5,6), of 0 cbk] assms(7) by auto
  have t1: "table_ok s1" using s1(2) by (simp add: iom_ok_table)
  let ?s2 = "contextResize (grow_size (nat a)) s1"
  have len: "length (m_fdContexts ?s2) = grow_size (nat a)" by (rule contextResize_facts(2) [OF t1])
  have g: "grow_ctx a s1 = Inr (m_fdContexts ?s2 ! nat a, ?s2)"
    using a32 len by (simp add: grow_ctx_def Let_def grow_size_def)
  have "\<not> nat b < length (m_fdContexts ?s2)" using len assms(4) by simp
  then have n: "with_ctx b body ?s2 = Inr (False, ?s2)" for body
    using assms(3) by (simp add: with_ctx_nonneg)
  have "(events (ctx_of s (nat b)) OR event) AND event \<noteq> 0"
    using assms(5) by (simp add: rw_def event_consts bit.conj_disj_distrib2 assms(7)) auto
  then show ?thesis
    using s1 g n contextResize_frame(5) [OF t1, of "grow_size (nat a)"]
    by (auto simp: delEvent_def cancelEvent_def cancelAll_def)
qed

theorem stale_resize_loses_context_witness:
  "\<exists>s1 p s2. addEvent demo_caller 0 200 READ (Some 1) (IOManager_new 0 demo_scheds 0) = Inr (0, s1)
     \<and> grow_ctx 40 s1 = Inr (p, s2) \<and> cancelAll 0 200 s2 = Inr (False, s2) \<and> m_pendingEventCount s2 = 1"
proof -
  have "find_ctx 40 (IOManager_new 0 demo_scheds 0) = Inr None" by (simp add: find_ctx_def IOManager_new_facts)
  from stale_resize_loses_context [OF IOManager_new_ok this _ _ demo_caller_ok(2,1), of 200 "Some 1" 0 READ]
  show ?thesis by (auto simp: grow_size_def IOManager_new_facts FdContext_new_def NONE_def)
qed

text \<open>
  The loop of \<open>idle\<close> is left only when nothing is left to do: no timer is pending, no
  event is registered on any context, the queue is empty, no worker holds a task, and
  \<open>stop\<close> was called; the wait is never longer than 5 seconds.
\<close>

theorem idle_stops_when_done:
  assumes "iom_ok s" and "\<forall>i \<in> set (m_timers (timers s)). key (timers s) i - now < 2 ^ 63"
    and "2 * next_ptr s < 2 ^ 64"
  shows "(snd (iom_stopping now s) \<longrightarrow> m_timers (timers s) = [] \<and> (\<forall>p < next_ptr s. events (ctxs s p) = NONE)
        \<and> queue (self s) s = [] \<and> m_activeThreadCount (scheds s (self s)) = 0 \<and> m_stopping (scheds s (self s)))
    \<and> 0 \<le> snd (idle_timeout now s) \<and> snd (idle_timeout now s) \<le> 5000"
proof -
  have w: "waits c \<le> 2" for c :: "'a FdContext" by (simp add: waits_def)
  have "(\<Sum>p < next_ptr s. waits (ctxs s p)) \<le> (\<Sum>p < next_ptr s. 2)" by (rule sum_mono) (rule w)
  then have small: "(\<Sum>p < next_ptr s. waits (ctxs s p)) < 2 ^ 64" using assms(3) by simp
  have ev: "events (ctxs s p) = NONE" if "m_pendingEventCount s = 0" "p < next_ptr s" for p
  proof -
    have z: "n = 0" if "of_nat n = (0 :: u64)" "n < 2 ^ 64" for n
      using that nat_dvd_not_less [of n "2 ^ 64"] by (auto simp: word_of_nat_eq_0_iff)
    have "of_nat (\<Sum>p < next_ptr s. waits (ctxs s p)) = (0 :: u64)"
      using assms(1) that(1) by (simp only: iom_ok_def)
    then have "(\<Sum>p < next_ptr s. waits (ctxs s p)) = 0" by (rule z [OF _ small])
    then have "waits (ctxs s p) = 0" using that(2) by simp
    then show ?thesis
      by (cases rule: ctx_ok_events [OF iom_ok_ctx [OF assms(1) that(2)]]) (auto simp: waits_def event_consts)
  qed
  have t: "m_timers (timers s) = []" if "snd (getNextTimer now (timers s)) = - 1"
  proof (rule ccontr)
    assume "m_timers (timers s) \<noteq> []"
    then obtain i xs where xs: "m_timers (timers s) = i # xs" by (cases "m_timers (timers s)") auto
    show False
    proof (cases "key (timers s) i \<le> now")
      case True
      then show ?thesis using that xs by (simp add: getNextTimer_def)
    next
      case False
      let ?d = "(key (timers s) i - now) div 1000000"
      have "key (timers s) i - now < 2 ^ 63" using assms(2) xs by simp
      then have "0 \<le> ?d" "?d < 2 ^ 63" using False by auto
      then have "uint (word_of_int ?d :: u64) < 2 ^ 63" by (simp add: unsigned_of_int take_bit_int_eq_self)
      moreover have "(word_of_int ?d :: u64) = - 1" using that xs False by (simp add: getNextTimer_def)
      ultimately show False by (simp add: unsigned_minus_1_eq_mask mask_eq_exp_minus_1)
    qed
  qed
  have "0 \<le> sint (ucast (min x 5000 :: u64) :: u32) \<and> sint (ucast (min x 5000 :: u64) :: u32) \<le> 5000" for x
  proof -
    have "min x 5000 \<le> (5000 :: u64)" by simp
    then have "uint (min x 5000 :: u64) \<le> 5000" by (simp add: word_le_def)
    moreover have "(ucast (min x 5000 :: u64) :: u32) = word_of_int (uint (min x 5000 :: u64))" by simp
    moreover have "signed_take_bit 31 k = k" if "0 \<le> k" "k \<le> 5000" for k :: int
      using that by (intro signed_take_bit_int_eq_self) simp_all
    ultimately show ?thesis
      using uint_ge_0 [of "min x 5000"] by (simp only: signed_of_int) simp
  qed
  then show ?thesis
    using ev t by (auto simp: iom_stopping_def stopping_def idle_timeout_def Let_def split: prod.splits)
qed

lemma fill_none_next: "next_ptr (snd (fill_contexts i (replicate n None) s)) = next_ptr s + n"
  by (induction n arbitrary: i s) (simp_all add: Let_def case_prod_beta)

lemma IOManager_new_next32: "next_ptr (IOManager_new me sch now) = 32"
proof -
  let ?s = "\<lparr>self = me, scheds = sch, pipes = (\<lambda>_. 0), timers = TimerManager_new now,
        ctxs = (\<lambda>_. FdContext_new 0), next_ptr = 0, m_fdContexts = [], m_pendingEventCount = 0, ctl_log = []\<rparr>"
  have "next_ptr (IOManager_new me sch now) = next_ptr (snd (fill_contexts 0 (replicate 32 None) ?s))"
    by (simp add: IOManager_new_def contextResize_def vector_resize_def Let_def split: prod.split)
  then show ?thesis by (simp add: fill_none_next)
qed

theorem idle_stops_when_done_witness:
  "snd (idle_timeout 0 (IOManager_new 0 demo_scheds 0)) \<le> 5000
   \<and> \<not> snd (iom_stopping 0 (IOManager_new 0 demo_scheds 0))"
proof -
  have "\<not> m_stopping (demo_scheds 0)"
    by (simp add: demo_scheds_def demo_sched_def Scheduler_new_def Let_def numeral_2_eq_2)
  then show ?thesis
    using idle_stops_when_done [OF IOManager_new_ok [of 0 demo_scheds 0], of 0]
    by (auto simp: IOManager_new_facts IOManager_new_next32 TimerManager_new_def)
qed

end
