(* ===== verification/Hook.thy ===== *)
theory Hook
  imports IOManager FdManager
begin

text \<open>
  \<^verbatim>\<open>CoroutineLibrary/hook.cpp\<close>: the system calls the framework replaces, so that a call that
  would block suspends the calling fiber instead.  A call that suspends is two functions: one up
  to the \<^verbatim>\<open>yield\<close>, which returns a frame with the local variables that live across it, and one
  from the moment the fiber is resumed.  What runs in between is arbitrary.

  The functions found by \<^verbatim>\<open>dlsym\<close> are the kernel: each is an argument, a function on the
  kernel's state that returns the result and the value of \<^verbatim>\<open>errno\<close> afterwards.  The outcome
  \<open>rt\<close> of an \<^verbatim>\<open>epoll_ctl\<close> and the times read are arguments, as for the manager.
\<close>

section \<open>Data\<close>

unbundle bit_operations_syntax

definition EINTR :: int where "EINTR = 4"
definition EBADF :: int where "EBADF = 9"
definition EAGAIN :: int where "EAGAIN = 11"
definition ETIMEDOUT :: int where "ETIMEDOUT = 110"
definition EINPROGRESS :: int where "EINPROGRESS = 115"

lemmas errnos = EINTR_def EBADF_def EAGAIN_def ETIMEDOUT_def EINPROGRESS_def

type_synonym 'k sysfun = "'k \<Rightarrow> int \<times> int \<times> 'k"

text \<open>The closures the hooks hand to timers: wake a fiber, or give up waiting for an event.\<close>

datatype hook_call = WakeFiber nat | TimeoutIO nat int Event

type_synonym hook_cb = "(nat, hook_call) timer_cb"

record 'k hooks =
  t_hook_enable :: bool
  fdmgr :: fd_manager
  iom :: "hook_cb iomanager option"       \<comment> \<open>\<^verbatim>\<open>IOManager::GetThis()\<close>\<close>
  tinfo :: "nat \<Rightarrow> int option"            \<comment> \<open>\<open>cancelled\<close> of each \<^verbatim>\<open>timer_info\<close>, \<open>None\<close> when it is gone\<close>
  next_tinfo :: nat
  kern :: 'k
  errno :: int

datatype hook_error = NullManager | FdError fd_error | IomError iom_error

record io_frame =
  fr_fd :: int
  fr_event :: Event
  fr_timeout :: u64
  fr_tinfo :: nat
  fr_timer :: "nat option"

datatype 'f io_step = IoReturn int | IoYield 'f

definition c_div :: "int \<Rightarrow> int \<Rightarrow> int" where
  \<comment> \<open>division of C: towards zero\<close>
  "c_div a b = (if (a < 0) \<noteq> (b < 0) then - (\<bar>a\<bar> div \<bar>b\<bar>) else \<bar>a\<bar> div \<bar>b\<bar>)"

section \<open>Switching the hooks on\<close>

definition is_hook_enable :: "'k hooks \<Rightarrow> bool" where
  "is_hook_enable w = t_hook_enable w"

definition set_hook_enable :: "bool \<Rightarrow> 'k hooks \<Rightarrow> 'k hooks" where
  "set_hook_enable flag w = w\<lparr>t_hook_enable := flag\<rparr>"

definition HOOK_FUN :: "string list" where
  "HOOK_FUN =
     [''sleep'', ''usleep'', ''nanosleep'', ''socket'', ''connect'', ''accept'', ''read'', ''readv'', ''recv'',
      ''recvfrom'', ''recvmsg'', ''write'', ''writev'', ''send'', ''sendto'', ''sendmsg'', ''close'', ''fcntl'',
      ''ioctl'', ''getsockopt'', ''setsockopt'']"

definition hook_init :: "(string \<Rightarrow> 'f option) \<Rightarrow> bool \<times> (string \<Rightarrow> 'f option) \<Rightarrow> bool \<times> (string \<Rightarrow> 'f option)" where
  \<comment> \<open>\<open>is_inited\<close> and the variables \<^verbatim>\<open>sleep_f\<close>, ..., null at first\<close>
  "hook_init dlsym st =
     (case st of (is_inited, f) \<Rightarrow>
        if is_inited then (is_inited, f)
        else (True, fold (\<lambda>name f. f(name := dlsym name)) HOOK_FUN f))"

section \<open>Parts of the calls\<close>

definition direct :: "'k sysfun \<Rightarrow> 'k hooks \<Rightarrow> int \<times> 'k hooks" where
  \<comment> \<open>a plain call of the original function\<close>
  "direct fn w = (case fn (kern w) of (n, e, k) \<Rightarrow> (n, w\<lparr>kern := k, errno := e\<rparr>))"

definition get_fd :: "'k os \<Rightarrow> int \<Rightarrow> bool \<Rightarrow> 'k hooks \<Rightarrow> hook_error + (nat option \<times> 'k hooks)" where
  \<comment> \<open>\<^verbatim>\<open>FdMgr::GetInstance()->get(fd, auto_create)\<close>\<close>
  "get_fd os fd auto_create w =
     (case FdManager_get os fd auto_create (fdmgr w) (kern w) of
        Inl e \<Rightarrow> Inl (FdError e)
      | Inr (r, m, k) \<Rightarrow> Inr (r, w\<lparr>fdmgr := m, kern := k\<rparr>))"

definition front_tickle :: "bool \<Rightarrow> 'cb iomanager \<Rightarrow> 'cb iomanager" where
  "front_tickle at_front m = (if at_front then onTimerInsertedAtFront m else m)"

definition arm_timer :: "int \<Rightarrow> u64 \<Rightarrow> hook_cb \<Rightarrow> hook_cb iomanager \<Rightarrow> hook_cb iomanager \<times> nat" where
  \<comment> \<open>\<^verbatim>\<open>iom->addTimer\<close>\<close>
  "arm_timer now ms call m =
     (case addTimer now ms (Some call) False (timers m) of
        (t, i, at_front) \<Rightarrow> (front_tickle at_front (m\<lparr>timers := t\<rparr>), i))"

definition arm_condition ::
    "int \<Rightarrow> u64 \<Rightarrow> hook_call \<Rightarrow> nat \<Rightarrow> hook_cb iomanager \<Rightarrow> hook_cb iomanager \<times> nat" where
  \<comment> \<open>\<^verbatim>\<open>iom->addConditionTimer\<close>\<close>
  "arm_condition now ms call cond m =
     (case addConditionTimer now ms call cond False (timers m) of
        (t, i, at_front) \<Rightarrow> (front_tickle at_front (m\<lparr>timers := t\<rparr>), i))"

definition arm_timeout ::
    "int \<Rightarrow> u64 \<Rightarrow> nat \<Rightarrow> int \<Rightarrow> Event \<Rightarrow> hook_cb iomanager \<Rightarrow> hook_cb iomanager \<times> nat option" where
  \<comment> \<open>a timer only when a timeout was set\<close>
  "arm_timeout now timeout ti fd event m =
     (if timeout \<noteq> - 1
      then (case arm_condition now timeout (TimeoutIO ti fd event) ti m of (m1, i) \<Rightarrow> (m1, Some i))
      else (m, None))"

definition disarm :: "nat option \<Rightarrow> 'cb iomanager \<Rightarrow> 'cb iomanager" where
  "disarm timer m = (case timer of None \<Rightarrow> m | Some i \<Rightarrow> m\<lparr>timers := fst (cancel i (timers m))\<rparr>)"

definition new_tinfo :: "'k hooks \<Rightarrow> nat \<times> 'k hooks" where
  "new_tinfo w = (next_tinfo w, w\<lparr>tinfo := (tinfo w)(next_tinfo w := Some 0), next_tinfo := Suc (next_tinfo w)\<rparr>)"

definition drop_tinfo :: "nat \<Rightarrow> 'k hooks \<Rightarrow> 'k hooks" where
  \<comment> \<open>the last \<^verbatim>\<open>shared_ptr\<close> leaves its scope\<close>
  "drop_tinfo ti w = w\<lparr>tinfo := (tinfo w)(ti := None)\<rparr>"

section \<open>\<open>do_io\<close>\<close>

partial_function (option) call_eintr :: "'k sysfun \<Rightarrow> 'k \<Rightarrow> (int \<times> int \<times> 'k) option" where
  \<comment> \<open>the call and its repetition while it is interrupted\<close>
  "call_eintr fn k =
     (case fn k of (n, e, k1) \<Rightarrow> if n = - 1 \<and> e = EINTR then call_eintr fn k1 else Some (n, e, k1))"

definition do_io_wait ::
    "int \<Rightarrow> int \<Rightarrow> caller \<Rightarrow> io_frame \<Rightarrow> 'k hooks \<Rightarrow> hook_error + (io_frame io_step \<times> 'k hooks)" where
  \<comment> \<open>the branch for \<^verbatim>\<open>EAGAIN\<close>, up to the \<^verbatim>\<open>yield\<close>\<close>
  "do_io_wait now rt me fr w =
     (case iom w of
        None \<Rightarrow> Inl NullManager
      | Some m \<Rightarrow>
          (case arm_timeout now (fr_timeout fr) (fr_tinfo fr) (fr_fd fr) (fr_event fr) m of
             (m1, timer) \<Rightarrow>
               (case addEvent me rt (fr_fd fr) (fr_event fr) None m1 of
                  Inl e \<Rightarrow> Inl (IomError e)
                | Inr (r, m2) \<Rightarrow>
                    if r \<noteq> 0
                    then Inr (IoReturn (- 1), drop_tinfo (fr_tinfo fr) (w\<lparr>iom := Some (disarm timer m2)\<rparr>))
                    else Inr (IoYield (fr\<lparr>fr_timer := timer\<rparr>), w\<lparr>iom := Some m2\<rparr>))))"

definition do_io_attempt ::
    "'k sysfun \<Rightarrow> int \<Rightarrow> int \<Rightarrow> caller \<Rightarrow> io_frame \<Rightarrow> 'k hooks
     \<Rightarrow> (hook_error + (io_frame io_step \<times> 'k hooks)) option" where
  \<comment> \<open>from the label \<^verbatim>\<open>retry\<close>\<close>
  "do_io_attempt fn now rt me fr w =
     (case call_eintr fn (kern w) of
        None \<Rightarrow> None
      | Some (n, e, k) \<Rightarrow>
          (let w1 = w\<lparr>kern := k, errno := e\<rparr>
           in Some (if n = - 1 \<and> e = EAGAIN then do_io_wait now rt me fr w1
                    else Inr (IoReturn n, drop_tinfo (fr_tinfo fr) w1))))"

definition do_io ::
    "'k os \<Rightarrow> int \<Rightarrow> 'k sysfun \<Rightarrow> Event \<Rightarrow> int \<Rightarrow> int \<Rightarrow> int \<Rightarrow> caller \<Rightarrow> 'k hooks
     \<Rightarrow> (hook_error + (io_frame io_step \<times> 'k hooks)) option" where
  "do_io os fd fn event timeout_so now rt me w =
     (if \<not> t_hook_enable w then (case direct fn w of (n, w1) \<Rightarrow> Some (Inr (IoReturn n, w1)))
      else case get_fd os fd False w of
        Inl e \<Rightarrow> Some (Inl e)
      | Inr (None, w1) \<Rightarrow> (case direct fn w1 of (n, w2) \<Rightarrow> Some (Inr (IoReturn n, w2)))
      | Inr (Some p, w1) \<Rightarrow>
          (let ctx = heap (fdmgr w1) p
           in if m_isClosed ctx then Some (Inr (IoReturn (- 1), w1\<lparr>errno := EBADF\<rparr>))
              else if \<not> m_isSocket ctx \<or> m_userNonblock ctx
              then (case direct fn w1 of (n, w2) \<Rightarrow> Some (Inr (IoReturn n, w2)))
              else (case new_tinfo w1 of
                      (ti, w2) \<Rightarrow>
                        do_io_attempt fn now rt me
                          \<lparr>fr_fd = fd, fr_event = event, fr_timeout = getTimeout timeout_so ctx, fr_tinfo = ti,
                           fr_timer = None\<rparr> w2)))"

definition do_io_resume ::
    "'k sysfun \<Rightarrow> int \<Rightarrow> int \<Rightarrow> caller \<Rightarrow> io_frame \<Rightarrow> 'k hooks
     \<Rightarrow> (hook_error + (io_frame io_step \<times> 'k hooks)) option" where
  \<comment> \<open>after the \<^verbatim>\<open>yield\<close>\<close>
  "do_io_resume fn now rt me fr w =
     (let w1 = w\<lparr>iom := map_option (disarm (fr_timer fr)) (iom w)\<rparr>
      in if tinfo w1 (fr_tinfo fr) = Some ETIMEDOUT
         then Some (Inr (IoReturn (- 1), drop_tinfo (fr_tinfo fr) (w1\<lparr>errno := ETIMEDOUT\<rparr>)))
         else do_io_attempt fn now rt me (fr\<lparr>fr_timer := None\<rparr>) w1)"

definition timeout_callback :: "int \<Rightarrow> nat \<Rightarrow> int \<Rightarrow> Event \<Rightarrow> 'k hooks \<Rightarrow> hook_error + 'k hooks" where
  \<comment> \<open>the closure given to the condition timer\<close>
  "timeout_callback rt ti fd event w =
     (case tinfo w ti of
        None \<Rightarrow> Inr w
      | Some cancelled \<Rightarrow>
          (if cancelled \<noteq> 0 then Inr w
           else
             (let w1 = w\<lparr>tinfo := (tinfo w)(ti := Some ETIMEDOUT)\<rparr>
              in case iom w1 of
                   None \<Rightarrow> Inl NullManager
                 | Some m \<Rightarrow>
                     (case cancelEvent rt fd event m of
                        Inl e \<Rightarrow> Inl (IomError e)
                      | Inr (_, m1) \<Rightarrow> Inr (w1\<lparr>iom := Some m1\<rparr>)))))"

definition run_timer_cb :: "int \<Rightarrow> hook_cb \<Rightarrow> 'k hooks \<Rightarrow> hook_error + 'k hooks" where
  \<comment> \<open>a worker runs the callback of an expired timer\<close>
  "run_timer_cb rt call w =
     (case call_timer_cb (\<lambda>ti. tinfo w ti \<noteq> None) call of
        None \<Rightarrow> Inr w
      | Some (TimeoutIO ti fd event) \<Rightarrow> timeout_callback rt ti fd event w
      | Some (WakeFiber f) \<Rightarrow>
          (case iom w of
             None \<Rightarrow> Inl NullManager
           | Some m \<Rightarrow> Inr (w\<lparr>iom := Some (schedule_on (self m) (ScheduleTask_fiber (Some f) (- 1)) m)\<rparr>)))"

section \<open>\<open>sleep\<close>\<close>

definition sleep_on :: "'k sysfun \<Rightarrow> int \<Rightarrow> u64 \<Rightarrow> caller \<Rightarrow> 'k hooks \<Rightarrow> hook_error + (unit io_step \<times> 'k hooks)" where
  \<comment> \<open>the body \<open>sleep\<close>, \<open>usleep\<close> and \<open>nanosleep\<close> share; they return 0 when resumed\<close>
  "sleep_on fn now ms me w =
     (if \<not> t_hook_enable w then (case direct fn w of (n, w1) \<Rightarrow> Inr (IoReturn n, w1))
      else case iom w of
        None \<Rightarrow> Inl NullManager
      | Some m \<Rightarrow> Inr (IoYield (), w\<lparr>iom := Some (fst (arm_timer now ms (Direct (WakeFiber (this_fiber me))) m))\<rparr>))"

definition sleep :: "'k sysfun \<Rightarrow> int \<Rightarrow> u32 \<Rightarrow> caller \<Rightarrow> 'k hooks \<Rightarrow> hook_error + (unit io_step \<times> 'k hooks)" where
  \<comment> \<open>the product is computed in \<^verbatim>\<open>unsigned int\<close>\<close>
  "sleep fn now seconds me w = sleep_on fn now (ucast (seconds * 1000)) me w"

definition usleep :: "'k sysfun \<Rightarrow> int \<Rightarrow> u32 \<Rightarrow> caller \<Rightarrow> 'k hooks \<Rightarrow> hook_error + (unit io_step \<times> 'k hooks)" where
  "usleep fn now usec me w = sleep_on fn now (ucast (usec div 1000)) me w"

definition nanosleep ::
    "'k sysfun \<Rightarrow> int \<Rightarrow> int \<Rightarrow> int \<Rightarrow> caller \<Rightarrow> 'k hooks \<Rightarrow> hook_error + (unit io_step \<times> 'k hooks)" where
  \<comment> \<open>\<open>timeout_ms\<close> is an \<^verbatim>\<open>int\<close>, converted to 64 unsigned bits by the call\<close>
  "nanosleep fn now tv_sec tv_nsec me w =
     (let timeout_ms = (word_of_int (tv_sec * 1000 + c_div (c_div tv_nsec 1000) 1000) :: u32)
      in sleep_on fn now (scast timeout_ms) me w)"

section \<open>\<open>socket\<close>, \<open>accept\<close> and the calls on top of \<open>do_io\<close>\<close>

definition hook_socket :: "'k os \<Rightarrow> 'k sysfun \<Rightarrow> 'k hooks \<Rightarrow> hook_error + (int \<times> 'k hooks)" where
  "hook_socket os socket_f w =
     (case direct socket_f w of
        (fd, w1) \<Rightarrow>
          if \<not> t_hook_enable w \<or> fd = - 1 then Inr (fd, w1)
          else case get_fd os fd True w1 of Inl e \<Rightarrow> Inl e | Inr (_, w2) \<Rightarrow> Inr (fd, w2))"

datatype io_call =
  CAccept | CRead | CReadv | CRecv | CRecvfrom | CRecvmsg | CWrite | CWritev | CSend | CSendto | CSendmsg

fun reads :: "io_call \<Rightarrow> bool" where
  "reads CWrite = False" | "reads CWritev = False" | "reads CSend = False"
| "reads CSendto = False" | "reads CSendmsg = False" | "reads _ = True"

definition hook_io ::
    "'k os \<Rightarrow> io_call \<Rightarrow> 'k sysfun \<Rightarrow> int \<Rightarrow> int \<Rightarrow> int \<Rightarrow> caller \<Rightarrow> 'k hooks
     \<Rightarrow> (hook_error + (io_frame io_step \<times> 'k hooks)) option" where
  \<comment> \<open>\<open>read\<close>, ..., \<open>sendmsg\<close>: the original function applied to the other arguments is \<open>fn\<close>\<close>
  "hook_io os call fn fd now rt me w =
     (if reads call then do_io os fd fn READ SO_RCVTIMEO now rt me w
      else do_io os fd fn WRITE SO_SNDTIMEO now rt me w)"

definition accept_return :: "'k os \<Rightarrow> int \<Rightarrow> 'k hooks \<Rightarrow> hook_error + (int \<times> 'k hooks)" where
  \<comment> \<open>\<open>accept\<close> when its \<open>do_io\<close> returns \<open>fd\<close>\<close>
  "accept_return os fd w =
     (if fd \<ge> 0 then (case get_fd os fd True w of Inl e \<Rightarrow> Inl e | Inr (_, w1) \<Rightarrow> Inr (fd, w1)) else Inr (fd, w))"

section \<open>\<open>connect\<close>\<close>

record connect_frame =
  cn_fd :: int
  cn_tinfo :: nat
  cn_timer :: "nat option"

definition connect_check :: "('k \<Rightarrow> int option \<times> int \<times> 'k) \<Rightarrow> 'k hooks \<Rightarrow> int \<times> 'k hooks" where
  \<comment> \<open>\<^verbatim>\<open>SO_ERROR\<close>: \<open>None\<close> when \<^verbatim>\<open>getsockopt\<close> fails\<close>
  "connect_check so_error w =
     (case so_error (kern w) of
        (None, e, k) \<Rightarrow> (- 1, w\<lparr>kern := k, errno := e\<rparr>)
      | (Some error, e, k) \<Rightarrow>
          if error = 0 then (0, w\<lparr>kern := k, errno := e\<rparr>) else (- 1, w\<lparr>kern := k, errno := error\<rparr>))"

definition connect_with_timeout ::
    "'k os \<Rightarrow> int \<Rightarrow> 'k sysfun \<Rightarrow> ('k \<Rightarrow> int option \<times> int \<times> 'k) \<Rightarrow> u64 \<Rightarrow> int \<Rightarrow> int \<Rightarrow> caller \<Rightarrow> 'k hooks
     \<Rightarrow> hook_error + (connect_frame io_step \<times> 'k hooks)" where
  "connect_with_timeout os fd connect_f so_error timeout_ms now rt me w =
     (if \<not> t_hook_enable w then (case direct connect_f w of (n, w1) \<Rightarrow> Inr (IoReturn n, w1))
      else case get_fd os fd False w of
        Inl e \<Rightarrow> Inl e
      | Inr (None, w1) \<Rightarrow> Inr (IoReturn (- 1), w1\<lparr>errno := EBADF\<rparr>)
      | Inr (Some p, w1) \<Rightarrow>
          (let ctx = heap (fdmgr w1) p
           in if m_isClosed ctx then Inr (IoReturn (- 1), w1\<lparr>errno := EBADF\<rparr>)
              else (case direct connect_f w1 of
                (n, w2) \<Rightarrow>
                  if \<not> m_isSocket ctx \<or> m_userNonblock ctx then Inr (IoReturn n, w2)
                  else if n = 0 then Inr (IoReturn 0, w2)
                  else if n \<noteq> - 1 \<or> errno w2 \<noteq> EINPROGRESS then Inr (IoReturn n, w2)
                  else case iom w2 of
                    None \<Rightarrow> Inl NullManager
                  | Some m \<Rightarrow>
                      (case new_tinfo w2 of
                         (ti, w3) \<Rightarrow>
                           (case arm_timeout now timeout_ms ti fd WRITE m of
                              (m1, timer) \<Rightarrow>
                                (case addEvent me rt fd WRITE None m1 of
                                   Inl e \<Rightarrow> Inl (IomError e)
                                 | Inr (r, m2) \<Rightarrow>
                                     if r = 0
                                     then Inr (IoYield \<lparr>cn_fd = fd, cn_tinfo = ti, cn_timer = timer\<rparr>, w3\<lparr>iom := Some m2\<rparr>)
                                     else (case connect_check so_error (w3\<lparr>iom := Some (disarm timer m2)\<rparr>) of
                                             (n, w4) \<Rightarrow> Inr (IoReturn n, drop_tinfo ti w4))))))))"

definition connect_resume :: "('k \<Rightarrow> int option \<times> int \<times> 'k) \<Rightarrow> connect_frame \<Rightarrow> 'k hooks \<Rightarrow> int \<times> 'k hooks" where
  "connect_resume so_error fr w =
     (let w1 = w\<lparr>iom := map_option (disarm (cn_timer fr)) (iom w)\<rparr>;
          (n, w2) = (case tinfo w1 (cn_tinfo fr) of
                       Some c \<Rightarrow> if c \<noteq> 0 then (- 1, w1\<lparr>errno := c\<rparr>) else connect_check so_error w1
                     | None \<Rightarrow> connect_check so_error w1)
      in (n, drop_tinfo (cn_tinfo fr) w2))"

definition s_connect_timeout :: u64 where "s_connect_timeout = - 1"

definition hook_connect where
  "hook_connect os fd connect_f so_error now rt me w =
     connect_with_timeout os fd connect_f so_error s_connect_timeout now rt me w"

section \<open>\<open>close\<close>\<close>

definition hook_close :: "'k os \<Rightarrow> int \<Rightarrow> int \<Rightarrow> 'k sysfun \<Rightarrow> 'k hooks \<Rightarrow> hook_error + (int \<times> 'k hooks)" where
  "hook_close os fd rt close_f w =
     (if \<not> t_hook_enable w then Inr (direct close_f w)
      else case get_fd os fd False w of
        Inl e \<Rightarrow> Inl e
      | Inr (None, w1) \<Rightarrow> Inr (direct close_f w1)
      | Inr (Some p, w1) \<Rightarrow>
          (case (case iom w1 of
                   None \<Rightarrow> Inr None
                 | Some m \<Rightarrow> (case cancelAll rt fd m of Inl e \<Rightarrow> Inl (IomError e) | Inr (_, m1) \<Rightarrow> Inr (Some m1))) of
             Inl e \<Rightarrow> Inl e
           | Inr i \<Rightarrow> Inr (direct close_f (w1\<lparr>iom := i, fdmgr := FdManager_del fd (fdmgr w1)\<rparr>))))"

section \<open>\<open>fcntl\<close>, \<open>ioctl\<close>, \<open>setsockopt\<close>\<close>

definition F_DUPFD :: int where "F_DUPFD = 0"
definition F_GETFD :: int where "F_GETFD = 1"
definition F_SETFD :: int where "F_SETFD = 2"
definition F_GETLK :: int where "F_GETLK = 5"
definition F_SETLK :: int where "F_SETLK = 6"
definition F_SETLKW :: int where "F_SETLKW = 7"
definition F_SETOWN :: int where "F_SETOWN = 8"
definition F_GETOWN :: int where "F_GETOWN = 9"
definition F_SETSIG :: int where "F_SETSIG = 10"
definition F_GETSIG :: int where "F_GETSIG = 11"
definition F_SETOWN_EX :: int where "F_SETOWN_EX = 15"
definition F_GETOWN_EX :: int where "F_GETOWN_EX = 16"
definition F_SETLEASE :: int where "F_SETLEASE = 1024"
definition F_GETLEASE :: int where "F_GETLEASE = 1025"
definition F_NOTIFY :: int where "F_NOTIFY = 1026"
definition F_DUPFD_CLOEXEC :: int where "F_DUPFD_CLOEXEC = 1030"
definition F_SETPIPE_SZ :: int where "F_SETPIPE_SZ = 1031"
definition F_GETPIPE_SZ :: int where "F_GETPIPE_SZ = 1032"
definition FIONBIO :: u64 where "FIONBIO = 0x5421"
definition SOL_SOCKET :: int where "SOL_SOCKET = 1"

text \<open>
  The variable argument: what the caller passes as an \<^verbatim>\<open>int\<close> and as a pointer.  The kernel's
  \<^verbatim>\<open>fcntl\<close> without an argument, and with a pointer, are two more functions.
\<close>

record 'k fcntl_os = "'k os" +
  fcntl_none :: "int \<Rightarrow> int \<Rightarrow> 'k \<Rightarrow> u32 \<times> 'k"
  fcntl_ptr :: "int \<Rightarrow> int \<Rightarrow> nat \<Rightarrow> 'k \<Rightarrow> u32 \<times> 'k"

definition kernel_fcntl :: "('k \<Rightarrow> u32 \<times> 'k) \<Rightarrow> 'k hooks \<Rightarrow> u32 \<times> 'k hooks" where
  "kernel_fcntl f w = (case f (kern w) of (r, k) \<Rightarrow> (r, w\<lparr>kern := k\<rparr>))"

definition hook_socket_ctx :: "nat option \<Rightarrow> 'k hooks \<Rightarrow> nat option" where
  \<comment> \<open>\<^verbatim>\<open>!(!ctx || ctx->isClosed() || !ctx->isSocket())\<close>\<close>
  "hook_socket_ctx r w =
     (case r of None \<Rightarrow> None
      | Some p \<Rightarrow> if m_isClosed (heap (fdmgr w) p) \<or> \<not> m_isSocket (heap (fdmgr w) p) then None else Some p)"

definition update_ctx :: "nat \<Rightarrow> (fd_ctx \<Rightarrow> fd_ctx) \<Rightarrow> 'k hooks \<Rightarrow> 'k hooks" where
  "update_ctx p f w = w\<lparr>fdmgr := (fdmgr w)\<lparr>heap := (heap (fdmgr w))(p := f (heap (fdmgr w) p))\<rparr>\<rparr>"

definition fcntl_setfl :: "('k, 'z) fcntl_os_scheme \<Rightarrow> int \<Rightarrow> u32 \<Rightarrow> 'k hooks \<Rightarrow> hook_error + (u32 \<times> 'k hooks)" where
  "fcntl_setfl os fd arg w =
     (case get_fd (os.truncate os) fd False w of
        Inl e \<Rightarrow> Inl e
      | Inr (r, w1) \<Rightarrow>
          (case hook_socket_ctx r w1 of
             None \<Rightarrow> Inr (kernel_fcntl (fcntl_f os fd F_SETFL arg) w1)
           | Some p \<Rightarrow>
               (let w2 = update_ctx p (setUserNonblock (arg AND O_NONBLOCK \<noteq> 0)) w1;
                    arg1 = (if m_sysNonblock (heap (fdmgr w2) p) then arg OR O_NONBLOCK else arg AND NOT O_NONBLOCK)
                in Inr (kernel_fcntl (fcntl_f os fd F_SETFL arg1) w2))))"

definition fcntl_getfl :: "('k, 'z) fcntl_os_scheme \<Rightarrow> int \<Rightarrow> 'k hooks \<Rightarrow> hook_error + (u32 \<times> 'k hooks)" where
  "fcntl_getfl os fd w =
     (case kernel_fcntl (fcntl_f os fd F_GETFL 0) w of
        (arg, w1) \<Rightarrow>
          (case get_fd (os.truncate os) fd False w1 of
             Inl e \<Rightarrow> Inl e
           | Inr (r, w2) \<Rightarrow>
               (case hook_socket_ctx r w2 of
                  None \<Rightarrow> Inr (arg, w2)
                | Some p \<Rightarrow> Inr (if m_userNonblock (heap (fdmgr w2) p) then arg OR O_NONBLOCK
                                else arg AND NOT O_NONBLOCK, w2))))"

definition fcntl ::
    "('k, 'z) fcntl_os_scheme \<Rightarrow> int \<Rightarrow> int \<Rightarrow> u32 \<Rightarrow> nat \<Rightarrow> 'k hooks \<Rightarrow> hook_error + (u32 \<times> 'k hooks)" where
  "fcntl os fd cmd arg ptr w =
     (if cmd = F_SETFL then fcntl_setfl os fd arg w
      else if cmd = F_GETFL then fcntl_getfl os fd w
      else if cmd \<in> {F_DUPFD, F_DUPFD_CLOEXEC, F_SETFD, F_SETOWN, F_SETSIG, F_SETLEASE, F_NOTIFY, F_SETPIPE_SZ}
      then Inr (kernel_fcntl (fcntl_f os fd cmd arg) w)
      else if cmd \<in> {F_GETFD, F_GETOWN, F_GETSIG, F_GETLEASE, F_GETPIPE_SZ}
      then Inr (kernel_fcntl (fcntl_none os fd cmd) w)
      else if cmd \<in> {F_SETLK, F_SETLKW, F_GETLK} then Inr (kernel_fcntl (fcntl_ptr os fd cmd ptr) w)
      else if cmd \<in> {F_GETOWN_EX, F_SETOWN_EX} then Inr (kernel_fcntl (fcntl_ptr os fd cmd ptr) w)
      else Inr (kernel_fcntl (fcntl_none os fd cmd) w))"

definition ioctl ::
    "'k os \<Rightarrow> int \<Rightarrow> u64 \<Rightarrow> int \<Rightarrow> (int \<Rightarrow> 'k sysfun) \<Rightarrow> 'k hooks \<Rightarrow> hook_error + (int \<times> 'k hooks)" where
  \<comment> \<open>\<open>arg\<close>: the integer the pointer points to; \<open>ioctl_f arg\<close>: the original call with it\<close>
  "ioctl os fd request arg ioctl_f w =
     (if FIONBIO = request
      then (case get_fd os fd False w of
              Inl e \<Rightarrow> Inl e
            | Inr (r, w1) \<Rightarrow>
                (case hook_socket_ctx r w1 of
                   None \<Rightarrow> Inr (direct (ioctl_f arg) w1)
                 | Some p \<Rightarrow> Inr (direct (ioctl_f arg) (update_ctx p (setUserNonblock (arg \<noteq> 0)) w1))))
      else Inr (direct (ioctl_f arg) w))"

definition hook_getsockopt :: "'k sysfun \<Rightarrow> 'k hooks \<Rightarrow> int \<times> 'k hooks" where
  "hook_getsockopt getsockopt_f w = direct getsockopt_f w"

definition timeval_ms :: "int \<Rightarrow> int \<Rightarrow> u64" where
  "timeval_ms tv_sec tv_usec = word_of_int (tv_sec * 1000 + c_div tv_usec 1000)"

definition hook_setsockopt ::
    "'k os \<Rightarrow> int \<Rightarrow> int \<Rightarrow> int \<Rightarrow> int \<times> int \<Rightarrow> 'k sysfun \<Rightarrow> 'k hooks \<Rightarrow> hook_error + (int \<times> 'k hooks)" where
  \<comment> \<open>\<open>v\<close>: the \<^verbatim>\<open>timeval\<close> behind \<open>optval\<close>\<close>
  "hook_setsockopt os fd level optname v setsockopt_f w =
     (if \<not> t_hook_enable w then Inr (direct setsockopt_f w)
      else if level = SOL_SOCKET \<and> (optname = SO_RCVTIMEO \<or> optname = SO_SNDTIMEO)
      then (case get_fd os fd False w of
              Inl e \<Rightarrow> Inl e
            | Inr (None, w1) \<Rightarrow> Inr (direct setsockopt_f w1)
            | Inr (Some p, w1) \<Rightarrow>
                Inr (direct setsockopt_f (update_ctx p (setTimeout optname (timeval_ms (fst v) (snd v))) w1)))
      else Inr (direct setsockopt_f w))"

lemmas hook_defs [model_defs] =
  direct_def get_fd_def front_tickle_def arm_timer_def arm_condition_def arm_timeout_def disarm_def
  new_tinfo_def drop_tinfo_def sleep_on_def kernel_fcntl_def update_ctx_def

section \<open>What the parts do\<close>

lemma get_fd_lookup:
  assumes "0 \<le> fd" "fd < 2 ^ 31"
  shows "get_fd os fd False w = Inr (fd_entry (fdmgr w) (nat fd), w)"
  using get_no_create [OF assms, of os "fdmgr w" "kern w"] by (simp add: get_fd_def)

lemma tickle_iom_ok: "iom_ok m \<Longrightarrow> iom_ok (tickle sid m)"
  by (erule iom_ok_cong) simp_all

lemma arm_frame:
  assumes "arm_condition now ms call cond m = (m1, i)"
  shows "ctxs m1 = ctxs m \<and> next_ptr m1 = next_ptr m \<and> m_fdContexts m1 = m_fdContexts m
    \<and> m_pendingEventCount m1 = m_pendingEventCount m \<and> scheds m1 = scheds m \<and> self m1 = self m
    \<and> timers m1 = fst (addConditionTimer now ms call cond False (timers m)) \<and> i = next_timer (timers m)"
  using assms by (auto simp: arm_condition_def front_tickle_def onTimerInsertedAtFront_def addConditionTimer_def
      addTimer_def Let_def split: prod.splits if_splits)

lemma arm_ok: "arm_timeout now timeout ti fd event m = (m1, timer) \<Longrightarrow> iom_ok m \<Longrightarrow> iom_ok m1"
  using arm_frame by (fastforce simp: arm_timeout_def intro: iom_ok_cong split: if_splits prod.splits)

lemma disarm_frame:
  "ctxs (disarm t m) = ctxs m" "next_ptr (disarm t m) = next_ptr m" "m_fdContexts (disarm t m) = m_fdContexts m"
  "m_pendingEventCount (disarm t m) = m_pendingEventCount m" "scheds (disarm t m) = scheds m" "self (disarm t m) = self m"
  by (simp_all add: disarm_def split: option.split)

lemma disarm_ok: "iom_ok m \<Longrightarrow> iom_ok (disarm t m)"
  by (erule iom_ok_cong) (simp_all add: disarm_frame)

definition interrupted :: "'k sysfun \<Rightarrow> 'k \<Rightarrow> 'k \<Rightarrow> bool" where
  "interrupted fn k k1 \<longleftrightarrow> fn k = (- 1, EINTR, k1)"

definition finished_call :: "'k sysfun \<Rightarrow> 'k \<Rightarrow> int \<times> int \<times> 'k \<Rightarrow> bool" where
  \<comment> \<open>interrupted calls, then one that was not, with this result\<close>
  "finished_call fn k r \<longleftrightarrow>
     (\<exists>k0. (interrupted fn)\<^sup>*\<^sup>* k k0 \<and> fn k0 = r \<and> \<not> (fst r = - 1 \<and> fst (snd r) = EINTR))"

lemma call_eintr_result:
  assumes "call_eintr fn k = Some r"
  shows "finished_call fn k r"
proof (rule call_eintr.raw_induct [where P = finished_call, OF _ assms])
  fix rec and fn :: "'a sysfun" and k r
  assume IH: "\<And>fn k r. rec fn k = Some r \<Longrightarrow> finished_call fn k r"
    and eq: "(case fn k of (n, e, k1) \<Rightarrow> if n = - 1 \<and> e = EINTR then rec fn k1 else Some (n, e, k1)) = Some r"
  obtain n e k1 where f: "fn k = (n, e, k1)" by (cases "fn k")
  show "finished_call fn k r"
  proof (cases "n = - 1 \<and> e = EINTR")
    case True
    then have "finished_call fn k1 r" using IH eq f by simp
    moreover have "interrupted fn k k1" using True f by (simp add: interrupted_def)
    ultimately show ?thesis unfolding finished_call_def by (metis converse_rtranclp_into_rtranclp)
  next
    case False
    then show ?thesis using eq f unfolding finished_call_def by (intro exI [of _ k]) auto
  qed
qed

lemma call_eintr_run:
  assumes "finished_call fn k (n, e, k1)"
  shows "call_eintr fn k = Some (n, e, k1)"
proof -
  obtain k0 where run: "(interrupted fn)\<^sup>*\<^sup>* k k0" and last: "fn k0 = (n, e, k1)" "\<not> (n = - 1 \<and> e = EINTR)"
    using assms by (auto simp: finished_call_def)
  from run show ?thesis
  proof (induction rule: converse_rtranclp_induct)
    case base
    show ?case using last by (subst call_eintr.simps) auto
  next
    case (step a b)
    then show ?case by (subst call_eintr.simps) (simp add: interrupted_def)
  qed
qed

definition blocking_socket :: "fd_ctx \<Rightarrow> bool" where
  \<comment> \<open>the descriptors \<open>do_io\<close> handles: sockets the user did not make non-blocking\<close>
  "blocking_socket c \<longleftrightarrow> m_isSocket c \<and> \<not> m_isClosed c \<and> \<not> m_userNonblock c"

definition entry_frame :: "int \<Rightarrow> Event \<Rightarrow> int \<Rightarrow> fd_ctx \<Rightarrow> nat \<Rightarrow> io_frame" where
  "entry_frame fd event so c ti =
     \<lparr>fr_fd = fd, fr_event = event, fr_timeout = getTimeout so c, fr_tinfo = ti, fr_timer = None\<rparr>"

lemma do_io_enter:
  assumes "t_hook_enable w" and "0 \<le> fd" and "fd < 2 ^ 31" and "fd_entry (fdmgr w) (nat fd) = Some p"
    and "blocking_socket (heap (fdmgr w) p)"
  shows "do_io os fd fn event so now rt me w =
     do_io_attempt fn now rt me (entry_frame fd event so (heap (fdmgr w) p) (next_tinfo w)) (snd (new_tinfo w))"
  using assms
  by (simp add: do_io_def get_fd_lookup blocking_socket_def new_tinfo_def entry_frame_def Let_def)

lemma do_io_attempt_waits:
  assumes "call_eintr fn (kern w) = Some (- 1, EAGAIN, k)"
  shows "do_io_attempt fn now rt me fr w = Some (do_io_wait now rt me fr (w\<lparr>kern := k, errno := EAGAIN\<rparr>))"
  using assms by (simp add: do_io_attempt_def)

text \<open>The wait: the waiter is registered, with a timer when a timeout is set.\<close>

lemma do_io_wait_registers:
  assumes m: "iom w = Some m" "iom_ok m" and me: "caller_ok me" and fr: "0 \<le> fr_fd fr" "rw (fr_event fr)"
    and free: "events (ctx_of m (nat (fr_fd fr))) AND fr_event fr = 0"
  shows "\<exists>timer m2. do_io_wait now 0 me fr w = Inr (IoYield (fr\<lparr>fr_timer := timer\<rparr>), w\<lparr>iom := Some m2\<rparr>)
    \<and> iom_ok m2 \<and> scheds m2 = scheds m \<and> self m2 = self m
    \<and> (\<forall>j. ctx_of m2 j = (if j = nat (fr_fd fr) then set_event_context (fr_event fr)
          \<lparr>ev_scheduler = this_sched me, ev_fiber = Some (this_fiber me), ev_cb = None\<rparr>
          ((ctx_of m j)\<lparr>events := events (ctx_of m j) OR fr_event fr\<rparr>) else ctx_of m j))
    \<and> (if fr_timeout fr = - 1 then timer = None \<and> timers m2 = timers m
       else timer = Some (next_timer (timers m)) \<and> timers m2 =
         fst (addConditionTimer now (fr_timeout fr) (TimeoutIO (fr_tinfo fr) (fr_fd fr) (fr_event fr)) (fr_tinfo fr)
                False (timers m)))"
proof -
  obtain m1 timer where arm: "arm_timeout now (fr_timeout fr) (fr_tinfo fr) (fr_fd fr) (fr_event fr) m = (m1, timer)"
    by (cases "arm_timeout now (fr_timeout fr) (fr_tinfo fr) (fr_fd fr) (fr_event fr) m")
  have ok1: "iom_ok m1" by (rule arm_ok [OF arm m(2)])
  have f1: "ctxs m1 = ctxs m" "m_fdContexts m1 = m_fdContexts m" "scheds m1 = scheds m" "self m1 = self m"
    "if fr_timeout fr = - 1 then timer = None \<and> timers m1 = timers m
     else timer = Some (next_timer (timers m)) \<and> timers m1 =
       fst (addConditionTimer now (fr_timeout fr) (TimeoutIO (fr_tinfo fr) (fr_fd fr) (fr_event fr)) (fr_tinfo fr)
              False (timers m))"
    using arm arm_frame by (fastforce simp: arm_timeout_def split: if_splits prod.splits)+
  have c1: "ctx_of m1 j = ctx_of m j" for j by (rule ctx_of_frame [OF f1(2,1)])
  obtain m2 where "addEvent me 0 (fr_fd fr) (fr_event fr) None m1 = Inr (0, m2)"
    and m2: "iom_ok m2" "scheds m2 = scheds m1" "timers m2 = timers m1" "self m2 = self m1"
      "\<And>j. ctx_of m2 j = (if j = nat (fr_fd fr) then set_event_context (fr_event fr)
          \<lparr>ev_scheduler = this_sched me, ev_fiber = Some (this_fiber me), ev_cb = None\<rparr>
          ((ctx_of m1 j)\<lparr>events := events (ctx_of m1 j) OR fr_event fr\<rparr>) else ctx_of m1 j)"
    using addEvent_effect [OF ok1 fr me, of 0 None] free c1 by auto
  then have "do_io_wait now 0 me fr w = Inr (IoYield (fr\<lparr>fr_timer := timer\<rparr>), w\<lparr>iom := Some m2\<rparr>)"
    using m(1) by (simp add: do_io_wait_def arm)
  with m2 f1 c1 show ?thesis by (intro exI [of _ timer] exI [of _ m2]) simp
qed

lemma or_and_absorb: "(a OR b) AND b = (b :: 'a :: len word)"
  by (rule bit_word_eqI) (auto simp: bit_simps)

lemma or_and_not:
  assumes "a AND b = (0 :: 'a :: len word)"
  shows "(a OR b) AND NOT b = a"
proof (rule bit_word_eqI)
  fix n
  have "\<not> bit (a AND b) n" using assms by simp
  then show "n < LENGTH('a) \<Longrightarrow> bit ((a OR b) AND NOT b) n = bit a n" by (auto simp: bit_simps)
qed

lemma slot_set_event: "rw ev \<Longrightarrow> slot ev (set_event_context ev x c) = x"
  by (auto simp: slot_def set_event_context_def rw_def event_consts)

section \<open>Properties\<close>

text \<open>The state the properties are evaluated in: one socket, descriptor 5, and an idle manager.\<close>

definition hook_sched :: "hook_cb scheduler" where
  "hook_sched = (case Scheduler_new 1 False ''io'' 0 0 of Inr s \<Rightarrow> s | Inl _ \<Rightarrow> undefined)"

definition demo_kernel :: "nat os" where
  "demo_kernel = \<lparr>fstat_call = (\<lambda>_ _. Some 0xC000), fcntl_f = (\<lambda>_ _ _ k. (0, k))\<rparr>"

definition demo_hooks :: "u64 \<Rightarrow> nat hooks" where
  "demo_hooks tmo =
     \<lparr>t_hook_enable = True,
      fdmgr = (FdManager_new\<lparr>m_datas := (m_datas FdManager_new)[5 := Some 0]\<rparr>)
        \<lparr>heap := (\<lambda>_. (FdCtx_fields 5)\<lparr>m_isSocket := True, m_sysNonblock := True, m_recvTimeout := tmo\<rparr>)\<rparr>,
      iom = Some (IOManager_new 0 (\<lambda>_. hook_sched) 0), tinfo = (\<lambda>_. None), next_tinfo = 0, kern = 0, errno = 0\<rparr>"

definition demo_recv :: "nat sysfun" where
  \<comment> \<open>interrupted, then nothing to read, then 3 bytes\<close>
  "demo_recv k = (if k = 0 then (- 1, EINTR, 1) else if k = 1 then (- 1, EAGAIN, 2) else (3, 0, k))"

lemma demo_recv_finished: "finished_call demo_recv 0 (- 1, EAGAIN, 2)" "finished_call demo_recv 2 (3, 0, 2)"
proof -
  have "(interrupted demo_recv)\<^sup>*\<^sup>* 0 1" by (rule r_into_rtranclp) (simp add: interrupted_def demo_recv_def)
  then show "finished_call demo_recv 0 (- 1, EAGAIN, 2)"
    unfolding finished_call_def by (intro exI [of _ 1]) (simp add: demo_recv_def errnos)
  show "finished_call demo_recv 2 (3, 0, 2)"
    unfolding finished_call_def by (intro exI [of _ 2]) (simp add: demo_recv_def errnos)
qed

lemma demo_hooks_facts:
  "t_hook_enable (demo_hooks tmo)" "fd_entry (fdmgr (demo_hooks tmo)) 5 = Some 0"
  "blocking_socket (heap (fdmgr (demo_hooks tmo)) 0)" "getTimeout SO_RCVTIMEO (heap (fdmgr (demo_hooks tmo)) 0) = tmo"
  "iom (demo_hooks tmo) = Some (IOManager_new 0 (\<lambda>_. hook_sched) 0)" "kern (demo_hooks tmo) = 0"
  "next_tinfo (demo_hooks tmo) = 0"
  by (simp_all add: demo_hooks_def fdt.entry_def FdManager_new_def vector_resize_def blocking_socket_def FdCtx_fields_def
      getTimeout_def SO_RCVTIMEO_def)

text \<open>
  C7: outside the descriptors it manages a hooked call is the original call: when the hooks are
  off on the thread, the descriptor is unknown, is not a socket, or was made non-blocking by
  the user, \<open>do_io\<close> makes exactly one call and returns its result and \<^verbatim>\<open>errno\<close>, without
  touching descriptors, timers or the manager.
\<close>

theorem do_io_transparent:
  assumes "0 \<le> fd" and "fd < 2 ^ 31"
    and "\<not> t_hook_enable w \<or> (case fd_entry (fdmgr w) (nat fd) of None \<Rightarrow> True
           | Some p \<Rightarrow> \<not> m_isClosed (heap (fdmgr w) p)
               \<and> (\<not> m_isSocket (heap (fdmgr w) p) \<or> m_userNonblock (heap (fdmgr w) p)))"
  shows "do_io os fd fn event so now rt me w =
    (case fn (kern w) of (n, e, k) \<Rightarrow> Some (Inr (IoReturn n, w\<lparr>kern := k, errno := e\<rparr>)))"
  using assms
  by (auto simp: do_io_def direct_def get_fd_lookup Let_def split: option.splits prod.splits)

theorem do_io_transparent_witness:
  "do_io demo_kernel 7 demo_recv READ SO_RCVTIMEO 0 0 demo_caller (demo_hooks 9)
     = Some (Inr (IoReturn (- 1), (demo_hooks 9)\<lparr>kern := 1, errno := EINTR\<rparr>))"
proof -
  have "fd_entry (fdmgr (demo_hooks 9)) 7 = None"
    by (simp add: demo_hooks_def fdt.entry_def FdManager_new_def vector_resize_def)
  then show ?thesis
    using do_io_transparent [of 7 "demo_hooks 9" demo_kernel demo_recv READ SO_RCVTIMEO 0 0 demo_caller]
    by (simp add: demo_hooks_facts demo_recv_def)
qed

text \<open>
  A call on a managed socket never shows the user that the descriptor is non-blocking
  underneath: each attempt, if no other fiber waits for the same event, either returns what
  the first call that was not interrupted returned, and then that is not \<^verbatim>\<open>EAGAIN\<close>, or
  suspends the fiber with exactly it registered as the waiter for the event.
\<close>

theorem do_io_attempt_outcome:
  assumes "finished_call fn (kern w) (n, e, k)"
    and "iom w = Some m" "iom_ok m" and "caller_ok me" and "0 \<le> fr_fd fr" "rw (fr_event fr)"
    and "events (ctx_of m (nat (fr_fd fr))) AND fr_event fr = 0"
  shows "(if n = - 1 \<and> e = EAGAIN
     then \<exists>timer m2. do_io_attempt fn now 0 me fr w
            = Some (Inr (IoYield (fr\<lparr>fr_timer := timer\<rparr>), w\<lparr>kern := k, errno := EAGAIN, iom := Some m2\<rparr>))
          \<and> iom_ok m2 \<and> slot (fr_event fr) (ctx_of m2 (nat (fr_fd fr)))
              = \<lparr>ev_scheduler = this_sched me, ev_fiber = Some (this_fiber me), ev_cb = None\<rparr>
          \<and> scheds m2 = scheds m
     else do_io_attempt fn now 0 me fr w
            = Some (Inr (IoReturn n, drop_tinfo (fr_tinfo fr) (w\<lparr>kern := k, errno := e\<rparr>)))
          \<and> \<not> (n = - 1 \<and> e \<in> {EINTR, EAGAIN}))"
proof (cases "n = - 1 \<and> e = EAGAIN")
  case True
  then have "finished_call fn (kern w) (- 1, EAGAIN, k)" using assms(1) by simp
  note waits = do_io_attempt_waits [OF call_eintr_run [OF this], of now 0 me fr]
  obtain timer m2 where "do_io_wait now 0 me fr (w\<lparr>kern := k, errno := EAGAIN\<rparr>)
      = Inr (IoYield (fr\<lparr>fr_timer := timer\<rparr>), w\<lparr>kern := k, errno := EAGAIN, iom := Some m2\<rparr>)"
    and "iom_ok m2" "scheds m2 = scheds m" "slot (fr_event fr) (ctx_of m2 (nat (fr_fd fr)))
      = \<lparr>ev_scheduler = this_sched me, ev_fiber = Some (this_fiber me), ev_cb = None\<rparr>"
    using do_io_wait_registers [of "w\<lparr>kern := k, errno := EAGAIN\<rparr>" m me fr now] assms
    by (auto simp: slot_set_event)
  then show ?thesis unfolding if_P [OF True] waits by blast
next
  case False
  then show ?thesis
    using call_eintr_run [OF assms(1)] assms(1) by (auto simp: do_io_attempt_def finished_call_def)
qed

theorem do_io_attempt_outcome_witness:
  "\<exists>timer m2. do_io_attempt demo_recv 0 0 demo_caller (entry_frame 5 READ SO_RCVTIMEO (FdCtx_fields 5) 0) (demo_hooks 9)
     = Some (Inr (IoYield ((entry_frame 5 READ SO_RCVTIMEO (FdCtx_fields 5) 0)\<lparr>fr_timer := timer\<rparr>),
         (demo_hooks 9)\<lparr>kern := 2, errno := EAGAIN, iom := Some m2\<rparr>)) \<and> iom_ok m2"
  using do_io_attempt_outcome [of demo_recv "demo_hooks 9" "- 1" EAGAIN 2 "IOManager_new 0 (\<lambda>_. hook_sched) 0" demo_caller
      "entry_frame 5 READ SO_RCVTIMEO (FdCtx_fields 5) 0" 0]
  by (auto simp: demo_hooks_facts demo_recv_finished IOManager_new_ok demo_caller_ok IOManager_new_facts FdContext_new_def
      NONE_def entry_frame_def)

lemma addConditionTimer_object:
  "store (fst (addConditionTimer now ms call cond False t)) (next_timer t)
     = \<lparr>m_recurring = False, m_ms = ms, m_next = now + ms_dur ms, m_cb = Some (OnTimerBind cond call)\<rparr>"
  by (simp add: addConditionTimer_def addTimer_def addTimer_ptr_def Timer_new_def Let_def)

lemma cancel_registered:
  assumes "iom_ok m1" and "0 \<le> fd" and "rw event" and "caller_ok me" and "events (ctx_of m (nat fd)) AND event = 0" and "scheds m1 = scheds m"
    and "ctx_of m1 (nat fd) = set_event_context event
      \<lparr>ev_scheduler = this_sched me, ev_fiber = Some (this_fiber me), ev_cb = (None :: hook_cb option)\<rparr>
      ((ctx_of m (nat fd))\<lparr>events := events (ctx_of m (nat fd)) OR event\<rparr>)"
  shows "\<exists>m2. cancelEvent 0 fd event m1 = Inr (True, m2) \<and> events (ctx_of m2 (nat fd)) = events (ctx_of m (nat fd))
    \<and> queue (the (this_sched me)) m2 = queue (the (this_sched me)) m @ [ScheduleTask_fiber (Some (this_fiber me)) (- 1)]"
proof -
  let ?x = "\<lparr>ev_scheduler = this_sched me, ev_fiber = Some (this_fiber me), ev_cb = (None :: hook_cb option)\<rparr>"
  have slot1: "slot event (ctx_of m1 (nat fd)) = ?x" using assms(7) slot_set_event [OF assms(3)] by simp
  have ev1: "events (ctx_of m1 (nat fd)) = events (ctx_of m (nat fd)) OR event" using assms(7) by simp
  have hit: "events (ctx_of m1 (nat fd)) AND event \<noteq> 0"
    using ev1 assms(3) by (auto simp: or_and_absorb rw_def event_consts)
  obtain m2 where c2: "cancelEvent 0 fd event m1 = Inr (True, m2)" and m2:
      "\<And>sid. queue sid m2 = (if this_sched me = Some sid then queue sid m1 @ [task_of ?x] else queue sid m1)"
      "events (ctx_of m2 (nat fd)) = events (ctx_of m1 (nat fd)) AND NOT event"
    using cancelEvent_effect [OF assms(1-3) hit, of 0] slot1 by auto
  have "queue (the (this_sched me)) m2 = queue (the (this_sched me)) m @ [ScheduleTask_fiber (Some (this_fiber me)) (- 1)]"
    using assms(4,6) m2(1) by (auto simp: caller_ok_def task_of_def)
  moreover have "events (ctx_of m2 (nat fd)) = events (ctx_of m (nat fd))" using m2(2) ev1 or_and_not [OF assms(5)] by simp
  ultimately show ?thesis using c2 by blast
qed



text \<open>
  Two fibers cannot wait for the same event of a descriptor: when one already waits, a
  second one whose call would block gets -1 with \<^verbatim>\<open>errno\<close> still \<^verbatim>\<open>EAGAIN\<close>, although its socket
  is a blocking one; its timer is cancelled, and the first waiter is left as it was.
\<close>

theorem second_waiter_gets_EAGAIN:
  assumes "t_hook_enable w" and "0 \<le> fd" "fd < 2 ^ 31" and "fd_entry (fdmgr w) (nat fd) = Some p"
    and "blocking_socket (heap (fdmgr w) p)" and "iom w = Some m" "iom_ok m" and "caller_ok me" "rw event"
    and "events (ctx_of m (nat fd)) AND event \<noteq> 0" and "finished_call fn (kern w) (- 1, EAGAIN, k)"
  shows "\<exists>w1 m1. do_io os fd fn event so now rt me w = Some (Inr (IoReturn (- 1), w1)) \<and> errno w1 = EAGAIN
    \<and> iom w1 = Some m1 \<and> ctx_of m1 (nat fd) = ctx_of m (nat fd)
    \<and> (getTimeout so (heap (fdmgr w) p) \<noteq> - 1 \<longrightarrow> m_cb (store (timers m1) (next_timer (timers m))) = None)"
proof -
  let ?ti = "next_tinfo w" and ?c = "heap (fdmgr w) p"
  define fr0 where "fr0 = entry_frame fd event so ?c ?ti"
  define w0 where "w0 = (snd (new_tinfo w))\<lparr>kern := k, errno := EAGAIN\<rparr>"
  have fr0: "fr_fd fr0 = fd" "fr_event fr0 = event" "fr_tinfo fr0 = ?ti" "fr_timeout fr0 = getTimeout so ?c"
    by (simp_all add: fr0_def entry_frame_def)
  have w0: "iom w0 = Some m" "errno w0 = EAGAIN" using assms(6) by (simp_all add: w0_def new_tinfo_def)
  obtain m1 timer where arm: "arm_timeout now (fr_timeout fr0) (fr_tinfo fr0) (fr_fd fr0) (fr_event fr0) m = (m1, timer)"
    by (cases "arm_timeout now (fr_timeout fr0) (fr_tinfo fr0) (fr_fd fr0) (fr_event fr0) m")
  have ok1: "iom_ok m1" by (rule arm_ok [OF arm assms(7)])
  have f1: "ctxs m1 = ctxs m" "m_fdContexts m1 = m_fdContexts m"
      "getTimeout so ?c \<noteq> - 1 \<Longrightarrow> timer = Some (next_timer (timers m)) \<and> timers m1 =
       fst (addConditionTimer now (getTimeout so ?c) (TimeoutIO ?ti fd event) ?ti False (timers m))"
    using arm arm_frame unfolding fr0 by (fastforce simp: arm_timeout_def split: if_splits prod.splits)+
  have c1: "ctx_of m1 j = ctx_of m j" for j by (rule ctx_of_frame [OF f1(2,1)])
  have "addEvent me rt fd event None m1 = Inr (- 1, m1)"
    using addEvent_effect [OF ok1 assms(2,9,8), of rt None] c1 assms(10) by auto
  then have "do_io_wait now rt me fr0 w0
      = Inr (IoReturn (- 1), drop_tinfo ?ti (w0\<lparr>iom := Some (disarm timer m1)\<rparr>))"
    using arm w0 fr0 by (simp add: do_io_wait_def)
  moreover have "do_io os fd fn event so now rt me w = Some (do_io_wait now rt me fr0 w0)"
    using do_io_enter [of w fd p os fn event so now rt me] assms
      do_io_attempt_waits [of fn "snd (new_tinfo w)" k now rt me fr0] call_eintr_run [OF assms(11)]
    by (simp add: fr0_def w0_def new_tinfo_def)
  moreover have "ctx_of (disarm timer m1) (nat fd) = ctx_of m (nat fd)"
    using ctx_of_frame [of "disarm timer m1" m1] c1 by (simp add: disarm_frame)
  moreover have "m_cb (store (timers (disarm timer m1)) (next_timer (timers m))) = None" if "getTimeout so ?c \<noteq> - 1"
    using f1(3) [OF that] by (auto simp: disarm_def cancel_def addConditionTimer_object Let_def split: option.split)
  ultimately show ?thesis using w0 by (simp add: drop_tinfo_def)
qed

definition demo_busy :: "nat hooks" where
  \<comment> \<open>a reader waits on descriptor 5 already\<close>
  "demo_busy = (case do_io_attempt demo_recv 0 0 demo_caller (entry_frame 5 READ SO_RCVTIMEO (FdCtx_fields 5) 0)
       (demo_hooks 9) of Some (Inr (_, w)) \<Rightarrow> w\<lparr>kern := 0\<rparr> | _ \<Rightarrow> demo_hooks 9)"

lemma demo_busy_facts:
  obtains m where "demo_busy = (demo_hooks 9)\<lparr>errno := EAGAIN, iom := Some m\<rparr>" and "iom_ok m"
    and "events (ctx_of m 5) AND READ \<noteq> 0"
proof -
  let ?fr = "entry_frame 5 READ SO_RCVTIMEO (FdCtx_fields 5) 0"
  let ?w0 = "(demo_hooks 9)\<lparr>kern := 2, errno := EAGAIN\<rparr>"
  obtain timer m where w: "do_io_wait 0 0 demo_caller ?fr ?w0 = Inr (IoYield (?fr\<lparr>fr_timer := timer\<rparr>), ?w0\<lparr>iom := Some m\<rparr>)"
    and m: "iom_ok m" "events (ctx_of m 5) = READ"
    using do_io_wait_registers [of ?w0 "IOManager_new 0 (\<lambda>_. hook_sched) 0" demo_caller ?fr 0]
    by (auto simp: demo_hooks_facts IOManager_new_ok demo_caller_ok IOManager_new_facts FdContext_new_def NONE_def
        entry_frame_def)
  have "do_io_attempt demo_recv 0 0 demo_caller ?fr (demo_hooks 9) = Some (do_io_wait 0 0 demo_caller ?fr ?w0)"
    by (rule do_io_attempt_waits) (simp add: demo_hooks_facts call_eintr_run demo_recv_finished)
  then have "demo_busy = (demo_hooks 9)\<lparr>errno := EAGAIN, iom := Some m\<rparr>"
    by (simp add: demo_busy_def w) (simp add: demo_hooks_def)
  then show thesis using that m by (simp add: READ_def)
qed

theorem second_waiter_gets_EAGAIN_witness:
  "\<exists>w1. do_io demo_kernel 5 demo_recv READ SO_RCVTIMEO 0 0 demo_caller demo_busy = Some (Inr (IoReturn (- 1), w1))
    \<and> errno w1 = EAGAIN"
proof -
  obtain m where m: "demo_busy = (demo_hooks 9)\<lparr>errno := EAGAIN, iom := Some m\<rparr>" "iom_ok m"
    "events (ctx_of m 5) AND READ \<noteq> 0"
    by (rule demo_busy_facts)
  have "t_hook_enable demo_busy" "fd_entry (fdmgr demo_busy) 5 = Some 0" "iom demo_busy = Some m"
    "blocking_socket (heap (fdmgr demo_busy) 0)" "finished_call demo_recv (kern demo_busy) (- 1, EAGAIN, 2)"
    unfolding m(1) by (simp_all add: demo_hooks_facts demo_recv_finished)
  then show ?thesis
    using second_waiter_gets_EAGAIN [of demo_busy 5 0 m demo_caller READ demo_recv 2 demo_kernel SO_RCVTIMEO 0 0] m(2,3)
    by (auto simp: demo_caller_ok)
qed

lemma nonblock_bit: "x AND O_NONBLOCK = (if bit x 11 then O_NONBLOCK else 0)"
proof -
  have e: "O_NONBLOCK = 2 ^ 11" by (simp add: O_NONBLOCK_def)
  have b: "bit O_NONBLOCK n \<longleftrightarrow> n = 11" for n
    unfolding e bit_exp_iff by (cases "n = 11") simp_all
  show ?thesis by (cases "bit x 11"; rule bit_word_eqI) (auto simp: bit_and_iff b)
qed

lemma fcntl_cmds_distinct: "F_GETFL \<noteq> F_SETFL" "F_SETFL \<noteq> F_GETFL"
  by (simp_all add: F_GETFL_def F_SETFL_def)

lemma os_truncate_fields [simp]:
  "fstat_call (os.truncate os) = fstat_call os" "fcntl_f (os.truncate os) = fcntl_f os"
  by (simp_all add: os.truncate_def)

text \<open>
  The descriptor flags the user sees are the user's: after \<^verbatim>\<open>fcntl(F_SETFL)\<close> on a managed
  socket, \<^verbatim>\<open>fcntl(F_GETFL)\<close> reports the \<^verbatim>\<open>O_NONBLOCK\<close> that was asked for, whichever it was,
  while the descriptor stays non-blocking in the kernel, as the hooks need it.
\<close>

theorem fcntl_user_view:
  assumes "flags_kernel (os.truncate os) fl" and "fstat_call os fd = (\<lambda>k. Some (mode k))"
    and "0 \<le> fd" "fd < 2 ^ 31" and "fd_entry (fdmgr w) (nat fd) = Some p"
    and "m_isSocket (heap (fdmgr w) p)" "\<not> m_isClosed (heap (fdmgr w) p)" "m_sysNonblock (heap (fdmgr w) p)"
  shows "\<exists>r w1 flags w2. fcntl os fd F_SETFL arg ptr w = Inr (r, w1)
    \<and> fcntl os fd F_GETFL arg' ptr' w1 = Inr (flags, w2)
    \<and> flags AND O_NONBLOCK = arg AND O_NONBLOCK \<and> fl (kern w2) fd AND O_NONBLOCK \<noteq> 0
    \<and> m_userNonblock (heap (fdmgr w2) p) = (arg AND O_NONBLOCK \<noteq> 0)"
proof -
  define w1 where "w1 = update_ctx p (setUserNonblock (arg AND O_NONBLOCK \<noteq> 0)) w"
  obtain r k where set: "fcntl_f os fd F_SETFL (arg OR O_NONBLOCK) (kern w) = (r, k)"
    by (cases "fcntl_f os fd F_SETFL (arg OR O_NONBLOCK) (kern w)")
  have nb: "fl k fd AND O_NONBLOCK = O_NONBLOCK"
    using assms(1,2) set or_and_nonblock [of arg] by (auto simp: flags_kernel_def dest!: spec [of _ fd] spec [of _ "arg OR O_NONBLOCK"]
        spec [of _ "kern w"])
  have w1: "kern w1 = kern w" "fd_entry (fdmgr w1) j = fd_entry (fdmgr w) j" "m_isSocket (heap (fdmgr w1) p)"
    "\<not> m_isClosed (heap (fdmgr w1) p)" "m_sysNonblock (heap (fdmgr w1) p)"
    "m_userNonblock (heap (fdmgr w1) p) = (arg AND O_NONBLOCK \<noteq> 0)" for j
    using assms(6-8) by (simp_all add: w1_def update_ctx_def setUserNonblock_def fdt.entry_def)
  have s: "fcntl os fd F_SETFL arg ptr w = Inr (r, w1\<lparr>kern := k\<rparr>)"
    using assms(5-7) w1(1,5) set
    by (simp add: get_fd_lookup [OF assms(3,4)] fcntl_def fcntl_setfl_def hook_socket_ctx_def kernel_fcntl_def w1_def Let_def)
  let ?flags = "if arg AND O_NONBLOCK \<noteq> 0 then fl k fd OR O_NONBLOCK else fl k fd AND NOT O_NONBLOCK"
  have "fcntl_f os fd F_GETFL 0 k = (fl k fd, k)"
    using assms(1,2) by (simp add: flags_kernel_def)
  then have g: "fcntl os fd F_GETFL arg' ptr' (w1\<lparr>kern := k\<rparr>) = Inr (?flags, w1\<lparr>kern := k\<rparr>)"
    using assms(5) w1
    by (simp add: get_fd_lookup [OF assms(3,4)] fcntl_def fcntl_getfl_def hook_socket_ctx_def kernel_fcntl_def fcntl_cmds_distinct)
  have "?flags AND O_NONBLOCK = arg AND O_NONBLOCK"
    using nonblock_bit [of arg] by (auto simp: or_and_nonblock and.assoc)
  then show ?thesis using s g nb w1(6) O_NONBLOCK_nonzero by auto
qed

definition demo_os :: "u32 fcntl_os" where
  \<comment> \<open>a kernel whose state is the flags of the one descriptor\<close>
  "demo_os =
     \<lparr>fstat_call = (\<lambda>fd k. Some 0xC000), fcntl_f = (\<lambda>fd cmd a k. if cmd = F_SETFL then (0, a) else (k, k)),
      fcntl_none = (\<lambda>fd cmd k. (0, k)), fcntl_ptr = (\<lambda>fd cmd a k. (0, k))\<rparr>"

lemma demo_os_kernel: "flags_kernel (os.truncate demo_os) (\<lambda>k fd. k)" "fstat_call demo_os fd = (\<lambda>k. Some 0xC000)"
  by (simp_all add: flags_kernel_def demo_os_def os.truncate_def fcntl_cmds_distinct)

definition demo_flags :: "u32 hooks" where
  "demo_flags = \<lparr>t_hook_enable = True, fdmgr = fdmgr (demo_hooks 9), iom = None, tinfo = (\<lambda>_. None), next_tinfo = 0,
     kern = O_NONBLOCK, errno = 0\<rparr>"

lemma demo_flags_facts:
  "fd_entry (fdmgr demo_flags) 5 = Some 0" "m_isSocket (heap (fdmgr demo_flags) 0)" "\<not> m_isClosed (heap (fdmgr demo_flags) 0)"
  "m_sysNonblock (heap (fdmgr demo_flags) 0)" "kern demo_flags = O_NONBLOCK"
  using demo_hooks_facts(2) by (simp_all add: demo_flags_def) (simp_all add: demo_hooks_def FdCtx_fields_def)

theorem fcntl_user_view_witness:
  "\<exists>r w1 flags w2. fcntl demo_os 5 F_SETFL 2 0 demo_flags = Inr (r, w1) \<and> fcntl demo_os 5 F_GETFL 0 0 w1 = Inr (flags, w2)
    \<and> flags AND O_NONBLOCK = 0 \<and> kern w2 AND O_NONBLOCK \<noteq> 0"
  using fcntl_user_view [OF demo_os_kernel, of 5 demo_flags 0 2 0 0 0]
  by (auto simp: demo_flags_facts O_NONBLOCK_def)

text \<open>
  The other way to choose the mode does not keep it: \<^verbatim>\<open>ioctl(FIONBIO, 0)\<close> on a managed
  socket hands the user's 0 to the kernel, which makes the descriptor blocking, while its
  record still counts it as a socket the hooks made non-blocking: the next call through
  \<open>do_io\<close> blocks the thread.  \<^verbatim>\<open>fcntl\<close> keeps the flag in the same situation.
\<close>

theorem ioctl_unblocks_kernel:
  assumes "\<And>a k. fl (snd (snd (ioctl_f a k))) fd AND O_NONBLOCK = (if a = 0 then 0 else O_NONBLOCK)"
    and "0 \<le> fd" "fd < 2 ^ 31" and "fd_entry (fdmgr w) (nat fd) = Some p"
    and "m_isSocket (heap (fdmgr w) p)" "\<not> m_isClosed (heap (fdmgr w) p)" "m_sysNonblock (heap (fdmgr w) p)"
  shows "\<exists>n w1. ioctl os fd FIONBIO 0 ioctl_f w = Inr (n, w1) \<and> fl (kern w1) fd AND O_NONBLOCK = 0
    \<and> m_sysNonblock (heap (fdmgr w1) p) \<and> blocking_socket (heap (fdmgr w1) p)"
proof -
  obtain n e k where c: "ioctl_f 0 (kern w) = (n, e, k)" by (cases "ioctl_f 0 (kern w)")
  then have "fl k fd AND O_NONBLOCK = 0" using assms(1) [of 0 "kern w"] by simp
  then show ?thesis
    using assms(4-7) get_fd_lookup [OF assms(2,3), of os w] c
    by (simp add: ioctl_def hook_socket_ctx_def direct_def update_ctx_def setUserNonblock_def blocking_socket_def)
qed

theorem ioctl_unblocks_kernel_witness:
  "\<exists>n w1. ioctl (os.truncate demo_os) 5 FIONBIO 0 (\<lambda>a k. (0, 0, if a = 0 then 0 else O_NONBLOCK)) demo_flags = Inr (n, w1)
    \<and> kern w1 AND O_NONBLOCK = 0 \<and> blocking_socket (heap (fdmgr w1) 0)"
proof -
  let ?ioctl_f = "\<lambda>a k. (0, 0, if a = 0 then 0 else O_NONBLOCK)"
  have "snd (snd (?ioctl_f a k)) AND O_NONBLOCK = (if a = 0 then 0 else O_NONBLOCK)" for a :: int and k :: u32
    by simp
  from ioctl_unblocks_kernel [of "\<lambda>k fd. k" ?ioctl_f 5 demo_flags 0 "os.truncate demo_os", OF this] show ?thesis
    by (auto simp: demo_flags_facts)
qed

lemma arm_timer_facts:
  fixes call :: hook_cb
  assumes "timers_ok (timers m)"
  obtains m1 where "arm_timer now ms call m = (m1, next_timer (timers m))"
    and "store (timers m1) (next_timer (timers m)) = Timer_new ms (Some call) False now"
    and "scheds m1 = scheds m" "self m1 = self m"
    and "(\<forall>j \<in> set (m_timers (timers m)). m_next (store (timers m) j) \<noteq> now + ms_dur ms) \<Longrightarrow>
           set (m_timers (timers m1)) = insert (next_timer (timers m)) (set (m_timers (timers m)))"
proof -
  let ?t = "timers m" and ?i = "next_timer (timers m)"
  let ?t' = "?t\<lparr>store := (store ?t)(?i := Timer_new ms (Some call) False now), next_timer := Suc ?i\<rparr>"
  have fresh: "j \<noteq> ?i" if "j \<in> set (m_timers ?t)" for j using that assms by (auto simp: timers_ok_def)
  have ins: "set (set_insert (Comparator ?t') ?i (m_timers ?t)) = insert ?i (set (m_timers ?t))"
    if "\<forall>j \<in> set (m_timers ?t). m_next (store ?t j) \<noteq> now + ms_dur ms"
  proof (rule cmp.set_set_insert)
    fix y
    assume "y \<in> set (m_timers ?t)"
    then show "Comparator ?t' ?i y \<or> Comparator ?t' y ?i"
      using that fresh by (auto simp: Comparator_def Timer_new_def)
  qed
  obtain t b where a: "addTimer_ptr ?i ?t' = (t, b)" by (cases "addTimer_ptr ?i ?t'")
  then have t: "store t = store ?t'" "m_timers t = set_insert (Comparator ?t') ?i (m_timers ?t)"
    by (auto simp: addTimer_ptr_def Let_def split: if_splits)
  have "arm_timer now ms call m = (front_tickle b (m\<lparr>timers := t\<rparr>), ?i)"
    using a by (simp add: arm_timer_def addTimer_def Let_def)
  then show thesis
    by (rule that) (use t ins in \<open>auto simp: front_tickle_def onTimerInsertedAtFront_def\<close>)
qed

lemma sint_ucast_32: "sint (ucast (x :: u32) :: u64) = uint x"
proof -
  have "uint (ucast x :: u64) = uint x" by (rule uint_up_ucast) (simp add: is_up)
  moreover have "signed_take_bit 63 (uint x) = uint x"
    by (rule signed_take_bit_int_eq_self; rule order_less_le_trans [OF uint_lt2p] order_trans [OF _ uint_nonnegative]; simp)
  ultimately show ?thesis by (simp add: sint_uint)
qed

text \<open>
  \<^verbatim>\<open>sleep\<close> suspends the fiber with a timer whose callback puts exactly that fiber back into
  its scheduler's queue; the timer is pending, unless one with the same deadline is.  The
  deadline is \<open>seconds * 1000\<close> milliseconds away modulo 2 ^ 32: the product is 32 bits wide, so
  that 4294968 seconds are 704 milliseconds.
\<close>

theorem sleep_wakes_fiber:
  assumes "t_hook_enable w" and "iom w = Some m" and "timers_ok (timers m)"
  shows "\<exists>w1 m1 i call w2 m2. sleep fn now s me w = Inr (IoYield (), w1) \<and> iom w1 = Some m1
    \<and> m_next (store (timers m1) i) = now + (int (unat s) * 1000) mod 2 ^ 32 * 1000000
    \<and> m_cb (store (timers m1) i) = Some call
    \<and> ((\<forall>j \<in> set (m_timers (timers m)). m_next (store (timers m) j) \<noteq> now + (int (unat s) * 1000) mod 2 ^ 32 * 1000000)
         \<longrightarrow> i \<in> set (m_timers (timers m1)))
    \<and> run_timer_cb rt call w1 = Inr w2 \<and> iom w2 = Some m2
    \<and> queue (self m) m2 = queue (self m) m @ [ScheduleTask_fiber (Some (this_fiber me)) (- 1)]"
proof -
  let ?ms = "ucast (s * 1000) :: u64" and ?call = "Direct (WakeFiber (this_fiber me)) :: hook_cb"
  obtain m1 where a: "arm_timer now ?ms ?call m = (m1, next_timer (timers m))"
    and m1: "store (timers m1) (next_timer (timers m)) = Timer_new ?ms (Some ?call) False now" "scheds m1 = scheds m"
      "self m1 = self m" "(\<forall>j \<in> set (m_timers (timers m)). m_next (store (timers m) j) \<noteq> now + ms_dur ?ms) \<Longrightarrow>
           set (m_timers (timers m1)) = insert (next_timer (timers m)) (set (m_timers (timers m)))"
    using arm_timer_facts [OF assms(3), of now ?ms ?call] by blast
  have "uint (s * 1000) = (int (unat s) * 1000) mod 2 ^ 32"
    by (simp add: uint_word_ariths)
  then have d: "ms_dur ?ms = (int (unat s) * 1000) mod 2 ^ 32 * 1000000"
    by (simp add: ms_dur_def sint_ucast_32)
  have r: "real_task (ScheduleTask_fiber (Some (this_fiber me)) (- 1) :: hook_cb ScheduleTask)"
    by (simp add: real_task_def ScheduleTask_fiber_def ScheduleTask_empty_def)
  show ?thesis
    by (rule exI [of _ "w\<lparr>iom := Some m1\<rparr>"], rule exI [of _ m1], rule exI [of _ "next_timer (timers m)"], rule exI [of _ ?call],
        rule exI [of _ "w\<lparr>iom := Some (schedule_on (self m) (ScheduleTask_fiber (Some (this_fiber me)) (- 1)) m1)\<rparr>"],
        rule exI [of _ "schedule_on (self m) (ScheduleTask_fiber (Some (this_fiber me)) (- 1)) m1"])
       (use assms(1,2) a m1 d r in \<open>auto simp: sleep_def sleep_on_def Timer_new_def run_timer_cb_def queue_schedule_on\<close>)
qed

theorem sleep_wakes_fiber_witness:
  "\<exists>w1 m1 i call. sleep demo_recv 7 4294968 demo_caller (demo_hooks 9) = Inr (IoYield (), w1) \<and> iom w1 = Some m1
    \<and> m_next (store (timers m1) i) = 7 + 704000000 \<and> i \<in> set (m_timers (timers m1))
    \<and> m_cb (store (timers m1) i) = Some call"
proof -
  have "timers_ok (timers (IOManager_new 0 (\<lambda>_. hook_sched) 0))" "m_timers (timers (IOManager_new 0 (\<lambda>_. hook_sched) 0)) = []"
    by (simp_all add: IOManager_new_facts TimerManager_new_def timers_ok_def)
  then show ?thesis
    using sleep_wakes_fiber [of "demo_hooks 9" "IOManager_new 0 (\<lambda>_. hook_sched) 0" demo_recv 7 4294968 demo_caller 0]
    by (auto simp: demo_hooks_facts)
qed

text \<open>
  \<open>close\<close> on a managed descriptor (and a working \<^verbatim>\<open>epoll_ctl\<close>) wakes every fiber that waits
  for it, forgets its record and only then closes it: no event stays registered, a later
  lookup finds nothing, and the result is the kernel's.
\<close>

theorem close_releases:
  assumes "t_hook_enable w" and "0 \<le> fd" "fd < 2 ^ 31" and "fd_entry (fdmgr w) (nat fd) = Some p"
    and "iom w = Some m" "iom_ok m" and "close_f (kern w) = (n, e, k)"
  shows "\<exists>w1 m1. hook_close os fd 0 close_f w = Inr (n, w1) \<and> errno w1 = e \<and> kern w1 = k
    \<and> fd_entry (fdmgr w1) (nat fd) = None \<and> (\<forall>j. j \<noteq> nat fd \<longrightarrow> fd_entry (fdmgr w1) j = fd_entry (fdmgr w) j)
    \<and> iom w1 = Some m1 \<and> iom_ok m1 \<and> events (ctx_of m1 (nat fd)) = NONE
    \<and> (\<forall>sid. queue sid m1 = queue sid m @ waiters sid (events (ctx_of m (nat fd))) (ctx_of m (nat fd)))"
proof -
  obtain b m1 where c: "cancelAll 0 fd m = Inr (b, m1)" and m1: "iom_ok m1" "events (ctx_of m1 (nat fd)) = NONE"
    "\<And>sid. queue sid m1 = queue sid m @ waiters sid (events (ctx_of m (nat fd))) (ctx_of m (nat fd))"
  proof (cases "events (ctx_of m (nat fd)) = NONE")
    case True
    then show thesis
      using cancelAll_effect [OF assms(6,2), of 0] assms(6) by (intro that [of False m]) (simp_all add: waiters_def NONE_def)
  next
    case False
    then show thesis using cancelAll_effect [OF assms(6,2), of 0] that by auto
  qed
  then have "hook_close os fd 0 close_f w
      = Inr (n, w\<lparr>iom := Some m1, fdmgr := FdManager_del fd (fdmgr w), kern := k, errno := e\<rparr>)"
    using assms by (simp add: hook_close_def get_fd_lookup direct_def)
  then show ?thesis using m1 by (simp add: del_entry [OF assms(2,3)])
qed

theorem close_releases_witness:
  "\<exists>w1 m1. hook_close demo_kernel 5 0 (\<lambda>k. (0, 0, k)) demo_busy = Inr (0, w1) \<and> fd_entry (fdmgr w1) 5 = None \<and> iom w1 = Some m1
    \<and> events (ctx_of m1 5) = NONE"
proof -
  obtain m where m: "demo_busy = (demo_hooks 9)\<lparr>errno := EAGAIN, iom := Some m\<rparr>" "iom_ok m"
    by (rule demo_busy_facts)
  have "t_hook_enable demo_busy" "fd_entry (fdmgr demo_busy) 5 = Some 0" "iom demo_busy = Some m"
    unfolding m(1) by (simp_all add: demo_hooks_facts)
  then show ?thesis
    using close_releases [of demo_busy 5 0 m "\<lambda>k. (0, 0, k)" 0 0 "kern demo_busy" demo_kernel] m(2) by auto
qed

lemma c_div_nonneg: "0 \<le> a \<Longrightarrow> 0 < b \<Longrightarrow> c_div a b = a div b"
  by (simp add: c_div_def)

text \<open>
  \<^verbatim>\<open>setsockopt\<close> with a receive or send timeout records it in milliseconds, rounded down, for
  that direction only.  The zero \<^verbatim>\<open>timeval\<close>, which means no timeout to the kernel, is recorded
  as a timeout of zero milliseconds, not as the absence of one.
\<close>

theorem setsockopt_records_timeout:
  assumes "t_hook_enable w" and "0 \<le> fd" "fd < 2 ^ 31" and "fd_entry (fdmgr w) (nat fd) = Some p"
    and "so = SO_RCVTIMEO \<or> so = SO_SNDTIMEO" and "0 \<le> sec" "0 \<le> usec" "sec * 1000 + usec div 1000 < 2 ^ 64"
    and "setsockopt_f (kern w) = (n, e, k)"
  shows "\<exists>w1. hook_setsockopt os fd SOL_SOCKET so (sec, usec) setsockopt_f w = Inr (n, w1)
    \<and> uint (getTimeout so (heap (fdmgr w1) p)) = sec * 1000 + usec div 1000
    \<and> (\<forall>so' \<in> {SO_RCVTIMEO, SO_SNDTIMEO} - {so}. getTimeout so' (heap (fdmgr w1) p) = getTimeout so' (heap (fdmgr w) p))
    \<and> (sec = 0 \<and> usec = 0 \<longrightarrow> getTimeout so (heap (fdmgr w1) p) = 0 \<and> getTimeout so (heap (fdmgr w1) p) \<noteq> - 1)"
proof -
  have u: "uint (timeval_ms sec usec) = sec * 1000 + usec div 1000"
    using assms(6-8) by (simp only: timeval_ms_def c_div_nonneg unsigned_of_int) (simp add: take_bit_int_eq_self)
  have z: "timeval_ms 0 0 = 0" by (simp add: timeval_ms_def c_div_def)
  have "hook_setsockopt os fd SOL_SOCKET so (sec, usec) setsockopt_f w
      = Inr (n, (update_ctx p (setTimeout so (timeval_ms sec usec)) w)\<lparr>kern := k, errno := e\<rparr>)"
    using assms by (auto simp: hook_setsockopt_def get_fd_lookup direct_def update_ctx_def)
  then show ?thesis
    using assms(5) u z by (auto simp: update_ctx_def setTimeout_def getTimeout_def SO_RCVTIMEO_def SO_SNDTIMEO_def)
qed

theorem setsockopt_records_timeout_witness:
  "\<exists>w1. hook_setsockopt demo_kernel 5 SOL_SOCKET SO_SNDTIMEO (2, 1999) (\<lambda>k. (0, 0, k)) (demo_hooks 9) = Inr (0, w1)
    \<and> uint (getTimeout SO_SNDTIMEO (heap (fdmgr w1) 0)) = 2001 \<and> getTimeout SO_RCVTIMEO (heap (fdmgr w1) 0) = 9"
  using setsockopt_records_timeout [of "demo_hooks 9" 5 0 SO_SNDTIMEO 2 1999 "\<lambda>k. (0, 0, k)" 0 0 0 demo_kernel] demo_hooks_facts(4)
  by (auto simp: demo_hooks_facts SO_RCVTIMEO_def SO_SNDTIMEO_def)

text \<open>
  \<open>connect\<close> waits for the connection: when the kernel answers \<^verbatim>\<open>EINPROGRESS\<close> the fiber is
  suspended as the writer of the socket; resumed without a timeout it returns 0 exactly when
  the pending error of the socket is 0, and otherwise -1 with that error.
\<close>

theorem connect_waits:
  assumes "t_hook_enable w" and "0 \<le> fd" "fd < 2 ^ 31" and "fd_entry (fdmgr w) (nat fd) = Some p"
    and "blocking_socket (heap (fdmgr w) p)" and "iom w = Some m" "iom_ok m" and "caller_ok me"
    and "events (ctx_of m (nat fd)) AND WRITE = 0" and "connect_f (kern w) = (- 1, EINPROGRESS, k)"
    and "so_error k' = (Some err, e, k'')"
  shows "\<exists>fr w1 m1 w2. hook_connect os fd connect_f so_error now 0 me w = Inr (IoYield fr, w1) \<and> iom w1 = Some m1 \<and> iom_ok m1
    \<and> slot WRITE (ctx_of m1 (nat fd)) = \<lparr>ev_scheduler = this_sched me, ev_fiber = Some (this_fiber me), ev_cb = None\<rparr>
    \<and> timers m1 = timers m
    \<and> connect_resume so_error fr (w1\<lparr>kern := k'\<rparr>) = (if err = 0 then 0 else - 1, w2) \<and> (err \<noteq> 0 \<longrightarrow> errno w2 = err)"
proof -
  have rw: "rw WRITE" by (simp add: rw_def)
  obtain m1 where a: "addEvent me 0 fd WRITE None m = Inr (0, m1)" and m1: "iom_ok m1" "timers m1 = timers m"
    "ctx_of m1 (nat fd) = set_event_context WRITE
       \<lparr>ev_scheduler = this_sched me, ev_fiber = Some (this_fiber me), ev_cb = None\<rparr>
       ((ctx_of m (nat fd))\<lparr>events := events (ctx_of m (nat fd)) OR WRITE\<rparr>)"
    using addEvent_effect [OF assms(7,2) rw assms(8), of 0 None] assms(9) by auto
  let ?w2 = "w\<lparr>kern := k, errno := EINPROGRESS\<rparr>"
  let ?w3 = "(snd (new_tinfo ?w2))\<lparr>iom := Some m1\<rparr>"
  let ?fr = "\<lparr>cn_fd = fd, cn_tinfo = next_tinfo w, cn_timer = None\<rparr>"
  have "hook_connect os fd connect_f so_error now 0 me w = Inr (IoYield ?fr, ?w3)"
    using assms(1-6,10) a
    by (simp add: hook_connect_def connect_with_timeout_def get_fd_lookup blocking_socket_def direct_def new_tinfo_def
        s_connect_timeout_def arm_timeout_def Let_def)
  moreover have "connect_resume so_error ?fr (?w3\<lparr>kern := k'\<rparr>) = (if err = 0 then 0 else - 1,
      drop_tinfo (next_tinfo w) (?w3\<lparr>kern := k'', errno := if err = 0 then e else err\<rparr>))"
    using assms(11) by (simp add: connect_resume_def new_tinfo_def disarm_def connect_check_def Let_def)
  ultimately show ?thesis
    using m1 slot_set_event [OF rw] by (auto simp: drop_tinfo_def new_tinfo_def)
qed

theorem connect_waits_witness:
  "\<exists>fr w1 w2. hook_connect demo_kernel 5 (\<lambda>k. (- 1, EINPROGRESS, k)) (\<lambda>k. (Some 111, 0, k)) 0 0 demo_caller (demo_hooks 9)
      = Inr (IoYield fr, w1)
    \<and> connect_resume (\<lambda>k. (Some 111, 0, k)) fr (w1\<lparr>kern := 8\<rparr>) = (- 1, w2) \<and> errno w2 = 111"
  using connect_waits [of "demo_hooks 9" 5 0 "IOManager_new 0 (\<lambda>_. hook_sched) 0" demo_caller "\<lambda>k. (- 1, EINPROGRESS, k)" 0
      "\<lambda>k. (Some 111, 0, k)" 8 111 0 8 demo_kernel 0]
  by (auto simp: demo_hooks_facts IOManager_new_ok demo_caller_ok IOManager_new_facts FdContext_new_def NONE_def)

end
