(* ===== verification/Endian.thy ===== *)
theory Endian
  imports Prelude
begin

text \<open>
  \<^verbatim>\<open>util/endian.h\<close>: swapping the bytes of an integer, and what the code builds on it: the
  four-byte length in network order that precedes a message to the registration centre.
  The functions of \<^verbatim>\<open><byteswap.h>\<close>, \<^verbatim>\<open>htonl\<close> and \<^verbatim>\<open>ntohl\<close> are the C library's; memory is a
  list of bytes, least significant first on a little-endian machine.
\<close>

unbundle bit_operations_syntax

definition bswap_16 :: "u16 \<Rightarrow> u16" where
  "bswap_16 v = push_bit 8 (v AND mask 8) OR (drop_bit 8 v AND mask 8)"

definition bswap_32 :: "u32 \<Rightarrow> u32" where
  "bswap_32 v = push_bit 24 (v AND mask 8) OR push_bit 16 (drop_bit 8 v AND mask 8)
     OR push_bit 8 (drop_bit 16 v AND mask 8) OR (drop_bit 24 v AND mask 8)"

definition bswap_64 :: "u64 \<Rightarrow> u64" where
  "bswap_64 v = push_bit 32 (ucast (bswap_32 (ucast v))) OR ucast (bswap_32 (ucast (drop_bit 32 v)))"

definition byteswapOnLittleEndian :: "bool \<Rightarrow> ('a \<Rightarrow> 'a) \<Rightarrow> 'a \<Rightarrow> 'a" where
  \<comment> \<open>\<open>big\<close>: the byte order the header was compiled for; the second argument is the \<^verbatim>\<open>byteswap\<close>
    of the type\<close>
  "byteswapOnLittleEndian big byteswap t = (if big then t else byteswap t)"

definition byteswapOnBigEndian :: "bool \<Rightarrow> ('a \<Rightarrow> 'a) \<Rightarrow> 'a \<Rightarrow> 'a" where
  "byteswapOnBigEndian big byteswap t = (if big then byteswap t else t)"

definition store32 :: "bool \<Rightarrow> u32 \<Rightarrow> bytes" where
  \<comment> \<open>the memory of a 32-bit integer\<close>
  "store32 big v =
     (let le = [ucast v, ucast (drop_bit 8 v), ucast (drop_bit 16 v), ucast (drop_bit 24 v)]
      in if big then rev le else le)"

definition load32 :: "bool \<Rightarrow> bytes \<Rightarrow> u32" where
  "load32 big bs =
     (let le = (if big then rev (take 4 bs) else take 4 bs)
      in ucast (le ! 0) OR push_bit 8 (ucast (le ! 1)) OR push_bit 16 (ucast (le ! 2)) OR push_bit 24 (ucast (le ! 3)))"

definition htonl :: "bool \<Rightarrow> u32 \<Rightarrow> u32" where
  "htonl big v = byteswapOnLittleEndian big bswap_32 v"

definition htons :: "bool \<Rightarrow> u16 \<Rightarrow> u16" where
  "htons big v = byteswapOnLittleEndian big bswap_16 v"

lemma bswap_16_inverse: "bswap_16 (bswap_16 v) = v"
  by (rule bit_word_eqI) (auto simp: bswap_16_def bit_simps)

lemma bit_bswap_32:
  "n < 32 \<Longrightarrow> bit (bswap_32 v) n = bit v (if n < 8 then n + 24 else if n < 16 then n + 8 else if n < 24 then n - 8 else n - 24)"
  by (auto simp: bswap_32_def bit_simps not_less le_imp_diff_is_add ac_simps)

lemma byte_of_bit:
  assumes "n < (32 :: nat)"
  obtains k where "k < 8" and "n = k \<or> n = 8 + k \<or> n = 16 + k \<or> n = 24 + k"
proof -
  have "n mod 8 < 8" "n = n mod 8 \<or> n = 8 + n mod 8 \<or> n = 16 + n mod 8 \<or> n = 24 + n mod 8"
    using assms by presburger+
  then show thesis using that by blast
qed

lemma bswap_32_inverse: "bswap_32 (bswap_32 v) = v"
proof (rule bit_word_eqI)
  fix n
  assume "n < LENGTH(32)"
  then have n: "n < 32" by simp
  then show "bit (bswap_32 (bswap_32 v)) n = bit v n"
    by (rule byte_of_bit) (use n in \<open>auto simp: bit_bswap_32\<close>)
qed

lemma load_store32: "load32 big (store32 big v @ r) = v"
proof (rule bit_word_eqI)
  fix n
  assume "n < LENGTH(32)"
  then have n: "n < 32" by simp
  then show "bit (load32 big (store32 big v @ r)) n = bit v n"
    by (rule byte_of_bit) (use n in \<open>auto simp: load32_def store32_def Let_def bit_simps\<close>)
qed

lemma length_store32 [simp]: "length (store32 big v) = 4"
  by (simp add: store32_def Let_def)

lemma ntohl_htonl: "htonl big (htonl big v) = v"
  by (simp add: htonl_def byteswapOnLittleEndian_def bswap_32_inverse)

lemma store_htonl:
  "store32 big (htonl big v) = [ucast (drop_bit 24 v), ucast (drop_bit 16 v), ucast (drop_bit 8 v), ucast v]"
proof (cases big)
  case True
  then show ?thesis by (simp add: store32_def htonl_def byteswapOnLittleEndian_def Let_def)
next
  case False
  have "(ucast (bswap_32 v) :: u8) = ucast (drop_bit 24 v)" "(ucast (drop_bit 8 (bswap_32 v)) :: u8) = ucast (drop_bit 16 v)"
    "(ucast (drop_bit 16 (bswap_32 v)) :: u8) = ucast (drop_bit 8 v)" "(ucast (drop_bit 24 (bswap_32 v)) :: u8) = ucast v"
    by (rule bit_word_eqI; simp add: bit_simps bit_bswap_32 add.commute)+
  then show ?thesis using False by (simp add: store32_def htonl_def byteswapOnLittleEndian_def Let_def)
qed

section \<open>The length prefix\<close>

definition frame :: "bool \<Rightarrow> bytes \<Rightarrow> bytes" where
  \<comment> \<open>\<open>SendData\<close>, \<open>GetIpAndPort\<close>: the size of the data in network order, then the data\<close>
  "frame big data = store32 big (htonl big (of_nat (length data))) @ data"

definition unframe :: "bool \<Rightarrow> bytes \<Rightarrow> bytes option" where
  \<comment> \<open>\<open>process\<close>: the string made of the announced number of bytes; \<open>None\<close>, it reads beyond the
    end of the buffer\<close>
  "unframe big buf =
     (let data_size = htonl big (load32 big buf)
      in if 4 + unat data_size \<le> length buf then Some (take (unat data_size) (drop 4 buf)) else None)"

lemma frame_prefix: "length data < 2 ^ 32 \<Longrightarrow> unat (htonl big (load32 big (frame big data @ r))) = length data"
  by (simp add: frame_def load_store32 [of big _ "data @ r", simplified] ntohl_htonl unat_of_nat)

lemma unframe_frame: "length data < 2 ^ 32 \<Longrightarrow> unframe big (frame big data @ r) = Some data"
proof -
  assume "length data < 2 ^ 32"
  note p = frame_prefix [OF this, of big r]
  have "length (frame big data @ r) = 4 + length data + length r" by (simp add: frame_def)
  moreover have "drop 4 (frame big data @ r) = data @ r" by (simp add: frame_def)
  ultimately show ?thesis by (simp add: unframe_def Let_def p)
qed

end
