(* ===== verification/Wire.thy ===== *)
theory Wire
  imports Prelude
begin

text \<open>
  \<^verbatim>\<open>RPC/rpcheader.pb.cc\<close>, generated from \<^verbatim>\<open>rpcheader.proto\<close>: the header every message of
  the framework starts with.  The protobuf runtime it calls is not part of the sources: its
  functions are the fields of the record \<open>pb_lib\<close>, and what its documentation says of them
  is stated by the locale \<open>wire_format\<close>.  A read takes the remaining input and returns the
  value with the rest, or fails.  The type \<open>'u\<close> stands for a set of unknown fields.
\<close>

section \<open>The runtime\<close>

unbundle bit_operations_syntax

record 'u pb_lib =
  ReadTag :: "bytes \<Rightarrow> (u32 \<times> bytes) option"
  ReadVarint32 :: "bytes \<Rightarrow> (u32 \<times> bytes) option"
  ReadBytes :: "bytes \<Rightarrow> (bytes \<times> bytes) option"              \<comment> \<open>\<^verbatim>\<open>InlineGreedyStringParser\<close>\<close>
  UnknownFieldParse :: "u32 \<Rightarrow> 'u \<Rightarrow> bytes \<Rightarrow> ('u \<times> bytes) option"
  WriteVarint32 :: "u32 \<Rightarrow> bytes"
  WriteBytes :: "nat \<Rightarrow> bytes \<Rightarrow> bytes"
  WriteUInt32 :: "nat \<Rightarrow> u32 \<Rightarrow> bytes"
  WriteUnknown :: "'u \<Rightarrow> bytes"
  BytesSize :: "bytes \<Rightarrow> nat"
  UInt32Size :: "u32 \<Rightarrow> nat"
  UnknownSize :: "'u \<Rightarrow> nat"
  no_unknown :: 'u
  have_unknown :: "'u \<Rightarrow> bool"
  MergeUnknown :: "'u \<Rightarrow> 'u \<Rightarrow> 'u"
  ReadString :: "nat \<Rightarrow> bytes \<Rightarrow> bool \<times> bytes \<times> bytes"          \<comment> \<open>\<^verbatim>\<open>CodedInputStream::ReadString\<close>\<close>

section \<open>\<open>RpcHeader\<close>\<close>

record 'u RpcHeader =
  h_service_name :: bytes
  h_method_name :: bytes
  h_args_size :: u32
  h_message_type :: u32
  h_ip :: bytes
  h_port :: u32
  h_unknown :: 'u

definition RpcHeader_new :: "'u pb_lib \<Rightarrow> 'u RpcHeader" where
  \<comment> \<open>\<open>SharedCtor\<close>\<close>
  "RpcHeader_new lib =
     \<lparr>h_service_name = [], h_method_name = [], h_args_size = 0, h_message_type = 0,
      h_ip = [], h_port = 0, h_unknown = no_unknown lib\<rparr>"

definition RpcHeader_Clear :: "'u pb_lib \<Rightarrow> 'u RpcHeader \<Rightarrow> 'u RpcHeader" where
  "RpcHeader_Clear lib h =
     h\<lparr>h_service_name := [], h_method_name := [], h_ip := [], h_args_size := 0,
       h_message_type := 0, h_port := 0, h_unknown := no_unknown lib\<rparr>"

definition RpcHeader_copy :: "'u pb_lib \<Rightarrow> 'u RpcHeader \<Rightarrow> 'u RpcHeader" where
  \<comment> \<open>the copy constructor\<close>
  "RpcHeader_copy lib from =
     (let h = (RpcHeader_new lib)\<lparr>h_unknown := MergeUnknown lib (no_unknown lib) (h_unknown from)\<rparr>;
          h = (if h_service_name from \<noteq> [] then h\<lparr>h_service_name := h_service_name from\<rparr> else h);
          h = (if h_method_name from \<noteq> [] then h\<lparr>h_method_name := h_method_name from\<rparr> else h);
          h = (if h_ip from \<noteq> [] then h\<lparr>h_ip := h_ip from\<rparr> else h)
      in h\<lparr>h_args_size := h_args_size from, h_message_type := h_message_type from, h_port := h_port from\<rparr>)"

definition RpcHeader_MergeFrom :: "'u pb_lib \<Rightarrow> 'u RpcHeader \<Rightarrow> 'u RpcHeader \<Rightarrow> 'u RpcHeader" where
  "RpcHeader_MergeFrom lib from h =
     (let h = h\<lparr>h_unknown := MergeUnknown lib (h_unknown h) (h_unknown from)\<rparr>;
          h = (if length (h_service_name from) > 0 then h\<lparr>h_service_name := h_service_name from\<rparr> else h);
          h = (if length (h_method_name from) > 0 then h\<lparr>h_method_name := h_method_name from\<rparr> else h);
          h = (if length (h_ip from) > 0 then h\<lparr>h_ip := h_ip from\<rparr> else h);
          h = (if h_args_size from \<noteq> 0 then h\<lparr>h_args_size := h_args_size from\<rparr> else h);
          h = (if h_message_type from \<noteq> 0 then h\<lparr>h_message_type := h_message_type from\<rparr> else h);
          h = (if h_port from \<noteq> 0 then h\<lparr>h_port := h_port from\<rparr> else h)
      in h)"

definition RpcHeader_CopyFrom :: "'u pb_lib \<Rightarrow> bool \<Rightarrow> 'u RpcHeader \<Rightarrow> 'u RpcHeader \<Rightarrow> 'u RpcHeader" where
  \<comment> \<open>\<open>same\<close>: \<^verbatim>\<open>&from == this\<close>\<close>
  "RpcHeader_CopyFrom lib same from h =
     (if same then h else RpcHeader_MergeFrom lib from (RpcHeader_Clear lib h))"

definition RpcHeader_InternalSwap :: "'u RpcHeader \<Rightarrow> 'u RpcHeader \<Rightarrow> 'u RpcHeader \<times> 'u RpcHeader" where
  "RpcHeader_InternalSwap h other =
     (h\<lparr>h_unknown := h_unknown other, h_service_name := h_service_name other, h_method_name := h_method_name other,
        h_ip := h_ip other, h_args_size := h_args_size other, h_message_type := h_message_type other,
        h_port := h_port other\<rparr>,
      other\<lparr>h_unknown := h_unknown h, h_service_name := h_service_name h, h_method_name := h_method_name h,
        h_ip := h_ip h, h_args_size := h_args_size h, h_message_type := h_message_type h, h_port := h_port h\<rparr>)"

definition RpcHeader_InternalSerialize :: "'u pb_lib \<Rightarrow> 'u RpcHeader \<Rightarrow> bytes" where
  \<comment> \<open>the bytes appended to the target\<close>
  "RpcHeader_InternalSerialize lib h =
     (if length (h_service_name h) > 0 then WriteBytes lib 1 (h_service_name h) else [])
     @ (if length (h_method_name h) > 0 then WriteBytes lib 2 (h_method_name h) else [])
     @ (if h_args_size h \<noteq> 0 then WriteUInt32 lib 3 (h_args_size h) else [])
     @ (if h_message_type h \<noteq> 0 then WriteUInt32 lib 4 (h_message_type h) else [])
     @ (if length (h_ip h) > 0 then WriteBytes lib 5 (h_ip h) else [])
     @ (if h_port h \<noteq> 0 then WriteUInt32 lib 6 (h_port h) else [])
     @ (if have_unknown lib (h_unknown h) then WriteUnknown lib (h_unknown h) else [])"

definition RpcHeader_ByteSizeLong :: "'u pb_lib \<Rightarrow> 'u RpcHeader \<Rightarrow> nat" where
  "RpcHeader_ByteSizeLong lib h =
     (let total_size = 0;
          total_size = (if length (h_service_name h) > 0 then total_size + (1 + BytesSize lib (h_service_name h)) else total_size);
          total_size = (if length (h_method_name h) > 0 then total_size + (1 + BytesSize lib (h_method_name h)) else total_size);
          total_size = (if length (h_ip h) > 0 then total_size + (1 + BytesSize lib (h_ip h)) else total_size);
          total_size = (if h_args_size h \<noteq> 0 then total_size + (1 + UInt32Size lib (h_args_size h)) else total_size);
          total_size = (if h_message_type h \<noteq> 0 then total_size + (1 + UInt32Size lib (h_message_type h)) else total_size);
          total_size = (if h_port h \<noteq> 0 then total_size + (1 + UInt32Size lib (h_port h)) else total_size)
      in if have_unknown lib (h_unknown h) then total_size + UnknownSize lib (h_unknown h) else total_size)"

text \<open>
  One round of the parse loop.  \<open>Stop tag\<close>: the label \<^verbatim>\<open>success\<close> was reached by an end tag,
  with the input not used up.
\<close>

datatype 'h parse_result = Continue 'h bytes | Stop 'h u32 | Failure

definition set_bytes_field ::
    "'u pb_lib \<Rightarrow> (bytes \<Rightarrow> 'h) \<Rightarrow> bytes \<Rightarrow> 'h parse_result" where
  "set_bytes_field lib upd ptr =
     (case ReadBytes lib ptr of None \<Rightarrow> Failure | Some (s, rest) \<Rightarrow> Continue (upd s) rest)"

definition set_varint_field ::
    "'u pb_lib \<Rightarrow> (u32 \<Rightarrow> 'h) \<Rightarrow> bytes \<Rightarrow> 'h parse_result" where
  "set_varint_field lib upd ptr =
     (case ReadVarint32 lib ptr of None \<Rightarrow> Failure | Some (v, rest) \<Rightarrow> Continue (upd v) rest)"

definition handle_unusual :: "'u pb_lib \<Rightarrow> u32 \<Rightarrow> 'u \<Rightarrow> ('u \<Rightarrow> 'h) \<Rightarrow> 'h \<Rightarrow> bytes \<Rightarrow> 'h parse_result" where
  \<comment> \<open>\<open>u\<close>: the unknown fields of the message \<open>h\<close>, \<open>upd\<close> stores them\<close>
  "handle_unusual lib tag u upd h ptr =
     (if tag AND 7 = 4 \<or> tag = 0 then Stop h tag
      else case UnknownFieldParse lib tag u ptr of
             None \<Rightarrow> Failure
           | Some (u', rest) \<Rightarrow> Continue (upd u') rest)"

definition parse_field :: "'u pb_lib \<Rightarrow> 'u RpcHeader \<Rightarrow> bytes \<Rightarrow> 'u RpcHeader parse_result" where
  "parse_field lib h ptr =
     (case ReadTag lib ptr of
        None \<Rightarrow> Failure
      | Some (tag, ptr) \<Rightarrow>
          (let field = drop_bit 3 tag; low = (ucast tag :: u8)
           in if field = 1 \<and> low = 10 then set_bytes_field lib (\<lambda>s. h\<lparr>h_service_name := s\<rparr>) ptr
              else if field = 2 \<and> low = 18 then set_bytes_field lib (\<lambda>s. h\<lparr>h_method_name := s\<rparr>) ptr
              else if field = 3 \<and> low = 24 then set_varint_field lib (\<lambda>v. h\<lparr>h_args_size := v\<rparr>) ptr
              else if field = 4 \<and> low = 32 then set_varint_field lib (\<lambda>v. h\<lparr>h_message_type := v\<rparr>) ptr
              else if field = 5 \<and> low = 42 then set_bytes_field lib (\<lambda>s. h\<lparr>h_ip := s\<rparr>) ptr
              else if field = 6 \<and> low = 48 then set_varint_field lib (\<lambda>v. h\<lparr>h_port := v\<rparr>) ptr
              else handle_unusual lib tag (h_unknown h) (\<lambda>u. h\<lparr>h_unknown := u\<rparr>) h ptr))"

datatype 'h parse_end = Done 'h | Stopped 'h u32 | ParseFailed | OutOfFuel

fun parse_loop :: "('h \<Rightarrow> bytes \<Rightarrow> 'h parse_result) \<Rightarrow> nat \<Rightarrow> 'h \<Rightarrow> bytes \<Rightarrow> 'h parse_end" where
  \<comment> \<open>the loop every generated parser consists of\<close>
  "parse_loop field fuel h [] = Done h"
| "parse_loop field 0 h ptr = OutOfFuel"
| "parse_loop field (Suc fuel) h ptr =
     (case field h ptr of
        Failure \<Rightarrow> ParseFailed
      | Stop h' tag \<Rightarrow> Stopped h' tag
      | Continue h' rest \<Rightarrow> parse_loop field fuel h' rest)"

definition RpcHeader_InternalParse :: "'u pb_lib \<Rightarrow> nat \<Rightarrow> 'u RpcHeader \<Rightarrow> bytes \<Rightarrow> 'u RpcHeader parse_end" where
  "RpcHeader_InternalParse lib fuel h ptr = parse_loop (parse_field lib) fuel h ptr"

definition RpcHeader_ParseFromString :: "'u pb_lib \<Rightarrow> bytes \<Rightarrow> 'u RpcHeader \<Rightarrow> bool \<times> 'u RpcHeader" where
  \<comment> \<open>the runtime's entry: the message is cleared first, and the whole input has to be used.
    After a failure the message holds what had been read, which nothing reads\<close>
  "RpcHeader_ParseFromString lib s h =
     (case RpcHeader_InternalParse lib (length s) (RpcHeader_Clear lib h) s of
        Done h' \<Rightarrow> (True, h')
      | _ \<Rightarrow> (False, RpcHeader_Clear lib h))"

lemmas header_defs [model_defs] =
  RpcHeader_new_def RpcHeader_Clear_def RpcHeader_copy_def RpcHeader_MergeFrom_def
  RpcHeader_CopyFrom_def RpcHeader_InternalSwap_def

text \<open>
  A message type that can be sent: what is serialized parses back to the same message.
\<close>

locale byte_codec =
  fixes enc :: "'a \<Rightarrow> bytes"
    and dec :: "bytes \<Rightarrow> 'a option"
    and ok :: "'a \<Rightarrow> bool"
  assumes dec_enc: "ok x \<Longrightarrow> dec (enc x) = Some x"
begin

lemma enc_inj: "ok x \<Longrightarrow> ok y \<Longrightarrow> enc x = enc y \<longleftrightarrow> x = y"
  by (metis dec_enc option.inject)

lemma dec_enc_unique: "ok x \<Longrightarrow> dec (enc x) = Some y \<Longrightarrow> y = x"
  by (simp add: dec_enc)

end

text \<open>
  A parser made of such a loop whose rounds each use up input: it ends within as many rounds as
  there are bytes, and what it does on a sequence of encoded fields is the sequence of what it
  does on each.
\<close>

locale message_parser =
  fixes field :: "'h \<Rightarrow> bytes \<Rightarrow> 'h parse_result"
  assumes field_consumes: "field h s = Continue h' r \<Longrightarrow> length r < length s"
begin

lemma enough_fuel: "length s \<le> fuel \<Longrightarrow> parse_loop field fuel h s \<noteq> OutOfFuel"
proof (induction fuel arbitrary: h s)
  case 0
  then show ?case by simp
next
  case (Suc fuel)
  show ?case
  proof (cases s)
    case (Cons b bs)
    have "length r \<le> fuel" if "field h s = Continue h' r" for h' r
      using field_consumes [OF that] Suc.prems by simp
    then show ?thesis
      using Suc.IH Cons by (auto split: parse_result.split)
  qed simp
qed

text \<open>\<open>parses h s h'\<close>: reading the bytes \<open>s\<close> turns the message \<open>h\<close> into \<open>h'\<close>, whatever follows.\<close>

definition parses :: "'h \<Rightarrow> bytes \<Rightarrow> 'h \<Rightarrow> bool" where
  "parses h s h' \<longleftrightarrow>
     (\<forall>r fuel. length (s @ r) \<le> fuel \<longrightarrow>
        (\<exists>fuel'. length r \<le> fuel' \<and>
           parse_loop field fuel h (s @ r) = parse_loop field fuel' h' r))"

lemma parses_Nil: "parses h [] h"
  by (auto simp: parses_def)

lemma parses_append:
  assumes "parses h s h'" and "parses h' s' h''"
  shows "parses h (s @ s') h''"
  unfolding parses_def
proof (intro allI impI)
  fix r fuel
  assume "length ((s @ s') @ r) \<le> fuel"
  then obtain f1 where f1: "length (s' @ r) \<le> f1"
    "parse_loop field fuel h (s @ (s' @ r)) = parse_loop field f1 h' (s' @ r)"
    using assms(1) unfolding parses_def by (metis append.assoc)
  then show "\<exists>fuel'. length r \<le> fuel' \<and>
      parse_loop field fuel h ((s @ s') @ r) = parse_loop field fuel' h'' r"
    using assms(2) unfolding parses_def by auto
qed

lemma parses_if: "(b \<Longrightarrow> parses h s h') \<Longrightarrow> (\<not> b \<Longrightarrow> h' = h) \<Longrightarrow> parses h (if b then s else []) h'"
  by (auto simp: parses_Nil)

lemma parses_field:
  assumes "\<And>r. field h (s @ r) = Continue h' r"
  shows "parses h s h'"
  unfolding parses_def
proof (intro allI impI)
  fix r fuel
  assume len: "length (s @ r) \<le> fuel"
  have "length r < length (s @ r)" using field_consumes [OF assms] .
  moreover from this obtain b bs where "s @ r = b # bs" by (cases "s @ r") auto
  moreover from calculation len obtain f where "fuel = Suc f" by (cases fuel) auto
  ultimately show "\<exists>fuel'. length r \<le> fuel' \<and>
      parse_loop field fuel h (s @ r) = parse_loop field fuel' h' r"
    using assms [of r] len by (intro exI [of _ f]) simp
qed

lemma parsed_whole:
  assumes "parses h s h'"
  shows "parse_loop field (length s) h s = Done h'"
  using assms [unfolded parses_def, rule_format, of "[]" "length s"] by auto

lemma parsed_last:
  assumes "parses h s h'" and "field h' s' = Continue h'' []" and "s' \<noteq> []"
  shows "parse_loop field (length (s @ s')) h (s @ s') = Done h''"
proof -
  obtain fuel' where f: "length s' \<le> fuel'"
    "parse_loop field (length (s @ s')) h (s @ s') = parse_loop field fuel' h' s'"
    using assms(1) [unfolded parses_def, rule_format, of s' "length (s @ s')"] by auto
  then obtain k b bs where "fuel' = Suc k" "s' = b # bs" using assms(3) by (cases fuel'; cases s') auto
  with f assms(2) show ?thesis by simp
qed

end

section \<open>What the runtime promises\<close>

definition wire_tag :: "nat \<Rightarrow> nat \<Rightarrow> u32" where
  "wire_tag field wire_type = of_nat (8 * field + wire_type)"

text \<open>
  Fields numbered below 16 have a one-byte tag.  Length-delimited values are limited to
  \<^verbatim>\<open>INT_MAX\<close> bytes.
\<close>

locale wire_format =
  fixes lib :: "'u pb_lib"
  assumes read_write_bytes: "1 \<le> f \<Longrightarrow> f < 16 \<Longrightarrow> length s < 2 ^ 31 \<Longrightarrow>
      \<exists>body. ReadTag lib (WriteBytes lib f s @ r) = Some (wire_tag f 2, body) \<and> ReadBytes lib body = Some (s, r)"
    and read_write_uint32: "1 \<le> f \<Longrightarrow> f < 16 \<Longrightarrow>
      \<exists>body. ReadTag lib (WriteUInt32 lib f v @ r) = Some (wire_tag f 0, body) \<and> ReadVarint32 lib body = Some (v, r)"
    and read_write_varint: "ReadVarint32 lib (WriteVarint32 lib v @ r) = Some (v, r)"
    and read_varint_empty: "ReadVarint32 lib [] = None"
    and bytes_size: "1 \<le> f \<Longrightarrow> f < 16 \<Longrightarrow> length (WriteBytes lib f s) = 1 + BytesSize lib s"
    and uint32_size: "1 \<le> f \<Longrightarrow> f < 16 \<Longrightarrow> length (WriteUInt32 lib f v) = 1 + UInt32Size lib v"
    and unknown_size: "length (WriteUnknown lib u) = UnknownSize lib u"
    and none_unknown: "\<not> have_unknown lib (no_unknown lib)"
    and merge_unknown: "MergeUnknown lib (no_unknown lib) u = u"
    and tag_consumes: "ReadTag lib s = Some (t, r) \<Longrightarrow> length r < length s"
    and varint_consumes: "ReadVarint32 lib s = Some (v, r) \<Longrightarrow> length r \<le> length s"
    and bytes_consumes: "ReadBytes lib s = Some (b, r) \<Longrightarrow> length r \<le> length s"
    and unknown_consumes: "UnknownFieldParse lib t u s = Some (u', r) \<Longrightarrow> length r \<le> length s"
    and read_string: "n \<le> length s \<Longrightarrow> ReadString lib n s = (True, take n s, drop n s)"
    and read_string_short: "length s < n \<Longrightarrow> \<not> fst (ReadString lib n s)"
begin

lemma varint_nonempty: "WriteVarint32 lib v \<noteq> []"
  using read_write_varint [of v "[]"] read_varint_empty by auto

lemma parse_field_consumes: "parse_field lib h s = Continue h' r \<Longrightarrow> length r < length s"
  by (auto simp: parse_field_def set_bytes_field_def set_varint_field_def handle_unusual_def Let_def
      split: option.splits if_splits dest!: tag_consumes varint_consumes bytes_consumes unknown_consumes)

end

sublocale wire_format < message_parser "parse_field lib"
  by unfold_locales (rule parse_field_consumes)

context wire_format
begin

lemma parse_bytes_field:
  assumes "length v < 2 ^ 31" and "1 \<le> f" "f < 16"
  obtains body where "ReadTag lib (WriteBytes lib f v @ r) = Some (wire_tag f 2, body)"
    and "set_bytes_field lib upd body = Continue (upd v) r"
  using read_write_bytes [OF assms(2,3,1), of r] by (auto simp: set_bytes_field_def)

lemma parse_uint32_field:
  assumes "1 \<le> f" "f < 16"
  obtains body where "ReadTag lib (WriteUInt32 lib f v @ r) = Some (wire_tag f 0, body)"
    and "set_varint_field lib upd body = Continue (upd v) r"
  using read_write_uint32 [OF assms, of v r] by (auto simp: set_varint_field_def)

lemma field_tags:
  "drop_bit 3 (wire_tag 1 2) = 1" "drop_bit 3 (wire_tag 2 2) = 2" "drop_bit 3 (wire_tag 3 0) = 3"
  "drop_bit 3 (wire_tag 4 0) = 4" "drop_bit 3 (wire_tag 5 2) = 5" "drop_bit 3 (wire_tag 6 0) = 6"
  "(ucast (wire_tag 1 2) :: u8) = 10" "(ucast (wire_tag 2 2) :: u8) = 18" "(ucast (wire_tag 3 0) :: u8) = 24"
  "(ucast (wire_tag 4 0) :: u8) = 32" "(ucast (wire_tag 5 2) :: u8) = 42" "(ucast (wire_tag 6 0) :: u8) = 48"
  by (simp_all add: wire_tag_def)

lemma parses_bytes_fields:
  assumes "length v < 2 ^ 31"
  shows "parses h (WriteBytes lib 1 v) (h\<lparr>h_service_name := v\<rparr>)"
    "parses h (WriteBytes lib 2 v) (h\<lparr>h_method_name := v\<rparr>)"
    "parses h (WriteBytes lib 5 v) (h\<lparr>h_ip := v\<rparr>)"
proof -
  show "parses h (WriteBytes lib 1 v) (h\<lparr>h_service_name := v\<rparr>)"
  proof (rule parses_field)
    fix r
    show "parse_field lib h (WriteBytes lib 1 v @ r) = Continue (h\<lparr>h_service_name := v\<rparr>) r"
      by (rule parse_bytes_field [OF assms, of 1 r "\<lambda>v. h\<lparr>h_service_name := v\<rparr>"])
         (simp_all add: parse_field_def field_tags Let_def del: One_nat_def)
  qed
  show "parses h (WriteBytes lib 2 v) (h\<lparr>h_method_name := v\<rparr>)"
  proof (rule parses_field)
    fix r
    show "parse_field lib h (WriteBytes lib 2 v @ r) = Continue (h\<lparr>h_method_name := v\<rparr>) r"
      by (rule parse_bytes_field [OF assms, of 2 r "\<lambda>v. h\<lparr>h_method_name := v\<rparr>"])
         (simp_all add: parse_field_def field_tags Let_def del: One_nat_def)
  qed
  show "parses h (WriteBytes lib 5 v) (h\<lparr>h_ip := v\<rparr>)"
  proof (rule parses_field)
    fix r
    show "parse_field lib h (WriteBytes lib 5 v @ r) = Continue (h\<lparr>h_ip := v\<rparr>) r"
      by (rule parse_bytes_field [OF assms, of 5 r "\<lambda>v. h\<lparr>h_ip := v\<rparr>"])
         (simp_all add: parse_field_def field_tags Let_def del: One_nat_def)
  qed
qed

lemma parses_uint32_fields:
  "parses h (WriteUInt32 lib 3 v) (h\<lparr>h_args_size := v\<rparr>)"
  "parses h (WriteUInt32 lib 4 v) (h\<lparr>h_message_type := v\<rparr>)"
  "parses h (WriteUInt32 lib 6 v) (h\<lparr>h_port := v\<rparr>)"
proof -
  show "parses h (WriteUInt32 lib 3 v) (h\<lparr>h_args_size := v\<rparr>)"
  proof (rule parses_field)
    fix r
    show "parse_field lib h (WriteUInt32 lib 3 v @ r) = Continue (h\<lparr>h_args_size := v\<rparr>) r"
      by (rule parse_uint32_field [of 3 v r "\<lambda>v. h\<lparr>h_args_size := v\<rparr>"])
         (simp_all add: parse_field_def field_tags Let_def del: One_nat_def)
  qed
  show "parses h (WriteUInt32 lib 4 v) (h\<lparr>h_message_type := v\<rparr>)"
  proof (rule parses_field)
    fix r
    show "parse_field lib h (WriteUInt32 lib 4 v @ r) = Continue (h\<lparr>h_message_type := v\<rparr>) r"
      by (rule parse_uint32_field [of 4 v r "\<lambda>v. h\<lparr>h_message_type := v\<rparr>"])
         (simp_all add: parse_field_def field_tags Let_def del: One_nat_def)
  qed
  show "parses h (WriteUInt32 lib 6 v) (h\<lparr>h_port := v\<rparr>)"
  proof (rule parses_field)
    fix r
    show "parse_field lib h (WriteUInt32 lib 6 v @ r) = Continue (h\<lparr>h_port := v\<rparr>) r"
      by (rule parse_uint32_field [of 6 v r "\<lambda>v. h\<lparr>h_port := v\<rparr>"])
         (simp_all add: parse_field_def field_tags Let_def del: One_nat_def)
  qed
qed

definition encodable :: "'u RpcHeader \<Rightarrow> bool" where
  "encodable h \<longleftrightarrow> length (h_service_name h) < 2 ^ 31 \<and> length (h_method_name h) < 2 ^ 31
     \<and> length (h_ip h) < 2 ^ 31 \<and> h_unknown h = no_unknown lib"

lemma parses_serialized:
  assumes "encodable h"
  shows "parses (RpcHeader_new lib) (RpcHeader_InternalSerialize lib h) h"
proof -
  note e = assms [unfolded encodable_def]
  let ?h1 = "(RpcHeader_new lib)\<lparr>h_service_name := h_service_name h\<rparr>"
  let ?h2 = "?h1\<lparr>h_method_name := h_method_name h\<rparr>"
  let ?h3 = "?h2\<lparr>h_args_size := h_args_size h\<rparr>"
  let ?h4 = "?h3\<lparr>h_message_type := h_message_type h\<rparr>"
  let ?h5 = "?h4\<lparr>h_ip := h_ip h\<rparr>"
  let ?h6 = "?h5\<lparr>h_port := h_port h\<rparr>"
  have h: "?h6 = h" using e by (cases h) (simp add: RpcHeader_new_def)
  have u: "parses ?h6 (if have_unknown lib (h_unknown h) then WriteUnknown lib (h_unknown h) else []) h"
    using h e none_unknown parses_Nil by simp
  have p1: "parses (RpcHeader_new lib) (if length (h_service_name h) > 0 then WriteBytes lib 1 (h_service_name h) else []) ?h1"
    by (rule parses_if, rule parses_bytes_fields) (use e in \<open>auto simp: RpcHeader_new_def\<close>)
  have p2: "parses ?h1 (if length (h_method_name h) > 0 then WriteBytes lib 2 (h_method_name h) else []) ?h2"
    by (rule parses_if, rule parses_bytes_fields) (use e in \<open>auto simp: RpcHeader_new_def\<close>)
  have p3: "parses ?h2 (if h_args_size h \<noteq> 0 then WriteUInt32 lib 3 (h_args_size h) else []) ?h3"
    by (rule parses_if, rule parses_uint32_fields) (auto simp: RpcHeader_new_def)
  have p4: "parses ?h3 (if h_message_type h \<noteq> 0 then WriteUInt32 lib 4 (h_message_type h) else []) ?h4"
    by (rule parses_if, rule parses_uint32_fields) (auto simp: RpcHeader_new_def)
  have p5: "parses ?h4 (if length (h_ip h) > 0 then WriteBytes lib 5 (h_ip h) else []) ?h5"
    by (rule parses_if, rule parses_bytes_fields) (use e in \<open>auto simp: RpcHeader_new_def\<close>)
  have p6: "parses ?h5 (if h_port h \<noteq> 0 then WriteUInt32 lib 6 (h_port h) else []) ?h6"
    by (rule parses_if, rule parses_uint32_fields) (auto simp: RpcHeader_new_def)
  show ?thesis
    unfolding RpcHeader_InternalSerialize_def
    by (rule parses_append [OF p1 parses_append [OF p2 parses_append [OF p3 parses_append [OF p4
          parses_append [OF p5 parses_append [OF p6 u]]]]]])
qed

lemma parse_serialized:
  assumes "encodable h"
  shows "RpcHeader_ParseFromString lib (RpcHeader_InternalSerialize lib h) h0 = (True, h)"
proof -
  let ?s = "RpcHeader_InternalSerialize lib h"
  have c: "RpcHeader_Clear lib h0 = RpcHeader_new lib"
    by (cases h0) (simp add: RpcHeader_Clear_def RpcHeader_new_def)
  show ?thesis
    using parsed_whole [OF parses_serialized [OF assms]] by (simp add: RpcHeader_ParseFromString_def RpcHeader_InternalParse_def c)
qed

lemma byte_size_serialized: "RpcHeader_ByteSizeLong lib h = length (RpcHeader_InternalSerialize lib h)"
  by (simp add: RpcHeader_ByteSizeLong_def RpcHeader_InternalSerialize_def Let_def bytes_size uint32_size unknown_size)

lemma copy_from: "h_unknown from = no_unknown lib \<Longrightarrow> RpcHeader_CopyFrom lib False from h = from"
  by (cases "from"; cases h)
     (simp add: RpcHeader_CopyFrom_def RpcHeader_MergeFrom_def RpcHeader_Clear_def merge_unknown Let_def)

end

definition parse_header :: "'u pb_lib \<Rightarrow> bytes \<Rightarrow> 'u RpcHeader option" where
  \<comment> \<open>\<open>ParseFromString\<close> into a fresh message\<close>
  "parse_header lib s =
     (case RpcHeader_ParseFromString lib s (RpcHeader_new lib) of (True, h) \<Rightarrow> Some h | (False, _) \<Rightarrow> None)"

sublocale wire_format < hdr: byte_codec "RpcHeader_InternalSerialize lib" "parse_header lib" encodable
  by unfold_locales (simp add: parse_header_def parse_serialized)

section \<open>The documented format\<close>

text \<open>
  The wire format of the protobuf documentation, base-128 varints and one-byte tags, meets
  the promises: they are not contradictory, and the properties can be evaluated on it.
\<close>

fun varint :: "nat \<Rightarrow> bytes" where
  "varint n = (if n < 128 then [of_nat n] else of_nat (n mod 128 + 128) # varint (n div 128))"

declare varint.simps [simp del]

fun unvarint :: "bytes \<Rightarrow> (nat \<times> bytes) option" where
  "unvarint [] = None"
| "unvarint (b # bs) =
     (if unat b < 128 then Some (unat b, bs)
      else case unvarint bs of
             None \<Rightarrow> None
           | Some (m, r) \<Rightarrow> Some (unat b - 128 + 128 * m, r))"

lemma unvarint_varint: "unvarint (varint n @ r) = Some (n, r)"
proof (induction n rule: varint.induct)
  case (1 n)
  show ?case
  proof (cases "n < 128")
    case True
    then have "unat (of_nat n :: u8) = n" by (simp add: unat_of_nat)
    then show ?thesis using True by (simp add: varint.simps)
  next
    case False
    have "unat (of_nat (n mod 128 + 128) :: u8) = n mod 128 + 128"
      unfolding unat_of_nat by (rule mod_less) (use mod_less_divisor [of 128 n] in simp)
    moreover have "n mod 128 + 128 * (n div 128) = n" by simp
    ultimately show ?thesis using False 1 by (subst varint.simps) (simp del: of_nat_add)
  qed
qed

lemma unvarint_consumes: "unvarint s = Some (n, r) \<Longrightarrow> length r < length s"
proof (induction s arbitrary: n)
  case (Cons b s)
  show ?case
  proof (cases "unat b < 128")
    case False
    then obtain m where "unvarint s = Some (m, r)" using Cons.prems by (auto split: option.splits)
    then show ?thesis using Cons.IH by fastforce
  qed (use Cons.prems in simp)
qed simp

definition base128_lib :: "bytes pb_lib" where
  "base128_lib =
     \<lparr>ReadTag = (\<lambda>s. map_option (\<lambda>(n, r). (of_nat n, r)) (unvarint s)),
      ReadVarint32 = (\<lambda>s. map_option (\<lambda>(n, r). (of_nat n, r)) (unvarint s)),
      ReadBytes = (\<lambda>s. case unvarint s of None \<Rightarrow> None
                       | Some (n, r) \<Rightarrow> if n \<le> length r then Some (take n r, drop n r) else None),
      UnknownFieldParse = (\<lambda>t u s.
         if t AND 7 = 0 then map_option (\<lambda>(n, r). (u @ varint (unat t) @ varint n, r)) (unvarint s)
         else if t AND 7 = 2 then
           (case unvarint s of None \<Rightarrow> None
            | Some (n, r) \<Rightarrow> if n \<le> length r then Some (u @ varint (unat t) @ varint n @ take n r, drop n r) else None)
         else None),
      WriteVarint32 = (\<lambda>v. varint (unat v)),
      WriteBytes = (\<lambda>f s. varint (8 * f + 2) @ varint (length s) @ s),
      WriteUInt32 = (\<lambda>f v. varint (8 * f) @ varint (unat v)),
      WriteUnknown = (\<lambda>u. u),
      BytesSize = (\<lambda>s. length (varint (length s)) + length s),
      UInt32Size = (\<lambda>v. length (varint (unat v))),
      UnknownSize = length,
      no_unknown = [],
      have_unknown = (\<lambda>u. u \<noteq> []),
      MergeUnknown = (@),
      ReadString = (\<lambda>n s. if n \<le> length s then (True, take n s, drop n s) else (False, s, []))\<rparr>"

lemma varint_tag: "k < 128 \<Longrightarrow> length (varint k) = Suc 0"
  by (simp add: varint.simps)

interpretation b128: wire_format base128_lib
proof unfold_locales
  fix f :: nat and s r :: bytes and v :: u32
  assume f: "1 \<le> f" "f < 16"
  show "length (WriteBytes base128_lib f s) = 1 + BytesSize base128_lib s"
    "length (WriteUInt32 base128_lib f v) = 1 + UInt32Size base128_lib v"
    using f by (simp_all add: base128_lib_def varint_tag)
  show "\<exists>body. ReadTag base128_lib (WriteBytes base128_lib f s @ r) = Some (wire_tag f 2, body)
      \<and> ReadBytes base128_lib body = Some (s, r)"
    by (simp add: base128_lib_def unvarint_varint wire_tag_def)
  show "\<exists>body. ReadTag base128_lib (WriteUInt32 base128_lib f v @ r) = Some (wire_tag f 0, body)
      \<and> ReadVarint32 base128_lib body = Some (v, r)"
    by (simp add: base128_lib_def unvarint_varint wire_tag_def)
qed (auto simp: base128_lib_def unvarint_varint dest: unvarint_consumes less_imp_le split: option.splits if_splits)

section \<open>Properties\<close>

text \<open>
  C19: a header survives the wire: parsing what was serialized, into any message object,
  gives exactly the fields that were set, and the size computed beforehand is the number of
  bytes written, for every runtime that keeps its documented promises.
\<close>

theorem header_roundtrip:
  assumes "wire_format lib" and "length (h_service_name h) < 2 ^ 31" and "length (h_method_name h) < 2 ^ 31"
    and "length (h_ip h) < 2 ^ 31" and "h_unknown h = no_unknown lib"
  shows "RpcHeader_ParseFromString lib (RpcHeader_InternalSerialize lib h) h0 = (True, h)
    \<and> RpcHeader_ByteSizeLong lib h = length (RpcHeader_InternalSerialize lib h)
    \<and> RpcHeader_CopyFrom lib False h h0 = h"
proof -
  have "wire_format.encodable lib h"
    using assms by (simp add: wire_format.encodable_def)
  then show ?thesis
    using wire_format.parse_serialized [OF assms(1)] wire_format.byte_size_serialized [OF assms(1)]
      wire_format.copy_from [OF assms(1)] assms(5) by auto
qed

definition demo_header :: "bytes RpcHeader" where
  "demo_header = \<lparr>h_service_name = [83, 82], h_method_name = [71], h_args_size = 300, h_message_type = 1,
     h_ip = [49], h_port = 8080, h_unknown = []\<rparr>"

theorem header_roundtrip_witness:
  "RpcHeader_ParseFromString base128_lib (RpcHeader_InternalSerialize base128_lib demo_header) demo_header
     = (True, demo_header)"
  using header_roundtrip [OF b128.wire_format_axioms, of demo_header demo_header]
  by (simp add: demo_header_def base128_lib_def)

text \<open>
  Whatever bytes arrive, the parse loop ends after at most as many rounds as there are
  bytes: it never runs out of the fuel the model gives it.
\<close>

theorem header_parse_total:
  assumes "wire_format lib"
  shows "RpcHeader_InternalParse lib (length s) h s \<noteq> OutOfFuel"
  unfolding RpcHeader_InternalParse_def
  by (rule message_parser.enough_fuel [OF message_parser.intro [OF wire_format.parse_field_consumes [OF assms]]]) auto

theorem header_parse_total_witness:
  "RpcHeader_InternalParse base128_lib (length [255, 0, 7 :: u8]) demo_header [255, 0, 7] \<noteq> OutOfFuel"
  by (rule header_parse_total [OF b128.wire_format_axioms])

end
