(* ===== verification/Messages.thy ===== *)
theory Messages
  imports Wire
begin

text \<open>
  \<^verbatim>\<open>example/rpc.pb.cc\<close>, generated from \<^verbatim>\<open>rpc.proto\<close>: the messages \<open>ResultCode\<close>,
  \<open>GetListRequest\<close> and \<open>GetListResponse\<close> of the example service, in the way \<open>Wire\<close> models the header.
  The functions of the runtime they use beyond those are the fields of \<open>msg_lib\<close>: an \<^verbatim>\<open>int32\<close>
  is written sign-extended to 64 bits, a nested message is preceded by its size.
\<close>

section \<open>The runtime\<close>

unbundle bit_operations_syntax

record 'u msg_lib =
  pb :: "'u pb_lib"
  ReadVarint64 :: "bytes \<Rightarrow> (u64 \<times> bytes) option"
  WriteInt32 :: "nat \<Rightarrow> u32 \<Rightarrow> bytes"
  Int32Size :: "u32 \<Rightarrow> nat"
  ReadSubmessage :: "bytes \<Rightarrow> (bytes \<times> bytes) option"    \<comment> \<open>what \<^verbatim>\<open>ParseMessage\<close> lets the message read\<close>
  WriteMessageHead :: "nat \<Rightarrow> nat \<Rightarrow> bytes"               \<comment> \<open>tag and size\<close>
  LengthDelimitedSize :: "nat \<Rightarrow> nat"

section \<open>\<open>ResultCode\<close>\<close>

record 'u ResultCode =
  errcode :: u32
  errmsg :: bytes
  rc_unknown :: 'u

definition ResultCode_new :: "'u msg_lib \<Rightarrow> 'u ResultCode" where
  "ResultCode_new lib = \<lparr>errcode = 0, errmsg = [], rc_unknown = no_unknown (pb lib)\<rparr>"

definition ResultCode_copy :: "'u msg_lib \<Rightarrow> 'u ResultCode \<Rightarrow> 'u ResultCode" where
  "ResultCode_copy lib from =
     (let m = (ResultCode_new lib)\<lparr>rc_unknown := MergeUnknown (pb lib) (no_unknown (pb lib)) (rc_unknown from)\<rparr>;
          m = (if errmsg from \<noteq> [] then m\<lparr>errmsg := errmsg from\<rparr> else m)
      in m\<lparr>errcode := errcode from\<rparr>)"

definition ResultCode_Clear :: "'u msg_lib \<Rightarrow> 'u ResultCode \<Rightarrow> 'u ResultCode" where
  "ResultCode_Clear lib m = m\<lparr>errmsg := [], errcode := 0, rc_unknown := no_unknown (pb lib)\<rparr>"

definition ResultCode_field :: "'u msg_lib \<Rightarrow> 'u ResultCode \<Rightarrow> bytes \<Rightarrow> 'u ResultCode parse_result" where
  "ResultCode_field lib m ptr =
     (case ReadTag (pb lib) ptr of
        None \<Rightarrow> Failure
      | Some (tag, ptr) \<Rightarrow>
          (let field = drop_bit 3 tag; low = (ucast tag :: u8)
           in if field = 1 \<and> low = 8
              then (case ReadVarint64 lib ptr of None \<Rightarrow> Failure | Some (v, rest) \<Rightarrow> Continue (m\<lparr>errcode := ucast v\<rparr>) rest)
              else if field = 2 \<and> low = 18 then set_bytes_field (pb lib) (\<lambda>s. m\<lparr>errmsg := s\<rparr>) ptr
              else handle_unusual (pb lib) tag (rc_unknown m) (\<lambda>u. m\<lparr>rc_unknown := u\<rparr>) m ptr))"

definition ResultCode_InternalParse :: "'u msg_lib \<Rightarrow> nat \<Rightarrow> 'u ResultCode \<Rightarrow> bytes \<Rightarrow> 'u ResultCode parse_end" where
  "ResultCode_InternalParse lib fuel m ptr = parse_loop (ResultCode_field lib) fuel m ptr"

definition ResultCode_InternalSerialize :: "'u msg_lib \<Rightarrow> 'u ResultCode \<Rightarrow> bytes" where
  "ResultCode_InternalSerialize lib m =
     (if errcode m \<noteq> 0 then WriteInt32 lib 1 (errcode m) else [])
     @ (if length (errmsg m) > 0 then WriteBytes (pb lib) 2 (errmsg m) else [])
     @ (if have_unknown (pb lib) (rc_unknown m) then WriteUnknown (pb lib) (rc_unknown m) else [])"

definition ResultCode_ByteSizeLong :: "'u msg_lib \<Rightarrow> 'u ResultCode \<Rightarrow> nat" where
  "ResultCode_ByteSizeLong lib m =
     (let total_size = 0;
          total_size = (if length (errmsg m) > 0 then total_size + (1 + BytesSize (pb lib) (errmsg m)) else total_size);
          total_size = (if errcode m \<noteq> 0 then total_size + (1 + Int32Size lib (errcode m)) else total_size)
      in if have_unknown (pb lib) (rc_unknown m) then total_size + UnknownSize (pb lib) (rc_unknown m) else total_size)"

definition ResultCode_MergeFrom :: "'u msg_lib \<Rightarrow> 'u ResultCode \<Rightarrow> 'u ResultCode \<Rightarrow> 'u ResultCode" where
  "ResultCode_MergeFrom lib from m =
     (let m = m\<lparr>rc_unknown := MergeUnknown (pb lib) (rc_unknown m) (rc_unknown from)\<rparr>;
          m = (if length (errmsg from) > 0 then m\<lparr>errmsg := errmsg from\<rparr> else m)
      in if errcode from \<noteq> 0 then m\<lparr>errcode := errcode from\<rparr> else m)"

definition ResultCode_CopyFrom :: "'u msg_lib \<Rightarrow> bool \<Rightarrow> 'u ResultCode \<Rightarrow> 'u ResultCode \<Rightarrow> 'u ResultCode" where
  \<comment> \<open>\<open>same\<close>: \<^verbatim>\<open>&from == this\<close>\<close>
  "ResultCode_CopyFrom lib same from m = (if same then m else ResultCode_MergeFrom lib from (ResultCode_Clear lib m))"

definition ResultCode_InternalSwap :: "'u ResultCode \<Rightarrow> 'u ResultCode \<Rightarrow> 'u ResultCode \<times> 'u ResultCode" where
  "ResultCode_InternalSwap m other =
     (m\<lparr>rc_unknown := rc_unknown other, errmsg := errmsg other, errcode := errcode other\<rparr>,
      other\<lparr>rc_unknown := rc_unknown m, errmsg := errmsg m, errcode := errcode m\<rparr>)"

section \<open>\<open>GetListRequest\<close>\<close>

record 'u GetListRequest =
  userid :: u32
  rq_unknown :: 'u

definition GetListRequest_new :: "'u msg_lib \<Rightarrow> 'u GetListRequest" where
  "GetListRequest_new lib = \<lparr>userid = 0, rq_unknown = no_unknown (pb lib)\<rparr>"

definition GetListRequest_copy :: "'u msg_lib \<Rightarrow> 'u GetListRequest \<Rightarrow> 'u GetListRequest" where
  "GetListRequest_copy lib from =
     \<lparr>userid = userid from, rq_unknown = MergeUnknown (pb lib) (no_unknown (pb lib)) (rq_unknown from)\<rparr>"

definition GetListRequest_Clear :: "'u msg_lib \<Rightarrow> 'u GetListRequest \<Rightarrow> 'u GetListRequest" where
  "GetListRequest_Clear lib m = m\<lparr>userid := 0, rq_unknown := no_unknown (pb lib)\<rparr>"

definition GetListRequest_field :: "'u msg_lib \<Rightarrow> 'u GetListRequest \<Rightarrow> bytes \<Rightarrow> 'u GetListRequest parse_result" where
  "GetListRequest_field lib m ptr =
     (case ReadTag (pb lib) ptr of
        None \<Rightarrow> Failure
      | Some (tag, ptr) \<Rightarrow>
          (if drop_bit 3 tag = 1 \<and> (ucast tag :: u8) = 8 then set_varint_field (pb lib) (\<lambda>v. m\<lparr>userid := v\<rparr>) ptr
           else handle_unusual (pb lib) tag (rq_unknown m) (\<lambda>u. m\<lparr>rq_unknown := u\<rparr>) m ptr))"

definition GetListRequest_InternalParse :: "'u msg_lib \<Rightarrow> nat \<Rightarrow> 'u GetListRequest \<Rightarrow> bytes \<Rightarrow> 'u GetListRequest parse_end" where
  "GetListRequest_InternalParse lib fuel m ptr = parse_loop (GetListRequest_field lib) fuel m ptr"

definition GetListRequest_InternalSerialize :: "'u msg_lib \<Rightarrow> 'u GetListRequest \<Rightarrow> bytes" where
  "GetListRequest_InternalSerialize lib m =
     (if userid m \<noteq> 0 then WriteUInt32 (pb lib) 1 (userid m) else [])
     @ (if have_unknown (pb lib) (rq_unknown m) then WriteUnknown (pb lib) (rq_unknown m) else [])"

definition GetListRequest_ByteSizeLong :: "'u msg_lib \<Rightarrow> 'u GetListRequest \<Rightarrow> nat" where
  "GetListRequest_ByteSizeLong lib m =
     (let total_size = 0;
          total_size = (if userid m \<noteq> 0 then total_size + (1 + UInt32Size (pb lib) (userid m)) else total_size)
      in if have_unknown (pb lib) (rq_unknown m) then total_size + UnknownSize (pb lib) (rq_unknown m) else total_size)"

definition GetListRequest_MergeFrom :: "'u msg_lib \<Rightarrow> 'u GetListRequest \<Rightarrow> 'u GetListRequest \<Rightarrow> 'u GetListRequest" where
  "GetListRequest_MergeFrom lib from m =
     (let m = m\<lparr>rq_unknown := MergeUnknown (pb lib) (rq_unknown m) (rq_unknown from)\<rparr>
      in if userid from \<noteq> 0 then m\<lparr>userid := userid from\<rparr> else m)"

definition GetListRequest_CopyFrom :: "'u msg_lib \<Rightarrow> bool \<Rightarrow> 'u GetListRequest \<Rightarrow> 'u GetListRequest \<Rightarrow> 'u GetListRequest" where
  "GetListRequest_CopyFrom lib same from m = (if same then m else GetListRequest_MergeFrom lib from (GetListRequest_Clear lib m))"

definition GetListRequest_InternalSwap :: "'u GetListRequest \<Rightarrow> 'u GetListRequest \<Rightarrow> 'u GetListRequest \<times> 'u GetListRequest" where
  "GetListRequest_InternalSwap m other =
     (m\<lparr>rq_unknown := rq_unknown other, userid := userid other\<rparr>, other\<lparr>rq_unknown := rq_unknown m, userid := userid m\<rparr>)"

section \<open>\<open>GetListResponse\<close>\<close>

text \<open>\<open>result\<close> is a pointer that may be null, \<open>val\<close> the repeated field.\<close>

record 'u GetListResponse =
  rs_result :: "'u ResultCode option"
  rs_val :: "bytes list"
  rs_unknown :: 'u

definition GetListResponse_new :: "'u msg_lib \<Rightarrow> 'u GetListResponse" where
  "GetListResponse_new lib = \<lparr>rs_result = None, rs_val = [], rs_unknown = no_unknown (pb lib)\<rparr>"

definition GetListResponse_copy :: "'u msg_lib \<Rightarrow> 'u GetListResponse \<Rightarrow> 'u GetListResponse" where
  "GetListResponse_copy lib from =
     \<lparr>rs_result = (case rs_result from of None \<Rightarrow> None | Some r \<Rightarrow> Some (ResultCode_copy lib r)), rs_val = rs_val from,
      rs_unknown = MergeUnknown (pb lib) (no_unknown (pb lib)) (rs_unknown from)\<rparr>"

definition GetListResponse_Clear :: "'u msg_lib \<Rightarrow> 'u GetListResponse \<Rightarrow> 'u GetListResponse" where
  "GetListResponse_Clear lib m = m\<lparr>rs_val := [], rs_result := None, rs_unknown := no_unknown (pb lib)\<rparr>"

definition result :: "'u msg_lib \<Rightarrow> 'u GetListResponse \<Rightarrow> 'u ResultCode" where
  \<comment> \<open>the accessor: the default instance when there is none\<close>
  "result lib m = (case rs_result m of None \<Rightarrow> ResultCode_new lib | Some r \<Rightarrow> r)"

definition mutable_result :: "'u msg_lib \<Rightarrow> 'u GetListResponse \<Rightarrow> 'u GetListResponse" where
  "mutable_result lib m = (if rs_result m = None then m\<lparr>rs_result := Some (ResultCode_new lib)\<rparr> else m)"

definition add_val :: "bytes \<Rightarrow> 'u GetListResponse \<Rightarrow> 'u GetListResponse" where
  "add_val v m = m\<lparr>rs_val := rs_val m @ [v]\<rparr>"

fun val_loop :: "'u msg_lib \<Rightarrow> nat \<Rightarrow> 'u GetListResponse \<Rightarrow> bytes \<Rightarrow> 'u GetListResponse parse_result" where
  \<comment> \<open>the elements that follow each other; the input left decides when it ends\<close>
  "val_loop lib 0 m ptr = Failure"
| "val_loop lib (Suc fuel) m ptr =
     (case ReadBytes (pb lib) ptr of
        None \<Rightarrow> Failure
      | Some (s, rest) \<Rightarrow>
          (case rest of
             [] \<Rightarrow> Continue (add_val s m) rest
           | b # bs \<Rightarrow> if b = 18 then val_loop lib fuel (add_val s m) bs else Continue (add_val s m) rest))"

definition parse_result_field :: "'u msg_lib \<Rightarrow> 'u GetListResponse \<Rightarrow> bytes \<Rightarrow> 'u GetListResponse parse_result" where
  \<comment> \<open>\<^verbatim>\<open>ctx->ParseMessage\<close>: the nested message reads exactly its bytes, on top of what it holds\<close>
  "parse_result_field lib m ptr =
     (case ReadSubmessage lib ptr of
        None \<Rightarrow> Failure
      | Some (body, rest) \<Rightarrow>
          (case ResultCode_InternalParse lib (length body) (result lib m) body of
             Done r \<Rightarrow> Continue (m\<lparr>rs_result := Some r\<rparr>) rest
           | _ \<Rightarrow> Failure))"

definition GetListResponse_field :: "'u msg_lib \<Rightarrow> 'u GetListResponse \<Rightarrow> bytes \<Rightarrow> 'u GetListResponse parse_result" where
  "GetListResponse_field lib m ptr =
     (case ReadTag (pb lib) ptr of
        None \<Rightarrow> Failure
      | Some (tag, ptr) \<Rightarrow>
          (let field = drop_bit 3 tag; low = (ucast tag :: u8)
           in if field = 1 \<and> low = 10 then parse_result_field lib (mutable_result lib m) ptr
              else if field = 2 \<and> low = 18 then val_loop lib (Suc (length ptr)) m ptr
              else handle_unusual (pb lib) tag (rs_unknown m) (\<lambda>u. m\<lparr>rs_unknown := u\<rparr>) m ptr))"

definition GetListResponse_InternalParse :: "'u msg_lib \<Rightarrow> nat \<Rightarrow> 'u GetListResponse \<Rightarrow> bytes \<Rightarrow> 'u GetListResponse parse_end" where
  "GetListResponse_InternalParse lib fuel m ptr = parse_loop (GetListResponse_field lib) fuel m ptr"

definition GetListResponse_InternalSerialize :: "'u msg_lib \<Rightarrow> 'u GetListResponse \<Rightarrow> bytes" where
  "GetListResponse_InternalSerialize lib m =
     (case rs_result m of
        None \<Rightarrow> []
      | Some r \<Rightarrow> WriteMessageHead lib 1 (ResultCode_ByteSizeLong lib r) @ ResultCode_InternalSerialize lib r)
     @ concat (map (WriteBytes (pb lib) 2) (rs_val m))
     @ (if have_unknown (pb lib) (rs_unknown m) then WriteUnknown (pb lib) (rs_unknown m) else [])"

definition GetListResponse_ByteSizeLong :: "'u msg_lib \<Rightarrow> 'u GetListResponse \<Rightarrow> nat" where
  "GetListResponse_ByteSizeLong lib m =
     (let total_size = 1 * length (rs_val m) + sum_list (map (BytesSize (pb lib)) (rs_val m));
          total_size = (case rs_result m of
                          None \<Rightarrow> total_size
                        | Some r \<Rightarrow> total_size + (1 + LengthDelimitedSize lib (ResultCode_ByteSizeLong lib r)))
      in if have_unknown (pb lib) (rs_unknown m) then total_size + UnknownSize (pb lib) (rs_unknown m) else total_size)"

definition GetListResponse_MergeFrom :: "'u msg_lib \<Rightarrow> 'u GetListResponse \<Rightarrow> 'u GetListResponse \<Rightarrow> 'u GetListResponse" where
  "GetListResponse_MergeFrom lib from m =
     (let m = m\<lparr>rs_unknown := MergeUnknown (pb lib) (rs_unknown m) (rs_unknown from)\<rparr>;
          m = m\<lparr>rs_val := rs_val m @ rs_val from\<rparr>
      in case rs_result from of
           None \<Rightarrow> m
         | Some r \<Rightarrow> m\<lparr>rs_result := Some (ResultCode_MergeFrom lib r (result lib (mutable_result lib m)))\<rparr>)"

definition GetListResponse_CopyFrom :: "'u msg_lib \<Rightarrow> bool \<Rightarrow> 'u GetListResponse \<Rightarrow> 'u GetListResponse \<Rightarrow> 'u GetListResponse" where
  "GetListResponse_CopyFrom lib same from m = (if same then m else GetListResponse_MergeFrom lib from (GetListResponse_Clear lib m))"

definition GetListResponse_InternalSwap :: "'u GetListResponse \<Rightarrow> 'u GetListResponse \<Rightarrow> 'u GetListResponse \<times> 'u GetListResponse" where
  "GetListResponse_InternalSwap m other =
     (m\<lparr>rs_unknown := rs_unknown other, rs_val := rs_val other, rs_result := rs_result other\<rparr>,
      other\<lparr>rs_unknown := rs_unknown m, rs_val := rs_val m, rs_result := rs_result m\<rparr>)"

section \<open>The runtime's entry points\<close>

definition parse_message :: "('m \<Rightarrow> bytes \<Rightarrow> 'm parse_end) \<Rightarrow> 'm \<Rightarrow> bytes \<Rightarrow> 'm option" where
  \<comment> \<open>\<^verbatim>\<open>ParseFromString\<close>, \<^verbatim>\<open>ParseFromArray\<close> into a cleared message: the whole input is used\<close>
  "parse_message parse m s = (case parse m s of Done m' \<Rightarrow> Some m' | _ \<Rightarrow> None)"

definition parse_request_msg :: "'u msg_lib \<Rightarrow> bytes \<Rightarrow> 'u GetListRequest option" where
  "parse_request_msg lib s =
     parse_message (\<lambda>m s. GetListRequest_InternalParse lib (length s) m s) (GetListRequest_Clear lib (GetListRequest_new lib)) s"

definition parse_response_msg :: "'u msg_lib \<Rightarrow> bytes \<Rightarrow> 'u GetListResponse option" where
  "parse_response_msg lib s =
     parse_message (\<lambda>m s. GetListResponse_InternalParse lib (length s) m s) (GetListResponse_Clear lib (GetListResponse_new lib)) s"

definition SerializeToString :: "nat \<Rightarrow> bytes \<Rightarrow> bytes option" where
  \<comment> \<open>refused above \<^verbatim>\<open>INT_MAX\<close> bytes\<close>
  "SerializeToString byte_size s = (if byte_size < 2 ^ 31 then Some s else None)"

section \<open>What the runtime promises\<close>

locale message_format = base: wire_format "pb lib" for lib :: "'u msg_lib" +
  assumes read_write_int32: "1 \<le> f \<Longrightarrow> f < 16 \<Longrightarrow>
      \<exists>body. ReadTag (pb lib) (WriteInt32 lib f v @ r) = Some (wire_tag f 0, body) \<and> ReadVarint64 lib body = Some (scast v, r)"
    and read_write_message: "1 \<le> f \<Longrightarrow> f < 16 \<Longrightarrow> length s < 2 ^ 31 \<Longrightarrow>
      \<exists>body. ReadTag (pb lib) (WriteMessageHead lib f (length s) @ s @ r) = Some (wire_tag f 2, body)
        \<and> ReadSubmessage lib body = Some (s, r)"
    and write_bytes_tag: "1 \<le> f \<Longrightarrow> f < 16 \<Longrightarrow>
      \<exists>body. WriteBytes (pb lib) f s = of_nat (8 * f + 2) # body
        \<and> (\<forall>r. ReadTag (pb lib) (of_nat (8 * f + 2) # body @ r) = Some (wire_tag f 2, body @ r))"
    and int32_size: "1 \<le> f \<Longrightarrow> f < 16 \<Longrightarrow> length (WriteInt32 lib f v) = 1 + Int32Size lib v"
    and message_size: "1 \<le> f \<Longrightarrow> f < 16 \<Longrightarrow> length (WriteMessageHead lib f n) + n = 1 + LengthDelimitedSize lib n"
    and varint64_consumes: "ReadVarint64 lib s = Some (w, r) \<Longrightarrow> length r \<le> length s"
    and submessage_consumes: "ReadSubmessage lib s = Some (b, r) \<Longrightarrow> length r \<le> length s"
begin

lemmas consumes = base.tag_consumes base.varint_consumes base.bytes_consumes base.unknown_consumes varint64_consumes submessage_consumes

lemma ResultCode_field_consumes: "ResultCode_field lib m s = Continue m' r \<Longrightarrow> length r < length s"
  by (auto simp: ResultCode_field_def set_bytes_field_def handle_unusual_def Let_def
      split: option.splits if_splits dest!: consumes)

lemma GetListRequest_field_consumes: "GetListRequest_field lib m s = Continue m' r \<Longrightarrow> length r < length s"
  by (auto simp: GetListRequest_field_def set_varint_field_def handle_unusual_def Let_def
      split: option.splits if_splits dest!: consumes)

lemma val_loop_consumes: "val_loop lib n m s = Continue m' r \<Longrightarrow> length r \<le> length s"
proof (induction n arbitrary: m s)
  case (Suc n)
  then show ?case
    using base.bytes_consumes by (fastforce split: option.splits list.splits if_splits)
qed simp

lemma val_loop_fuel: "length s < n \<Longrightarrow> length s < k \<Longrightarrow> val_loop lib n m s = val_loop lib k m s"
proof (induction n arbitrary: m s k)
  case (Suc n)
  then obtain k' where k: "k = Suc k'" by (cases k) auto
  have "val_loop lib n (add_val v m) bs = val_loop lib k' (add_val v m) bs" if "ReadBytes (pb lib) s = Some (v, b # bs)" for v b bs
    using Suc.prems k base.bytes_consumes [OF that] by (intro Suc.IH) auto
  then show ?case by (auto simp: k split: option.split list.split)
qed simp

lemma parse_result_consumes: "parse_result_field lib m s = Continue m' r \<Longrightarrow> length r \<le> length s"
  by (auto simp: parse_result_field_def split: option.splits parse_end.splits dest: submessage_consumes)

lemma GetListResponse_field_consumes: "GetListResponse_field lib m s = Continue m' r \<Longrightarrow> length r < length s"
  by (auto simp: GetListResponse_field_def handle_unusual_def Let_def simp del: val_loop.simps
      split: option.splits if_splits dest!: base.tag_consumes base.unknown_consumes val_loop_consumes parse_result_consumes)

end

sublocale message_format < rc: message_parser "ResultCode_field lib"
  by unfold_locales (rule ResultCode_field_consumes)

sublocale message_format < rq: message_parser "GetListRequest_field lib"
  by unfold_locales (rule GetListRequest_field_consumes)

sublocale message_format < rs: message_parser "GetListResponse_field lib"
  by unfold_locales (rule GetListResponse_field_consumes)

context message_format
begin

definition rc_encodable :: "'u ResultCode \<Rightarrow> bool" where
  "rc_encodable m \<longleftrightarrow> length (errmsg m) < 2 ^ 31 \<and> rc_unknown m = no_unknown (pb lib)
     \<and> length (ResultCode_InternalSerialize lib m) < 2 ^ 31"

definition rs_encodable :: "'u GetListResponse \<Rightarrow> bool" where
  "rs_encodable m \<longleftrightarrow> (\<forall>r. rs_result m = Some r \<longrightarrow> rc_encodable r) \<and> (\<forall>v \<in> set (rs_val m). length v < 2 ^ 31)
     \<and> rs_unknown m = no_unknown (pb lib)"

lemma ResultCode_byte_size: "ResultCode_ByteSizeLong lib m = length (ResultCode_InternalSerialize lib m)"
  by (simp add: ResultCode_ByteSizeLong_def ResultCode_InternalSerialize_def Let_def base.bytes_size base.unknown_size int32_size)

lemma GetListRequest_byte_size: "GetListRequest_ByteSizeLong lib m = length (GetListRequest_InternalSerialize lib m)"
  by (simp add: GetListRequest_ByteSizeLong_def GetListRequest_InternalSerialize_def Let_def base.uint32_size base.unknown_size)

lemma vals_size: "length (concat (map (WriteBytes (pb lib) 2) vs)) = length vs + sum_list (map (BytesSize (pb lib)) vs)"
  by (induction vs) (simp_all add: base.bytes_size)

lemma GetListResponse_byte_size: "GetListResponse_ByteSizeLong lib m = length (GetListResponse_InternalSerialize lib m)"
  using message_size [of 1]
  by (simp add: GetListResponse_ByteSizeLong_def GetListResponse_InternalSerialize_def Let_def vals_size
      base.unknown_size ResultCode_byte_size split: option.split)

lemma clear_new:
  "GetListRequest_Clear lib (GetListRequest_new lib) = GetListRequest_new lib"
  "GetListResponse_Clear lib (GetListResponse_new lib) = GetListResponse_new lib"
  by (simp_all add: GetListRequest_Clear_def GetListRequest_new_def GetListResponse_Clear_def GetListResponse_new_def)

lemma int32_cast: "(ucast (scast (v :: u32) :: u64) :: u32) = v"
  by (rule bit_word_eqI) (auto simp: bit_simps)

lemma read_element:
  assumes "length v < 2 ^ 31" and "WriteBytes (pb lib) 2 v = 18 # body"
    and "\<And>r. ReadTag (pb lib) (18 # body @ r) = Some (wire_tag 2 2, body @ r)"
  shows "ReadBytes (pb lib) (body @ r) = Some (v, r)"
  using base.read_write_bytes [of 2 v r] assms by simp

lemma ResultCode_parses:
  assumes "rc_encodable m"
  shows "rc.parses (ResultCode_new lib) (ResultCode_InternalSerialize lib m) m"
proof -
  let ?m1 = "(ResultCode_new lib)\<lparr>errcode := errcode m\<rparr>"
  let ?m2 = "?m1\<lparr>errmsg := errmsg m\<rparr>"
  have m: "?m2 = m" using assms by (cases m) (simp add: ResultCode_new_def rc_encodable_def)
  have f1: "ResultCode_field lib (ResultCode_new lib) (WriteInt32 lib 1 (errcode m) @ r) = Continue ?m1 r" for r
    using read_write_int32 [of 1 "errcode m" r] by (auto simp: ResultCode_field_def wire_tag_def int32_cast)
  have f2: "ResultCode_field lib ?m1 (WriteBytes (pb lib) 2 (errmsg m) @ r) = Continue ?m2 r" for r
    using base.read_write_bytes [of 2 "errmsg m" r] assms
    by (auto simp: ResultCode_field_def wire_tag_def set_bytes_field_def rc_encodable_def)
  have p1: "rc.parses (ResultCode_new lib) (if errcode m \<noteq> 0 then WriteInt32 lib 1 (errcode m) else []) ?m1"
    by (rule rc.parses_if, rule rc.parses_field, rule f1) (simp add: ResultCode_new_def)
  have p2: "rc.parses ?m1 (if length (errmsg m) > 0 then WriteBytes (pb lib) 2 (errmsg m) else []) ?m2"
    by (rule rc.parses_if, rule rc.parses_field, rule f2) (simp add: ResultCode_new_def)
  have p3: "rc.parses ?m2 (if have_unknown (pb lib) (rc_unknown m) then WriteUnknown (pb lib) (rc_unknown m) else []) ?m2"
    using assms base.none_unknown by (simp add: rc_encodable_def rc.parses_Nil)
  show ?thesis
    unfolding ResultCode_InternalSerialize_def using rc.parses_append [OF p1 rc.parses_append [OF p2 p3]] by (simp only: m)
qed

lemma GetListRequest_parsed:
  assumes "rq_unknown m = no_unknown (pb lib)"
  shows "parse_request_msg lib (GetListRequest_InternalSerialize lib m) = Some m"
proof -
  let ?m1 = "(GetListRequest_new lib)\<lparr>userid := userid m\<rparr>"
  have m: "?m1 = m" using assms by (cases m) (simp add: GetListRequest_new_def)
  have f: "GetListRequest_field lib (GetListRequest_new lib) (WriteUInt32 (pb lib) 1 (userid m) @ r) = Continue ?m1 r" for r
    using base.read_write_uint32 [of 1 "userid m" r] by (auto simp: GetListRequest_field_def wire_tag_def set_varint_field_def)
  have p: "rq.parses (GetListRequest_new lib) (if userid m \<noteq> 0 then WriteUInt32 (pb lib) 1 (userid m) else []) ?m1"
    by (rule rq.parses_if, rule rq.parses_field, rule f) (simp add: GetListRequest_new_def)
  have "GetListRequest_InternalSerialize lib m = (if userid m \<noteq> 0 then WriteUInt32 (pb lib) 1 (userid m) else [])"
    using assms base.none_unknown by (simp add: GetListRequest_InternalSerialize_def)
  then show ?thesis
    using rq.parsed_whole [OF p]
    unfolding m parse_request_msg_def parse_message_def GetListRequest_InternalParse_def clear_new
    by (simp only: parse_end.case)
qed

lemma val_loop_elements:
  assumes "\<forall>v \<in> set vs. length v < 2 ^ 31" and "length v < 2 ^ 31"
    and "WriteBytes (pb lib) 2 v = 18 # body"
    and "\<And>r. ReadTag (pb lib) (18 # body @ r) = Some (wire_tag 2 2, body @ r)"
    and "length (body @ concat (map (WriteBytes (pb lib) 2) vs)) < n"
  shows "val_loop lib n m (body @ concat (map (WriteBytes (pb lib) 2) vs)) = Continue (m\<lparr>rs_val := rs_val m @ v # vs\<rparr>) []"
  using assms
proof (induction vs arbitrary: v body n m)
  case Nil
  then obtain k where "n = Suc k" by (cases n) auto
  then show ?case using read_element [of v body "[]"] Nil.prems(2-4) by (simp add: add_val_def)
next
  case (Cons w vs)
  then obtain k where n: "n = Suc k" by (cases n) auto
  obtain body' where b: "WriteBytes (pb lib) 2 w = 18 # body'"
    "\<And>r. ReadTag (pb lib) (18 # body' @ r) = Some (wire_tag 2 2, body' @ r)"
    using write_bytes_tag [of 2 w] by auto
  have "ReadBytes (pb lib) (body @ concat (map (WriteBytes (pb lib) 2) (w # vs)))
      = Some (v, 18 # body' @ concat (map (WriteBytes (pb lib) 2) vs))"
    using read_element [OF Cons.prems(2-4)] b(1) by simp
  then show ?case
    using Cons.IH [of w body' k "add_val v m"] Cons.prems b n by (simp add: add_val_def)
qed

lemma GetListResponse_parsed:
  assumes "rs_encodable m"
  shows "parse_response_msg lib (GetListResponse_InternalSerialize lib m) = Some m"
proof -
  let ?head = "case rs_result m of None \<Rightarrow> [] | Some r \<Rightarrow> WriteMessageHead lib 1 (ResultCode_ByteSizeLong lib r) @ ResultCode_InternalSerialize lib r"
  let ?vals = "concat (map (WriteBytes (pb lib) 2) (rs_val m))"
  let ?m1 = "(GetListResponse_new lib)\<lparr>rs_result := rs_result m\<rparr>"
  have m: "?m1\<lparr>rs_val := rs_val m\<rparr> = m" using assms by (cases m) (simp add: GetListResponse_new_def rs_encodable_def)
  have head: "rs.parses (GetListResponse_new lib) ?head ?m1"
  proof (cases "rs_result m")
    case None
    then show ?thesis by (simp add: rs.parses_Nil GetListResponse_new_def)
  next
    case (Some rc)
    then have enc: "rc_encodable rc" using assms by (simp add: rs_encodable_def)
    have "ResultCode_InternalParse lib (length (ResultCode_InternalSerialize lib rc)) (ResultCode_new lib)
        (ResultCode_InternalSerialize lib rc) = Done rc"
      unfolding ResultCode_InternalParse_def by (rule rc.parsed_whole [OF ResultCode_parses [OF enc]])
    then have "GetListResponse_field lib (GetListResponse_new lib)
        ((WriteMessageHead lib 1 (ResultCode_ByteSizeLong lib rc) @ ResultCode_InternalSerialize lib rc) @ r) = Continue ?m1 r" for r
      using read_write_message [of 1 "ResultCode_InternalSerialize lib rc" r] enc Some
      by (auto simp: GetListResponse_field_def wire_tag_def ResultCode_byte_size rc_encodable_def parse_result_field_def
          mutable_result_def result_def GetListResponse_new_def simp del: val_loop.simps)
    then show ?thesis using Some by (simp add: rs.parses_field)
  qed
  have ser: "GetListResponse_InternalSerialize lib m = ?head @ ?vals"
    using assms base.none_unknown by (simp add: GetListResponse_InternalSerialize_def rs_encodable_def)
  have "parse_loop (GetListResponse_field lib) (length (?head @ ?vals)) (GetListResponse_new lib) (?head @ ?vals) = Done m"
  proof (cases "rs_val m")
    case Nil
    then show ?thesis using rs.parsed_whole [OF head] m by (simp add: GetListResponse_new_def)
  next
    case (Cons v vs)
    obtain body where b: "WriteBytes (pb lib) 2 v = 18 # body"
      "\<And>r. ReadTag (pb lib) (18 # body @ r) = Some (wire_tag 2 2, body @ r)"
      using write_bytes_tag [of 2 v] by auto
    have "GetListResponse_field lib ?m1 ?vals = Continue (?m1\<lparr>rs_val := rs_val ?m1 @ v # vs\<rparr>) []"
      using val_loop_elements [OF _ _ b, of vs _ ?m1] assms Cons
      by (simp add: GetListResponse_field_def b wire_tag_def rs_encodable_def del: val_loop.simps)
    moreover have "?m1\<lparr>rs_val := rs_val ?m1 @ v # vs\<rparr> = m" using m Cons by (simp add: GetListResponse_new_def)
    ultimately show ?thesis using rs.parsed_last [OF head, of ?vals m] Cons b by simp
  qed
  then show ?thesis
    unfolding ser parse_response_msg_def parse_message_def GetListResponse_InternalParse_def clear_new
    by (simp only: parse_end.case)
qed

lemma merges_result:
  assumes "\<not> have_unknown (pb lib) (rc_unknown r)" and "errcode r = 0" and "length (errmsg r) < 2 ^ 31"
    and "errmsg r \<noteq> []" and "rs_result m = Some r0" and "ResultCode_ByteSizeLong lib r < 2 ^ 31"
  shows "GetListResponse_field lib m (WriteMessageHead lib 1 (ResultCode_ByteSizeLong lib r) @ ResultCode_InternalSerialize lib r @ rest)
    = Continue (m\<lparr>rs_result := Some (r0\<lparr>errmsg := errmsg r\<rparr>)\<rparr>) rest"
proof -
  have s: "ResultCode_InternalSerialize lib r = WriteBytes (pb lib) 2 (errmsg r)"
    using assms by (simp add: ResultCode_InternalSerialize_def)
  obtain body where b: "ReadTag (pb lib) (WriteMessageHead lib 1 (ResultCode_ByteSizeLong lib r) @ ResultCode_InternalSerialize lib r @ rest)
      = Some (wire_tag 1 2, body)" "ReadSubmessage lib body = Some (ResultCode_InternalSerialize lib r, rest)"
    using read_write_message [of 1 "ResultCode_InternalSerialize lib r" rest] assms(6) by (auto simp: ResultCode_byte_size)
  have "ResultCode_field lib r0 (WriteBytes (pb lib) 2 (errmsg r) @ t) = Continue (r0\<lparr>errmsg := errmsg r\<rparr>) t" for t
    using base.read_write_bytes [of 2 "errmsg r" t] assms(3)
    by (auto simp: ResultCode_field_def wire_tag_def set_bytes_field_def)
  then have "ResultCode_InternalParse lib (length (ResultCode_InternalSerialize lib r)) r0 (ResultCode_InternalSerialize lib r)
      = Done (r0\<lparr>errmsg := errmsg r\<rparr>)"
    unfolding s ResultCode_InternalParse_def by (intro rc.parsed_whole rc.parses_field)
  then show ?thesis
    using b assms(5) by (simp add: GetListResponse_field_def wire_tag_def parse_result_field_def mutable_result_def result_def del: val_loop.simps)
qed

end

section \<open>The documented format\<close>

definition base128_msgs :: "bytes msg_lib" where
  "base128_msgs =
     \<lparr>pb = base128_lib,
      ReadVarint64 = (\<lambda>s. map_option (\<lambda>(n, r). (of_nat n, r)) (unvarint s)),
      WriteInt32 = (\<lambda>f v. varint (8 * f) @ varint (unat (scast v :: u64))),
      Int32Size = (\<lambda>v. length (varint (unat (scast v :: u64)))),
      ReadSubmessage = ReadBytes base128_lib,
      WriteMessageHead = (\<lambda>f n. varint (8 * f + 2) @ varint n),
      LengthDelimitedSize = (\<lambda>n. length (varint n) + n)\<rparr>"

lemma varint_length: "n < 128 ^ Suc k \<Longrightarrow> length (varint n) \<le> Suc k"
proof (induction k arbitrary: n)
  case (Suc k)
  then have "n div 128 < 128 ^ Suc k" by (simp add: less_mult_imp_div_less mult.commute)
  then show ?case using Suc.IH by (subst varint.simps) auto
qed (subst varint.simps, simp)

interpretation bm: message_format base128_msgs
proof -
  have lib: "pb base128_msgs = base128_lib" by (simp add: base128_msgs_def)
  show "message_format base128_msgs"
  proof (intro message_format.intro)
    show "wire_format (pb base128_msgs)" unfolding lib by (rule b128.wire_format_axioms)
    show "message_format_axioms base128_msgs"
    proof
      fix f :: nat and v :: u32 and s r :: bytes and n :: nat
      assume f: "1 \<le> f" "f < 16"
      show "\<exists>body. ReadTag (pb base128_msgs) (WriteInt32 base128_msgs f v @ r) = Some (wire_tag f 0, body)
          \<and> ReadVarint64 base128_msgs body = Some (scast v, r)"
        by (simp add: base128_msgs_def base128_lib_def unvarint_varint wire_tag_def)
      show "\<exists>body. ReadTag (pb base128_msgs) (WriteMessageHead base128_msgs f (length s) @ s @ r) = Some (wire_tag f 2, body)
          \<and> ReadSubmessage base128_msgs body = Some (s, r)"
        by (simp add: base128_msgs_def base128_lib_def unvarint_varint wire_tag_def)
      have tag: "varint (8 * f + 2) = [of_nat (8 * f + 2)]" using f by (simp add: varint.simps)
      show "\<exists>body. WriteBytes (pb base128_msgs) f s = of_nat (8 * f + 2) # body
          \<and> (\<forall>r. ReadTag (pb base128_msgs) (of_nat (8 * f + 2) # body @ r) = Some (wire_tag f 2, body @ r))"
        using unvarint_varint [of "8 * f + 2", unfolded tag]
        by (intro exI [of _ "varint (length s) @ s"])
           (simp add: base128_msgs_def base128_lib_def wire_tag_def tag [simplified] del: unvarint.simps)
      show "length (WriteInt32 base128_msgs f v) = 1 + Int32Size base128_msgs v"
        "length (WriteMessageHead base128_msgs f n) + n = 1 + LengthDelimitedSize base128_msgs n"
        using f by (simp_all add: base128_msgs_def varint_tag)
    qed (auto simp: base128_msgs_def base128_lib_def dest: unvarint_consumes less_imp_le split: option.splits if_splits)
  qed
qed

section \<open>Properties\<close>

text \<open>
  C20: The messages of the example service survive the wire: what is serialized has the size
  computed beforehand and parses back to the same request, and to the same response with its
  nested result code (negative error codes included) and all elements of the repeated field in
  order, for every runtime that keeps its documented promises.
\<close>

theorem messages_roundtrip:
  assumes "message_format lib" and "rq_unknown q = no_unknown (pb lib)" and "rs_unknown p = no_unknown (pb lib)"
    and "\<forall>r. rs_result p = Some r \<longrightarrow> length (errmsg r) < 2 ^ 31 \<and> rc_unknown r = no_unknown (pb lib)
           \<and> ResultCode_ByteSizeLong lib r < 2 ^ 31"
    and "\<forall>v \<in> set (rs_val p). length v < 2 ^ 31"
  shows "parse_request_msg lib (GetListRequest_InternalSerialize lib q) = Some q
    \<and> parse_response_msg lib (GetListResponse_InternalSerialize lib p) = Some p
    \<and> GetListRequest_ByteSizeLong lib q = length (GetListRequest_InternalSerialize lib q)
    \<and> GetListResponse_ByteSizeLong lib p = length (GetListResponse_InternalSerialize lib p)"
proof -
  note lib = assms(1)
  have "message_format.rs_encodable lib p"
    using assms message_format.ResultCode_byte_size [OF lib]
    by (auto simp: message_format.rs_encodable_def [OF lib] message_format.rc_encodable_def [OF lib])
  then show ?thesis
    using message_format.GetListRequest_parsed [OF lib assms(2)] message_format.GetListResponse_parsed [OF lib]
      message_format.GetListRequest_byte_size [OF lib] message_format.GetListResponse_byte_size [OF lib] by blast
qed

theorem messages_roundtrip_witness:
  "parse_response_msg base128_msgs (GetListResponse_InternalSerialize base128_msgs
       \<lparr>rs_result = Some \<lparr>errcode = - 1, errmsg = [1, 2], rc_unknown = []\<rparr>, rs_val = [[7], [], [8, 9]], rs_unknown = []\<rparr>)
     = Some \<lparr>rs_result = Some \<lparr>errcode = - 1, errmsg = [1, 2], rc_unknown = []\<rparr>, rs_val = [[7], [], [8, 9]], rs_unknown = []\<rparr>"
proof -
  have "length (varint (unat (scast (- 1 :: u32) :: u64))) \<le> Suc 9"
    by (rule varint_length) (use unsigned_less [of "scast (- 1 :: u32) :: u64", where ?'a = nat] in simp)
  then have "ResultCode_ByteSizeLong base128_msgs \<lparr>errcode = - 1, errmsg = [1, 2], rc_unknown = []\<rparr> < 2 ^ 31"
    by (simp add: ResultCode_ByteSizeLong_def base128_msgs_def base128_lib_def varint_tag)
  then show ?thesis
    using messages_roundtrip [OF bm.message_format_axioms,
        of "\<lparr>userid = 5, rq_unknown = []\<rparr>"
           "\<lparr>rs_result = Some \<lparr>errcode = - 1, errmsg = [1, 2], rc_unknown = []\<rparr>, rs_val = [[7], [], [8, 9]], rs_unknown = []\<rparr>"]
    by (simp add: base128_msgs_def base128_lib_def)
qed

text \<open>
  Parsing a nested message twice merges: the parser of \<open>GetListResponse\<close> fills the result code
  it already holds, so fields the second occurrence leaves out keep the values of the first.
\<close>

theorem repeated_result_merges:
  assumes "message_format lib" and "\<not> have_unknown (pb lib) (rc_unknown r)" and "errcode r = 0" and "length (errmsg r) < 2 ^ 31"
    and "errmsg r \<noteq> []" and "rs_result m = Some r0"
    and "ResultCode_ByteSizeLong lib r < 2 ^ 31"
  shows "GetListResponse_field lib m (WriteMessageHead lib 1 (ResultCode_ByteSizeLong lib r) @ ResultCode_InternalSerialize lib r @ rest)
    = Continue (m\<lparr>rs_result := Some (r0\<lparr>errmsg := errmsg r\<rparr>)\<rparr>) rest"
  using assms by (rule message_format.merges_result)

end
