(* ===== verification/Address.thy ===== *)
theory Address
  imports Endian Text Ordered_Set "HOL-Library.List_Lexorder"
begin

text \<open>
  \<^verbatim>\<open>util/address.h\<close>, \<^verbatim>\<open>address.cc\<close>: socket addresses.  Integers of a \<^verbatim>\<open>sockaddr\<close> are kept as
  the number the machine reads from memory, \<open>big\<close> is its byte order.  The resolver
  (\<^verbatim>\<open>getaddrinfo\<close>, \<^verbatim>\<open>inet_pton\<close>, \<^verbatim>\<open>getifaddrs\<close>) is a parameter; writing to the log is left out.
\<close>

section \<open>Data\<close>

unbundle bit_operations_syntax

definition AF_UNSPEC :: u16 where "AF_UNSPEC = 0"
definition AF_UNIX :: u16 where "AF_UNIX = 1"
definition AF_INET :: u16 where "AF_INET = 2"
definition AF_INET6 :: u16 where "AF_INET6 = 10"

lemmas families = AF_UNSPEC_def AF_UNIX_def AF_INET_def AF_INET6_def

record sockaddr_in =
  sin_port :: u16
  s_addr :: u32
  sin_zero :: bytes

record sockaddr_in6 =
  sin6_port :: u16
  sin6_flowinfo :: u32
  s6_addr :: bytes
  sin6_scope_id :: u32

record sockaddr_un =
  sun_path :: bytes
  m_length :: u32

text \<open>
  An address object by its class; \<open>Unknown\<close> keeps the family and the 14 bytes of a plain
  \<^verbatim>\<open>sockaddr\<close>.
\<close>

datatype Address =
    IPv4Address sockaddr_in
  | IPv6Address sockaddr_in6
  | UnixAddress sockaddr_un
  | UnknownAddress u16 bytes

datatype addr_error = UndefinedShift | IndexOutOfBounds | PathTooLong | NullPointer

section \<open>Masks\<close>

definition CreateMask32 :: "u32 \<Rightarrow> addr_error + u32" where
  \<comment> \<open>\<open>1\<close> is an \<^verbatim>\<open>int\<close>: a shift by 32 or more is undefined, and \<^verbatim>\<open>(1 << 31) - 1\<close> overflows\<close>
  "CreateMask32 bits =
     (if 2 \<le> unat bits \<and> unat bits \<le> 32 then Inr (push_bit (32 - unat bits) 1 - 1) else Inl UndefinedShift)"

definition CreateMask8 :: "nat \<Rightarrow> u8" where
  \<comment> \<open>for the remainders 0 to 7 it is used with\<close>
  "CreateMask8 bits = ucast (push_bit (8 - bits) 1 - 1 :: u32)"

lemma and_minus_one_less:
  fixes v :: "'a :: len word"
  assumes "v \<noteq> 0"
  shows "unat (v AND (v - 1)) < unat v"
proof -
  have "unat (v AND (v - 1)) \<le> unat (v - 1)" by (simp add: word_and_le1 word_le_nat_alt [symmetric])
  moreover have "unat (v - 1) = unat v - 1" "0 < unat v"
    using assms by (simp_all add: unat_minus_one unat_gt_0)
  ultimately show ?thesis by linarith
qed

function CountBytes_loop :: "'a :: len word \<Rightarrow> u32 \<Rightarrow> u32" where
  "CountBytes_loop v result = (if v = 0 then result else CountBytes_loop (v AND (v - 1)) (result + 1))"
  by auto

termination
  by (relation "measure (unat \<circ> fst)") (auto simp: and_minus_one_less)

declare CountBytes_loop.simps [simp del]

definition CountBytes :: "'a :: len word \<Rightarrow> u32" where
  "CountBytes v = CountBytes_loop v 0"

fun ones :: "nat \<Rightarrow> nat" where
  \<comment> \<open>the reference: the digits of the binary representation\<close>
  "ones n = (if n = 0 then 0 else n mod 2 + ones (n div 2))"

declare ones.simps [simp del]

lemma ones_0 [simp]: "ones 0 = 0" by (simp add: ones.simps)

lemma ones_double: "ones (2 * n) = ones n" "ones (Suc (2 * n)) = Suc (ones n)"
  by (subst ones.simps; simp)+

lemma ones_clear_lowest: "0 < n \<Longrightarrow> ones n = Suc (ones (n AND (n - 1)))"
proof (induction n rule: less_induct)
  case (less n)
  show ?case
  proof (cases "even n")
    case True
    then obtain k where k: "n = 2 * k" "0 < k" using less.prems by (auto elim: evenE)
    then have half: "(2 * k - Suc 0) div 2 = k - Suc 0" by presburger
    have "n AND (n - 1) = 2 * (k AND (k - 1))"
      using k by (subst and_rec) (auto simp: half)
    moreover have "ones k = Suc (ones (k AND (k - 1)))" using k less.IH [of k] by simp
    ultimately show ?thesis using k by (simp add: ones_double)
  next
    case False
    then obtain k where k: "n = Suc (2 * k)" by (auto elim: oddE)
    have "n AND (n - 1) = 2 * k"
      using k by (subst and_rec) simp
    then show ?thesis using k by (simp add: ones_double)
  qed
qed

lemma CountBytes_loop_ones: "CountBytes_loop v r = r + of_nat (ones (unat v))"
proof (induction v r rule: CountBytes_loop.induct)
  case (1 v r)
  show ?case
  proof (cases "v = 0")
    case False
    then have "ones (unat v) = Suc (ones (unat (v AND (v - 1))))"
      using ones_clear_lowest [of "unat v"] by (simp add: unsigned_and_eq unat_minus_one unat_gt_0)
    then show ?thesis using False 1 by (subst CountBytes_loop.simps) simp
  qed (simp add: CountBytes_loop.simps)
qed

lemma ones_card: "n < 2 ^ l \<Longrightarrow> ones n = card {i. i < l \<and> bit n i}"
proof (induction l arbitrary: n)
  case (Suc l)
  have split: "{i. i < Suc l \<and> bit n i} = (if odd n then {0} else {}) \<union> Suc ` {i. i < l \<and> bit (n div 2) i}"
    by (auto simp: bit_Suc image_iff less_Suc_eq_0_disj bit_0 gr0_conv_Suc)
  have "card (Suc ` {i. i < l \<and> bit (n div 2) i}) = ones (n div 2)"
    using Suc by (simp add: card_image)
  moreover have "ones n = n mod 2 + ones (n div 2)" by (subst ones.simps) auto
  moreover have "finite (Suc ` {i. i < l \<and> bit (n div 2) i})" by simp
  ultimately show ?case unfolding split by (auto simp: card_insert_if odd_iff_mod_2_eq_one even_iff_mod_2_eq_zero)
qed simp

lemma CountBytes_card: "unat (CountBytes v) = card {i. i < 32 \<and> bit v i}" for v :: u32
proof -
  have "ones (unat v) = card {i. i < 32 \<and> bit (unat v) i}" by (rule ones_card) (use unsigned_less [of v, where ?'a = nat] in simp)
  moreover have "card {i. i < 32 \<and> bit (unat v) i} \<le> card {..< 32 :: nat}" by (rule card_mono) auto
  ultimately show ?thesis
    by (simp add: CountBytes_def CountBytes_loop_ones unat_of_nat bit_unsigned_iff)
qed

section \<open>\<open>IPv4Address\<close>\<close>

definition IPv4_of_sockaddr :: "sockaddr_in \<Rightarrow> sockaddr_in" where
  "IPv4_of_sockaddr address = address"

definition IPv4_new :: "bool \<Rightarrow> u32 \<Rightarrow> u16 \<Rightarrow> sockaddr_in" where
  "IPv4_new big address prt =
     \<lparr>sin_port = byteswapOnLittleEndian big bswap_16 prt, s_addr = byteswapOnLittleEndian big bswap_32 address,
      sin_zero = replicate 8 0\<rparr>"

definition IPv4_Create :: "bool \<Rightarrow> (bytes \<Rightarrow> u32 option) \<Rightarrow> bytes \<Rightarrow> u16 \<Rightarrow> sockaddr_in option" where
  \<comment> \<open>\<open>inet_pton\<close> gives the value it writes to \<open>sin_addr\<close>\<close>
  "IPv4_Create big inet_pton address prt =
     (case inet_pton address of
        None \<Rightarrow> None
      | Some a \<Rightarrow> Some ((IPv4_new big 0 0)\<lparr>sin_port := byteswapOnLittleEndian big bswap_16 prt, s_addr := a\<rparr>))"

definition IPv4_insert :: "bool \<Rightarrow> sockaddr_in \<Rightarrow> bytes" where
  "IPv4_insert big m_addr =
     (let addr = byteswapOnLittleEndian big bswap_32 (s_addr m_addr);
          dec = (\<lambda>x :: u32. nat_digits (unat x))
      in dec (drop_bit 24 addr AND 0xff) @ str ''.'' @ dec (drop_bit 16 addr AND 0xff) @ str ''.''
         @ dec (drop_bit 8 addr AND 0xff) @ str ''.'' @ dec (addr AND 0xff)
         @ str '':'' @ nat_digits (unat (byteswapOnLittleEndian big bswap_16 (sin_port m_addr))))"

definition IPv4_broadcastAddress :: "bool \<Rightarrow> u32 \<Rightarrow> sockaddr_in \<Rightarrow> addr_error + sockaddr_in option" where
  "IPv4_broadcastAddress big prefix_len m_addr =
     (if unat prefix_len > 32 then Inr None
      else case CreateMask32 prefix_len of
        Inl e \<Rightarrow> Inl e
      | Inr msk \<Rightarrow> Inr (Some (m_addr\<lparr>s_addr := s_addr m_addr OR byteswapOnLittleEndian big bswap_32 msk\<rparr>)))"

definition IPv4_networdAddress :: "bool \<Rightarrow> u32 \<Rightarrow> sockaddr_in \<Rightarrow> addr_error + sockaddr_in option" where
  "IPv4_networdAddress big prefix_len m_addr =
     (if unat prefix_len > 32 then Inr None
      else case CreateMask32 prefix_len of
        Inl e \<Rightarrow> Inl e
      | Inr msk \<Rightarrow> Inr (Some (m_addr\<lparr>s_addr := s_addr m_addr AND byteswapOnLittleEndian big bswap_32 msk\<rparr>)))"

definition IPv4_subnetMask :: "bool \<Rightarrow> u32 \<Rightarrow> addr_error + sockaddr_in" where
  "IPv4_subnetMask big prefix_len =
     (case CreateMask32 prefix_len of
        Inl e \<Rightarrow> Inl e
      | Inr msk \<Rightarrow> Inr \<lparr>sin_port = 0, s_addr = NOT (byteswapOnLittleEndian big bswap_32 msk), sin_zero = replicate 8 0\<rparr>)"

definition IPv4_getPort :: "bool \<Rightarrow> sockaddr_in \<Rightarrow> u32" where
  "IPv4_getPort big m_addr = ucast (byteswapOnLittleEndian big bswap_16 (sin_port m_addr))"

definition IPv4_setPort :: "bool \<Rightarrow> u16 \<Rightarrow> sockaddr_in \<Rightarrow> sockaddr_in" where
  "IPv4_setPort big v m_addr = m_addr\<lparr>sin_port := byteswapOnLittleEndian big bswap_16 v\<rparr>"

section \<open>\<open>IPv6Address\<close>\<close>

definition IPv6_new :: sockaddr_in6 where
  "IPv6_new = \<lparr>sin6_port = 0, sin6_flowinfo = 0, s6_addr = replicate 16 0, sin6_scope_id = 0\<rparr>"

definition IPv6_of_sockaddr :: "sockaddr_in6 \<Rightarrow> sockaddr_in6" where
  [simp]: "IPv6_of_sockaddr address = address"

definition IPv6_of_bytes :: "bool \<Rightarrow> bytes \<Rightarrow> u16 \<Rightarrow> sockaddr_in6" where
  "IPv6_of_bytes big address prt =
     IPv6_new\<lparr>sin6_port := byteswapOnLittleEndian big bswap_16 prt, s6_addr := take 16 address\<rparr>"

definition IPv6_Create :: "bool \<Rightarrow> (bytes \<Rightarrow> bytes option) \<Rightarrow> bytes \<Rightarrow> u16 \<Rightarrow> sockaddr_in6 option" where
  "IPv6_Create big inet_pton address prt =
     (case inet_pton address of
        None \<Rightarrow> None
      | Some a \<Rightarrow> Some (IPv6_new\<lparr>sin6_port := byteswapOnLittleEndian big bswap_16 prt, s6_addr := a\<rparr>))"

definition load16 :: "bool \<Rightarrow> u8 \<Rightarrow> u8 \<Rightarrow> u16" where
  \<comment> \<open>the two bytes in memory, read as an integer\<close>
  "load16 big b0 b1 = (if big then push_bit 8 (ucast b0) OR ucast b1 else push_bit 8 (ucast b1) OR ucast b0)"

fun hex_digits :: "nat \<Rightarrow> bytes" where
  "hex_digits n =
     (if n < 16 then [of_nat (if n < 10 then 48 + n else 87 + n)]
      else hex_digits (n div 16) @ [of_nat (if n mod 16 < 10 then 48 + n mod 16 else 87 + n mod 16)])"

declare hex_digits.simps [simp del]

fun IPv6_groups :: "bool \<Rightarrow> u16 option \<Rightarrow> u16 list \<Rightarrow> bool \<Rightarrow> bytes \<times> bool" where
  \<comment> \<open>the loop of \<open>insert\<close>: the element before (none at index 0) and those to come; the text, and
    \<open>used_zeros\<close> afterwards\<close>
  "IPv6_groups big before [] used_zeros = ([], used_zeros)"
| "IPv6_groups big before (a # addr) used_zeros =
     (if a = 0 \<and> \<not> used_zeros then IPv6_groups big (Some a) addr used_zeros
      else
        (let skip = (before = Some 0 \<and> \<not> used_zeros);
             text = (if skip then str '':'' else []) @ (if before \<noteq> None then str '':'' else [])
                    @ hex_digits (unat (byteswapOnLittleEndian big bswap_16 a));
             (rest, used') = IPv6_groups big (Some a) addr (used_zeros \<or> skip)
         in (text @ rest, used')))"

definition IPv6_insert :: "bool \<Rightarrow> sockaddr_in6 \<Rightarrow> bytes" where
  "IPv6_insert big m_addr =
     (let b = s6_addr m_addr;
          addr = map (\<lambda>i. load16 big (b ! (2 * i)) (b ! (2 * i + 1))) [0..<8];
          (text, used_zeros) = IPv6_groups big None addr False
      in str ''['' @ text @ (if \<not> used_zeros \<and> addr ! 7 = 0 then str ''::'' else [])
         @ str '']:'' @ nat_digits (unat (byteswapOnLittleEndian big bswap_16 (sin6_port m_addr))))"

definition IPv6_broadcastAddress :: "u32 \<Rightarrow> sockaddr_in6 \<Rightarrow> addr_error + sockaddr_in6" where
  \<comment> \<open>no check of the prefix: index 16 and above is outside the array\<close>
  "IPv6_broadcastAddress prefix_len m_addr =
     (let i = unat prefix_len div 8; b = s6_addr m_addr
      in if \<not> i < 16 then Inl IndexOutOfBounds
         else Inr (m_addr\<lparr>s6_addr := take i b @ [b ! i OR CreateMask8 (unat prefix_len mod 8)] @ replicate (15 - i) 0xff\<rparr>))"

definition IPv6_networdAddress :: "u32 \<Rightarrow> sockaddr_in6 \<Rightarrow> addr_error + sockaddr_in6" where
  "IPv6_networdAddress prefix_len m_addr =
     (let i = unat prefix_len div 8; b = s6_addr m_addr
      in if \<not> i < 16 then Inl IndexOutOfBounds
         else Inr (m_addr\<lparr>s6_addr := take i b @ [b ! i AND CreateMask8 (unat prefix_len mod 8)] @ replicate (15 - i) 0\<rparr>))"

definition IPv6_subnetMask :: "u32 \<Rightarrow> addr_error + sockaddr_in6" where
  "IPv6_subnetMask prefix_len =
     (let i = unat prefix_len div 8
      in if \<not> i < 16 then Inl IndexOutOfBounds
         else Inr (IPv6_new\<lparr>s6_addr := replicate i 0xff @ [NOT (CreateMask8 (unat prefix_len mod 8))] @ replicate (15 - i) 0\<rparr>))"

definition IPv6_getPort :: "bool \<Rightarrow> sockaddr_in6 \<Rightarrow> u32" where
  "IPv6_getPort big m_addr = ucast (byteswapOnLittleEndian big bswap_16 (sin6_port m_addr))"

definition IPv6_setPort :: "bool \<Rightarrow> u16 \<Rightarrow> sockaddr_in6 \<Rightarrow> sockaddr_in6" where
  "IPv6_setPort big v m_addr = m_addr\<lparr>sin6_port := byteswapOnLittleEndian big bswap_16 v\<rparr>"

section \<open>\<open>UnixAddress\<close>, \<open>UnknownAddress\<close>\<close>

definition SUN_PATH :: nat where "SUN_PATH = 108"           \<comment> \<open>\<^verbatim>\<open>sizeof(sun_path)\<close>\<close>
definition OFFSETOF_PATH :: nat where "OFFSETOF_PATH = 2"   \<comment> \<open>\<^verbatim>\<open>offsetof(sockaddr_un, sun_path)\<close>\<close>

definition UnixAddress_default :: sockaddr_un where
  "UnixAddress_default = \<lparr>sun_path = replicate SUN_PATH 0, m_length = of_nat (OFFSETOF_PATH + (SUN_PATH - 1))\<rparr>"

definition UnixAddress_new :: "bytes \<Rightarrow> addr_error + sockaddr_un" where
  "UnixAddress_new path =
     (let len = length path + 1;
          len = (if path \<noteq> [] \<and> hd path = 0 then len - 1 else len)
      in if len > SUN_PATH then Inl PathTooLong
         else Inr \<lparr>sun_path = take len (path @ [0]) @ replicate (SUN_PATH - len) 0,
                   m_length = of_nat (len + OFFSETOF_PATH)\<rparr>)"

definition UnixAddress_setAddrLen :: "u32 \<Rightarrow> sockaddr_un \<Rightarrow> sockaddr_un" where
  "UnixAddress_setAddrLen v m_addr = m_addr\<lparr>m_length := v\<rparr>"

definition UnixAddress_getPath :: "sockaddr_un \<Rightarrow> bytes" where
  \<comment> \<open>also \<open>insert\<close>; a path without a zero byte in the array would be read beyond it\<close>
  "UnixAddress_getPath m_addr =
     (if unat (m_length m_addr) > OFFSETOF_PATH \<and> hd (sun_path m_addr) = 0
      then [92, 48] @ take (unat (m_length m_addr) - OFFSETOF_PATH - 1) (tl (sun_path m_addr))
      else takeWhile (\<lambda>b. b \<noteq> 0) (sun_path m_addr))"

definition UnknownAddress_new :: "u16 \<Rightarrow> u16 \<times> bytes" where
  "UnknownAddress_new family = (family, replicate 14 0)"

definition UnknownAddress_of_sockaddr :: "u16 \<Rightarrow> bytes \<Rightarrow> u16 \<times> bytes" where
  \<comment> \<open>the copy of a plain \<^verbatim>\<open>sockaddr\<close>: the family and 14 bytes\<close>
  "UnknownAddress_of_sockaddr family bs = (family, take 14 bs)"

definition UnknownAddress_insert :: "u16 \<Rightarrow> bytes" where
  "UnknownAddress_insert family = str ''[UnknownAddress family='' @ nat_digits (unat family) @ str '']''"

section \<open>\<open>Address\<close>\<close>

definition store16 :: "bool \<Rightarrow> u16 \<Rightarrow> bytes" where
  "store16 big v = (if big then [ucast (drop_bit 8 v), ucast v] else [ucast v, ucast (drop_bit 8 v)])"

fun getFamily :: "Address \<Rightarrow> u16" where
  "getFamily (IPv4Address _) = AF_INET"
| "getFamily (IPv6Address _) = AF_INET6"
| "getFamily (UnixAddress _) = AF_UNIX"
| "getFamily (UnknownAddress family _) = family"

definition IPv4_getAddrLen :: nat where "IPv4_getAddrLen = 16"
definition IPv6_getAddrLen :: nat where "IPv6_getAddrLen = 28"
definition UnixAddress_getAddrLen :: "sockaddr_un \<Rightarrow> nat" where "UnixAddress_getAddrLen a = unat (m_length a)"
definition UnknownAddress_getAddrLen :: nat where "UnknownAddress_getAddrLen = 16"

fun getAddrLen :: "Address \<Rightarrow> nat" where
  \<comment> \<open>the virtual call\<close>
  "getAddrLen (IPv4Address _) = IPv4_getAddrLen"
| "getAddrLen (IPv6Address _) = IPv6_getAddrLen"
| "getAddrLen (UnixAddress a) = UnixAddress_getAddrLen a"
| "getAddrLen (UnknownAddress _ _) = UnknownAddress_getAddrLen"

definition array_of :: "nat \<Rightarrow> bytes \<Rightarrow> bytes" where
  \<comment> \<open>the contents of an array of \<open>n\<close> bytes\<close>
  "array_of n bs = take n (bs @ replicate n 0)"

text \<open>
  \<open>getAddr\<close> is the memory behind the pointer; a length set beyond the object reads bytes the model takes to be
  zero.
\<close>

definition IPv4_getAddr :: "bool \<Rightarrow> sockaddr_in \<Rightarrow> bytes" where
  "IPv4_getAddr big a = store16 big AF_INET @ store16 big (sin_port a) @ store32 big (s_addr a) @ array_of 8 (sin_zero a)"

definition IPv6_getAddr :: "bool \<Rightarrow> sockaddr_in6 \<Rightarrow> bytes" where
  "IPv6_getAddr big a =
     store16 big AF_INET6 @ store16 big (sin6_port a) @ store32 big (sin6_flowinfo a) @ array_of 16 (s6_addr a)
     @ store32 big (sin6_scope_id a)"

definition UnixAddress_getAddr :: "bool \<Rightarrow> sockaddr_un \<Rightarrow> bytes" where
  "UnixAddress_getAddr big a = store16 big AF_UNIX @ array_of SUN_PATH (sun_path a) @ replicate (unat (m_length a)) 0"

definition UnknownAddress_getAddr :: "bool \<Rightarrow> u16 \<Rightarrow> bytes \<Rightarrow> bytes" where
  "UnknownAddress_getAddr big family rest = store16 big family @ array_of 14 rest"

lemmas class_addresses [simp] =
  IPv4_getAddrLen_def IPv6_getAddrLen_def UnixAddress_getAddrLen_def UnknownAddress_getAddrLen_def
  IPv4_getAddr_def IPv6_getAddr_def UnixAddress_getAddr_def UnknownAddress_getAddr_def

fun getAddr :: "bool \<Rightarrow> Address \<Rightarrow> bytes" where
  "getAddr big (IPv4Address a) = IPv4_getAddr big a"
| "getAddr big (IPv6Address a) = IPv6_getAddr big a"
| "getAddr big (UnixAddress a) = UnixAddress_getAddr big a"
| "getAddr big (UnknownAddress family rest) = UnknownAddress_getAddr big family rest"

fun memcmp :: "bytes \<Rightarrow> bytes \<Rightarrow> nat \<Rightarrow> int" where
  "memcmp (a # as) (b # bs) (Suc n) = (if a = b then memcmp as bs n else if a < b then - 1 else 1)"
| "memcmp _ _ _ = 0"

definition addr_less :: "bool \<Rightarrow> Address \<Rightarrow> Address \<Rightarrow> bool" where
  \<comment> \<open>\<^verbatim>\<open>operator<\<close>\<close>
  "addr_less big lhs rhs =
     (let minlen = min (getAddrLen lhs) (getAddrLen rhs);
          result = memcmp (getAddr big lhs) (getAddr big rhs) minlen
      in if result < 0 then True
         else if result > 0 then False
         else if getAddrLen lhs < getAddrLen rhs then True
         else False)"

definition addr_equal :: "bool \<Rightarrow> Address \<Rightarrow> Address \<Rightarrow> bool" where
  "addr_equal big lhs rhs =
     (getAddrLen lhs = getAddrLen rhs \<and> memcmp (getAddr big lhs) (getAddr big rhs) (getAddrLen lhs) = 0)"

definition addr_not_equal :: "bool \<Rightarrow> Address \<Rightarrow> Address \<Rightarrow> bool" where
  "addr_not_equal big lhs rhs = (\<not> addr_equal big lhs rhs)"

fun addr_insert :: "bool \<Rightarrow> Address \<Rightarrow> bytes" where
  \<comment> \<open>the virtual call: what is written to the stream\<close>
  "addr_insert big (IPv4Address a) = IPv4_insert big a"
| "addr_insert big (IPv6Address a) = IPv6_insert big a"
| "addr_insert big (UnixAddress a) = UnixAddress_getPath a"
| "addr_insert big (UnknownAddress family _) = UnknownAddress_insert family"

definition addr_toString :: "bool \<Rightarrow> Address \<Rightarrow> bytes" where
  [simp]: "addr_toString big a = addr_insert big a"

definition addr_output :: "bool \<Rightarrow> bytes \<Rightarrow> Address \<Rightarrow> bytes" where
  \<comment> \<open>\<^verbatim>\<open>operator<<\<close> on a stream that holds \<open>os\<close>\<close>
  "addr_output big os addr = os @ addr_insert big addr"

fun is_ip :: "Address \<Rightarrow> bool" where
  \<comment> \<open>\<^verbatim>\<open>dynamic_pointer_cast<IPAddress>\<close> succeeds\<close>
  "is_ip (IPv4Address _) = True" | "is_ip (IPv6Address _) = True" | "is_ip _ = False"

fun setPort :: "bool \<Rightarrow> u16 \<Rightarrow> Address \<Rightarrow> Address" where
  "setPort big v (IPv4Address a) = IPv4Address (IPv4_setPort big v a)"
| "setPort big v (IPv6Address a) = IPv6Address (IPv6_setPort big v a)"
| "setPort big v a = a"

fun getPort :: "bool \<Rightarrow> Address \<Rightarrow> u32" where
  "getPort big (IPv4Address a) = IPv4_getPort big a"
| "getPort big (IPv6Address a) = IPv6_getPort big a"
| "getPort big a = 0"

text \<open>A \<^verbatim>\<open>sockaddr\<close> as the system returns it, and the object \<open>Address::Create\<close> makes of it.\<close>

datatype sockaddr = SA_in sockaddr_in | SA_in6 sockaddr_in6 | SA_other u16 bytes

fun sa_family :: "sockaddr \<Rightarrow> u16" where
  "sa_family (SA_in _) = AF_INET" | "sa_family (SA_in6 _) = AF_INET6" | "sa_family (SA_other f _) = f"

definition addr_Create :: "sockaddr option \<Rightarrow> Address option" where
  "addr_Create addr =
     (case addr of
        None \<Rightarrow> None
      | Some (SA_in a) \<Rightarrow> Some (IPv4Address (IPv4_of_sockaddr a))
      | Some (SA_in6 a) \<Rightarrow> Some (IPv6Address (IPv6_of_sockaddr a))
      | Some (SA_other f bs) \<Rightarrow> (case UnknownAddress_of_sockaddr f bs of (f1, bs1) \<Rightarrow> Some (UnknownAddress f1 bs1)))"

section \<open>Looking up names\<close>

definition split_brackets :: "bytes \<Rightarrow> bytes \<times> bytes option" where
  \<comment> \<open>\<^verbatim>\<open>[node]:service\<close>\<close>
  "split_brackets host =
     (if host \<noteq> [] \<and> hd host = 91
      then (case find_char 93 (tl host) of
              None \<Rightarrow> ([], None)
            | Some i \<Rightarrow>
                (take i (tl host),
                 (case drop (Suc i) (tl host) of [] \<Rightarrow> None | b # service \<Rightarrow> if b = 58 then Some service else None)))
      else ([], None))"

definition split_colon :: "bytes \<Rightarrow> bytes \<times> bytes option" where
  \<comment> \<open>\<^verbatim>\<open>node:service\<close>; with a second colon \<open>service\<close> keeps pointing at the first one\<close>
  "split_colon host =
     (case find_char 58 host of
        None \<Rightarrow> ([], None)
      | Some i \<Rightarrow>
          (if find_char 58 (drop (Suc i) host) = None then (take i host, Some (drop (Suc i) host))
           else ([], Some (drop i host))))"

definition split_host :: "bytes \<Rightarrow> bytes \<times> bytes option" where
  "split_host host =
     (let (node, service) = split_brackets host;
          (node, service) = (if node = [] then split_colon host else (node, service))
      in (if node = [] then host else node, service))"

definition c_str :: "bytes \<Rightarrow> bytes" where
  "c_str s = takeWhile (\<lambda>b. b \<noteq> 0) s"

definition addr_Lookup ::
    "(bytes \<Rightarrow> bytes option \<Rightarrow> u16 \<Rightarrow> int \<Rightarrow> int \<Rightarrow> sockaddr option list option)
     \<Rightarrow> Address option list \<Rightarrow> bytes \<Rightarrow> u16 \<Rightarrow> int \<Rightarrow> int \<Rightarrow> bool \<times> Address option list" where
  \<comment> \<open>\<open>getaddrinfo\<close>: the list of \<^verbatim>\<open>ai_addr\<close>, or the call fails\<close>
  "addr_Lookup getaddrinfo result host family socktype protocol =
     (let (node, service) = split_host host
      in case getaddrinfo (c_str node) (map_option c_str service) family socktype protocol of
           None \<Rightarrow> (False, result)
         | Some results \<Rightarrow> (let r = result @ map addr_Create results in (r \<noteq> [], r)))"

definition LookupAny where
  "LookupAny getaddrinfo host family socktype protocol =
     (case addr_Lookup getaddrinfo [] host family socktype protocol of
        (True, r) \<Rightarrow> hd r
      | (False, _) \<Rightarrow> None)"

definition LookupAnyIPAddress where
  "LookupAnyIPAddress getaddrinfo host family socktype protocol =
     (case addr_Lookup getaddrinfo [] host family socktype protocol of
        (True, r) \<Rightarrow> (case find (\<lambda>a. case a of None \<Rightarrow> False | Some x \<Rightarrow> is_ip x) r of None \<Rightarrow> None | Some a \<Rightarrow> a)
      | (False, _) \<Rightarrow> None)"

definition IPAddress_Create :: "bool \<Rightarrow> (bytes \<Rightarrow> sockaddr option list option) \<Rightarrow> bytes \<Rightarrow> u16 \<Rightarrow> Address option" where
  \<comment> \<open>\<open>getaddrinfo\<close> for a numeric host; it never succeeds with an empty list\<close>
  "IPAddress_Create big getaddrinfo address prt =
     (case getaddrinfo address of
        None \<Rightarrow> None
      | Some results \<Rightarrow>
          (case addr_Create (hd results) of
             None \<Rightarrow> None
           | Some a \<Rightarrow> if is_ip a then Some (setPort big prt a) else None))"

section \<open>The addresses of the interfaces\<close>

record ifaddr =
  ifa_name :: bytes
  ifa_addr :: "sockaddr option"
  ifa_netmask :: "sockaddr option"

definition ifa_prefix :: "sockaddr \<Rightarrow> sockaddr option \<Rightarrow> addr_error + (Address option \<times> u32)" where
  "ifa_prefix addr netmask =
     (case addr of
        SA_in _ \<Rightarrow> (case netmask of Some (SA_in m) \<Rightarrow> Inr (addr_Create (Some addr), CountBytes (s_addr m)) | _ \<Rightarrow> Inl NullPointer)
      | SA_in6 _ \<Rightarrow>
          (case netmask of
             Some (SA_in6 m) \<Rightarrow> Inr (addr_Create (Some addr), sum_list (map CountBytes (s6_addr m)))
           | _ \<Rightarrow> Inl NullPointer)
      | SA_other _ _ \<Rightarrow> Inr (None, - 1))"

fun multimap_insert :: "bytes \<Rightarrow> 'v \<Rightarrow> (bytes \<times> 'v) list \<Rightarrow> (bytes \<times> 'v) list" where
  \<comment> \<open>after the entries with the same key\<close>
  "multimap_insert k v [] = [(k, v)]"
| "multimap_insert k v ((k', v') # m) = (if k < k' then (k, v) # (k', v') # m else (k', v') # multimap_insert k v m)"

fun ifaddr_loop :: "u16 \<Rightarrow> ifaddr list \<Rightarrow> (bytes \<times> Address \<times> u32) list \<Rightarrow> addr_error + (bytes \<times> Address \<times> u32) list" where
  "ifaddr_loop family [] result = Inr result"
| "ifaddr_loop family (i # is') result =
     (case ifa_addr i of
        None \<Rightarrow> Inl NullPointer
      | Some a \<Rightarrow>
          (if family \<noteq> AF_UNSPEC \<and> family \<noteq> sa_family a then ifaddr_loop family is' result
           else case ifa_prefix a (ifa_netmask i) of
             Inl e \<Rightarrow> Inl e
           | Inr (None, _) \<Rightarrow> ifaddr_loop family is' result
           | Inr (Some addr, prefix_len) \<Rightarrow> ifaddr_loop family is' (multimap_insert (ifa_name i) (addr, prefix_len) result)))"

definition GetInterfaceAddresses ::
    "ifaddr list option \<Rightarrow> u16 \<Rightarrow> (bytes \<times> Address \<times> u32) list \<Rightarrow> addr_error + (bool \<times> (bytes \<times> Address \<times> u32) list)" where
  "GetInterfaceAddresses getifaddrs family result =
     (case getifaddrs of
        None \<Rightarrow> Inr (False, result)
      | Some results \<Rightarrow>
          (case ifaddr_loop family results result of
             Inl e \<Rightarrow> Inl e
           | Inr r \<Rightarrow> Inr (r \<noteq> [], r)))"

definition GetInterfaceAddresses_of ::
    "bool \<Rightarrow> ifaddr list option \<Rightarrow> bytes \<Rightarrow> u16 \<Rightarrow> (Address \<times> u32) list \<Rightarrow> addr_error + (bool \<times> (Address \<times> u32) list)" where
  \<comment> \<open>the overload for one interface\<close>
  "GetInterfaceAddresses_of big getifaddrs iface family result =
     (if iface = [] \<or> iface = str ''*''
      then Inr (True, result @ (if family = AF_INET \<or> family = AF_UNSPEC then [(IPv4Address (IPv4_new big 0 0), 0)] else [])
                        @ (if family = AF_INET6 \<or> family = AF_UNSPEC then [(IPv6Address IPv6_new, 0)] else []))
      else case GetInterfaceAddresses getifaddrs family [] of
        Inl e \<Rightarrow> Inl e
      | Inr (False, _) \<Rightarrow> Inr (False, result)
      | Inr (True, results) \<Rightarrow>
          (let r = result @ map snd (filter (\<lambda>(k, _). k = iface) results) in Inr (r \<noteq> [], r)))"

section \<open>The order of addresses\<close>

definition addr_key :: "bool \<Rightarrow> Address \<Rightarrow> bytes" where
  \<comment> \<open>the bytes that are compared\<close>
  "addr_key big a = take (getAddrLen a) (getAddr big a)"

lemma length_array_of [simp]: "length (array_of n bs) = n"
  by (simp add: array_of_def)

lemma length_store16 [simp]: "length (store16 big v) = 2"
  by (simp add: store16_def)

lemma getAddrLen_le: "getAddrLen a \<le> length (getAddr big a)"
  by (cases a) simp_all

lemma Nil_less_take: "[] < take n xs \<longleftrightarrow> 0 < n \<and> xs \<noteq> []"
  by (cases xs; cases n) auto

lemma memcmp_lex:
  "m \<le> length as \<Longrightarrow> n \<le> length bs \<Longrightarrow>
     (memcmp as bs (min m n) < 0 \<or> memcmp as bs (min m n) = 0 \<and> m < n) = (take m as < take n bs)"
proof (induction as bs "min m n" arbitrary: m n rule: memcmp.induct)
  case (1 a as b bs k)
  then obtain m' n' where "m = Suc m'" "n = Suc n'" "k = min m' n'"
    by (metis Suc_le_D min.cobounded1 min.cobounded2 min_Suc_Suc nat.inject)
  with 1 show ?case by auto
qed (auto simp: min_def Nil_less_take split: if_splits)

lemma memcmp_eq:
  "n \<le> length as \<Longrightarrow> n \<le> length bs \<Longrightarrow> memcmp as bs n = 0 \<longleftrightarrow> take n as = take n bs"
  by (induction as bs n rule: memcmp.induct) auto

lemma addr_less_key: "addr_less big a b \<longleftrightarrow> addr_key big a < addr_key big b"
  using memcmp_lex [OF getAddrLen_le getAddrLen_le, of big a big b]
  by (auto simp: addr_less_def addr_key_def Let_def)

lemma addr_equal_key: "addr_equal big a b \<longleftrightarrow> addr_key big a = addr_key big b"
proof -
  have "length (addr_key big x) = getAddrLen x" for x using getAddrLen_le [of x big] by (simp add: addr_key_def)
  then show ?thesis
    using memcmp_eq [of "getAddrLen a" "getAddr big a" "getAddr big b"] getAddrLen_le [of a big] getAddrLen_le [of b big]
    unfolding addr_equal_def by (metis addr_key_def)
qed

interpretation addr_order: strict_weak_order "addr_less big" for big
  by unfold_locales (auto simp: addr_less_key)

section \<open>Byte order and masks\<close>

lemma bswap_32_bitwise:
  "bswap_32 (a OR b) = bswap_32 a OR bswap_32 b" "bswap_32 (a AND b) = bswap_32 a AND bswap_32 b"
  "bswap_32 (NOT a) = NOT (bswap_32 a)"
  by (rule bit_word_eqI; auto simp: bit_bswap_32 bit_simps)+

lemma onLE_inverse: "byteswapOnLittleEndian big bswap_32 (byteswapOnLittleEndian big bswap_32 v) = v"
  "byteswapOnLittleEndian big bswap_16 (byteswapOnLittleEndian big bswap_16 p) = p"
  by (simp_all add: byteswapOnLittleEndian_def bswap_32_inverse bswap_16_inverse)

lemma onLE_bitwise:
  "byteswapOnLittleEndian big bswap_32 (a OR b) = byteswapOnLittleEndian big bswap_32 a OR byteswapOnLittleEndian big bswap_32 b"
  "byteswapOnLittleEndian big bswap_32 (a AND b) = byteswapOnLittleEndian big bswap_32 a AND byteswapOnLittleEndian big bswap_32 b"
  "byteswapOnLittleEndian big bswap_32 (NOT a) = NOT (byteswapOnLittleEndian big bswap_32 a)"
  by (simp_all add: byteswapOnLittleEndian_def bswap_32_bitwise)

lemma CreateMask32_mask:
  assumes "2 \<le> unat p" "unat p \<le> 32"
  shows "CreateMask32 p = Inr (mask (32 - unat p))"
  using assms by (simp add: CreateMask32_def mask_eq_exp_minus_1 push_bit_of_1)

lemma CountBytes_bswap: "CountBytes (bswap_32 v) = CountBytes v"
proof -
  define p where "p n = (if n < 8 then n + 24 else if n < 16 then n + 8 else if n < 24 then n - 8 else n - 24)" for n :: nat
  have p: "p (p n) = n" "p n < 32" if "n < 32" for n using that by (auto simp: p_def)
  have bit: "bit (bswap_32 v) n = bit v (p n)" if "n < 32" for n using that by (simp add: bit_bswap_32 p_def)
  have "{n. n < 32 \<and> bit (bswap_32 v) n} = p ` {n. n < 32 \<and> bit v n}"
    by (auto simp: p bit intro: image_eqI [of n p "p n" for n])
  moreover have "inj_on p {n. n < 32 \<and> bit v n}" by (rule inj_on_inverseI [of _ p]) (simp add: p)
  ultimately have "card {n. n < 32 \<and> bit (bswap_32 v) n} = card {n. n < 32 \<and> bit v n}" by (simp only: card_image)
  then show ?thesis by (metis CountBytes_card word_unat_eq_iff)
qed

lemma CountBytes_netmask:
  assumes "k \<le> 32"
  shows "unat (CountBytes (NOT (mask k) :: u32)) = 32 - k"
proof -
  have "{i. i < 32 \<and> bit (NOT (mask k) :: u32) i} = {k..<32}" by (auto simp: bit_simps)
  then show ?thesis by (simp add: CountBytes_card)
qed

lemma CountBytes_onLE: "CountBytes (byteswapOnLittleEndian big bswap_32 v) = CountBytes v"
  by (simp add: byteswapOnLittleEndian_def CountBytes_bswap)

definition IPv4_host :: "bool \<Rightarrow> sockaddr_in \<Rightarrow> u32" where
  \<comment> \<open>the address as a number\<close>
  "IPv4_host big a = byteswapOnLittleEndian big bswap_32 (s_addr a)"

text \<open>
  Addresses are compared as byte strings: \<^verbatim>\<open>operator<\<close> is the lexicographic order of the
  compared bytes (the shorter first when one begins the other), exactly one of \<open>a < b\<close>, \<open>a = b\<close>
  and \<open>b < a\<close> holds, and \<^verbatim>\<open>!=\<close> is the negation of \<^verbatim>\<open>==\<close>.
\<close>

theorem addr_less_lexicographic:
  "(addr_less big a b \<longleftrightarrow> addr_key big a < addr_key big b)
   \<and> (addr_equal big a b \<longleftrightarrow> addr_key big a = addr_key big b)
   \<and> (addr_equal big a b \<longleftrightarrow> \<not> (addr_less big a b \<or> addr_less big b a))
   \<and> \<not> (addr_less big a b \<and> addr_less big b a)
   \<and> (addr_not_equal big a b \<longleftrightarrow> addr_less big a b \<or> addr_less big b a)"
  by (auto simp: addr_less_key addr_equal_key addr_not_equal_def)

text \<open>
  For a prefix of 2 to 32 bits \<open>broadcastAddress\<close> sets the host part of the address and
  \<open>subnetMask\<close> has exactly that many ones (what \<open>GetInterfaceAddresses\<close> counts), the port is
  kept; \<open>networdAddress\<close>, with the same mask, keeps the \<^emph>\<open>host\<close> part instead of the network part.
\<close>

theorem IPv4_subnet:
  assumes p: "2 \<le> unat p" "unat p \<le> 32"
  shows "\<exists>b n m.
    IPv4_broadcastAddress big p a = Inr (Some b) \<and> IPv4_host big b = IPv4_host big a OR mask (32 - unat p)
    \<and> IPv4_networdAddress big p a = Inr (Some n) \<and> IPv4_host big n = IPv4_host big a AND mask (32 - unat p)
    \<and> IPv4_subnetMask big p = Inr m \<and> IPv4_host big m = NOT (mask (32 - unat p)) \<and> CountBytes (s_addr m) = p
    \<and> IPv4_getPort big b = IPv4_getPort big a \<and> IPv4_getPort big n = IPv4_getPort big a"
proof -
  let ?m = "byteswapOnLittleEndian big bswap_32 (mask (32 - unat p))"
  have "CountBytes (NOT ?m) = p"
    using CountBytes_netmask [of "32 - unat p"] p
    by (simp add: CountBytes_onLE word_unat_eq_iff flip: onLE_bitwise)
  then show ?thesis
    using p
    by (intro exI [of _ "a\<lparr>s_addr := s_addr a OR ?m\<rparr>"] exI [of _ "a\<lparr>s_addr := s_addr a AND ?m\<rparr>"]
              exI [of _ "\<lparr>sin_port = 0, s_addr = NOT ?m, sin_zero = replicate 8 0\<rparr>"])
       (simp_all add: IPv4_broadcastAddress_def IPv4_networdAddress_def IPv4_subnetMask_def CreateMask32_mask
                      IPv4_host_def onLE_bitwise onLE_inverse IPv4_getPort_def)
qed

theorem IPv4_subnet_witness:
  "\<exists>b n. IPv4_broadcastAddress False 24 (IPv4_new False 0xC0A80F80 80) = Inr (Some b) \<and> IPv4_host False b = 0xC0A80FFF
     \<and> IPv4_networdAddress False 24 (IPv4_new False 0xC0A80F80 80) = Inr (Some n) \<and> IPv4_host False n = 0x80"
proof -
  have "IPv4_host False (IPv4_new False 0xC0A80F80 80) = 0xC0A80F80"
    by (simp only: IPv4_host_def IPv4_new_def sockaddr_in.select_convs onLE_inverse)
  then show ?thesis
    using IPv4_subnet [of 24 False "IPv4_new False 0xC0A80F80 80"] by (auto simp: mask_eq_exp_minus_1)
qed

section \<open>What is printed is looked up again\<close>

lemma find_char_eq_None: "find_char c xs = None \<longleftrightarrow> c \<notin> set xs"
  by (induction xs) auto

lemma digits_not: "58 \<notin> set (nat_digits n)" "93 \<notin> set (nat_digits n)" "91 \<notin> set (nat_digits n)"
  using nat_digits_digits [of "58 :: u8" n] nat_digits_digits [of "93 :: u8" n] nat_digits_digits [of "91 :: u8" n]
  by (auto simp: is_digit_def)

lemma stoi_nat_digits: "n < 2 ^ 31 \<Longrightarrow> stoi (nat_digits n) = Inr (int n)"
  using stoi_int_to_string [of "int n"] by (simp add: int_to_string_def)

lemma split_host_colon:
  assumes "58 \<notin> set node" "58 \<notin> set service" "node \<noteq> []" "hd node \<noteq> 91"
  shows "split_host (node @ 58 # service) = (node, Some service)"
  using assms by (simp add: split_host_def split_brackets_def split_colon_def find_char_first find_char_none)

lemma split_host_brackets:
  assumes "93 \<notin> set node" "node \<noteq> []"
  shows "split_host (91 # node @ 93 # 58 # service) = (node, Some service)"
  using assms by (simp add: split_host_def split_brackets_def find_char_first)

lemma hex_digits_chars: "b \<in> set (hex_digits n) \<Longrightarrow> 48 \<le> unat b \<and> unat b \<le> 102 \<and> b \<noteq> 93 \<and> b \<noteq> 91"
proof (induction n rule: hex_digits.induct)
  case (1 n)
  have digit: "unat (of_nat (if d < 10 then 48 + d else 87 + d) :: u8) = (if d < 10 then 48 + d else 87 + d)" if "d < 16" for d
    using that by (simp add: unat_of_nat del: of_nat_add)
  have char: "48 \<le> unat b \<and> unat b \<le> 102 \<and> b \<noteq> 93 \<and> b \<noteq> 91"
    if "b = of_nat (if d < 10 then 48 + d else 87 + d)" "d < 16" for b :: u8 and d
    using digit [OF that(2)] that by (auto simp: word_unat_eq_iff simp del: of_nat_add split: if_splits)
  show ?case
    using 1 char [of b n] char [of b "n mod 16"]
    by (subst (asm) hex_digits.simps) (auto split: if_splits simp del: of_nat_add)
qed

lemma hex_digits_nonempty [simp]: "hex_digits n \<noteq> []"
  by (subst hex_digits.simps) simp

lemma str_chars: "str '':'' = [58]" "str ''.'' = [46]" "str ''['' = [91]" "str '']:'' = [93, 58]" "str ''::'' = [58, 58]"
  by (simp_all add: str_def of_char_def)

lemma groups_Cons:
  "IPv6_groups big before (a # addr) used =
     (let skip = (before = Some 0 \<and> \<not> used); g = IPv6_groups big (Some a) addr (used \<or> skip)
      in if a = 0 \<and> \<not> used then IPv6_groups big (Some a) addr used
         else ((if skip then [58] else []) @ (if before \<noteq> None then [58] else [])
               @ hex_digits (unat (byteswapOnLittleEndian big bswap_16 a)) @ fst g, snd g))"
  by (simp add: Let_def str_chars split: prod.split)

lemma groups_chars: "93 \<notin> set (fst (IPv6_groups big before addr used))"
proof (induction addr arbitrary: before used)
  case (Cons a addr)
  have "93 \<notin> set (hex_digits n)" for n using hex_digits_chars [of 93 n] by auto
  with Cons show ?case unfolding groups_Cons Let_def by simp
qed simp

lemma groups_empty: "fst (IPv6_groups big before addr used) = [] \<Longrightarrow> (\<forall>a \<in> set addr. a = 0) \<and> snd (IPv6_groups big before addr used) = used"
proof (induction addr arbitrary: before used)
  case (Cons a addr)
  then show ?case unfolding groups_Cons Let_def by (simp split: if_splits)
qed simp

lemma IPv4_insert_node:
  obtains node where "IPv4_insert big x = node @ 58 # nat_digits (unat (byteswapOnLittleEndian big bswap_16 (sin_port x)))"
    "node \<noteq> []" "58 \<notin> set node" "hd node \<noteq> 91"
proof -
  define d where "d n = nat_digits (unat (drop_bit n (byteswapOnLittleEndian big bswap_32 (s_addr x)) AND 0xff))" for n
  have d: "58 \<notin> set (d n)" "91 \<notin> set (d n)" "d n \<noteq> []" for n by (simp_all add: d_def digits_not)
  have "hd (d 24 @ r) \<noteq> 91" for r using d [of 24] by (cases "d 24") auto
  moreover have "IPv4_insert big x = (d 24 @ 46 # d 16 @ 46 # d 8 @ 46 # d 0)
      @ 58 # nat_digits (unat (byteswapOnLittleEndian big bswap_16 (sin_port x)))"
    by (simp add: IPv4_insert_def Let_def str_chars d_def)
  ultimately show thesis using d by (intro that [of "d 24 @ 46 # d 16 @ 46 # d 8 @ 46 # d 0"]) auto
qed

lemma IPv6_insert_node:
  obtains node where "IPv6_insert big x = 91 # node @ 93 # 58 # nat_digits (unat (byteswapOnLittleEndian big bswap_16 (sin6_port x)))"
    "node \<noteq> []" "93 \<notin> set node"
proof -
  define addr where "addr = map (\<lambda>i. load16 big (s6_addr x ! (2 * i)) (s6_addr x ! (2 * i + 1))) [0..<8]"
  define g where "g = IPv6_groups big None addr False"
  let ?node = "fst g @ (if \<not> snd g \<and> addr ! 7 = 0 then [58, 58] else [])"
  have "addr ! 7 \<in> set addr" by (rule nth_mem) (simp add: addr_def)
  then have "?node \<noteq> []" using groups_empty [of big None addr False] by (auto simp: g_def)
  moreover have "93 \<notin> set ?node" using groups_chars [of big None addr False] by (simp add: g_def)
  moreover have "IPv6_insert big x = 91 # ?node @ 93 # 58 # nat_digits (unat (byteswapOnLittleEndian big bswap_16 (sin6_port x)))"
    unfolding IPv6_insert_def Let_def addr_def [symmetric] g_def [symmetric] split_beta str_chars by simp
  ultimately show thesis by (rule that [rotated])
qed



text \<open>
  A plain IPv6 literal is not understood: a host that holds a second colon and no bracket is
  handed to the resolver as a whole, together with a service that begins with the first colon,
  so that a resolver refusing such services makes \<open>Lookup\<close> fail.
\<close>

theorem plain_ipv6_gets_service:
  assumes "hd (node @ [58]) \<noteq> 91" "58 \<notin> set node" "58 \<in> set r"
  shows "split_host (node @ 58 # r) = (node @ 58 # r, Some (58 # r))
     \<and> ((\<forall>h s f t p. getaddrinfo h (Some (58 # s)) f t p = None)
         \<longrightarrow> addr_Lookup getaddrinfo result (node @ 58 # r) family socktype protocol = (False, result))"
proof -
  have "find_char 58 r \<noteq> None" using assms(3) by (simp add: find_char_eq_None)
  moreover have "split_brackets (node @ 58 # r) = ([], None)"
    using assms(1) by (cases node) (simp_all add: split_brackets_def)
  ultimately have "split_host (node @ 58 # r) = (node @ 58 # r, Some (58 # r))"
    using assms(2) by (auto simp: split_host_def split_colon_def find_char_first)
  then show ?thesis by (simp add: addr_Lookup_def c_str_def)
qed

theorem plain_ipv6_gets_service_witness:
  "split_host (str ''fe80::1'') = (str ''fe80::1'', Some (str ''::1''))
   \<and> addr_Lookup (\<lambda>node service f t p. if service = None then Some [Some (SA_in6 IPv6_new)] else None) []
       (str ''fe80::1'') AF_UNSPEC 1 0 = (False, [])"
proof -
  have "str ''fe80::1'' = str ''fe80'' @ 58 # str '':1''" "str ''::1'' = 58 # str '':1''"
    "hd (str ''fe80'' @ [58]) \<noteq> 91" "58 \<notin> set (str ''fe80'')" "58 \<in> set (str '':1'')"
    by (simp_all add: str_def of_char_def)
  then show ?thesis
    using plain_ipv6_gets_service [of "str ''fe80''" "str '':1''"
        "\<lambda>node service f t p. if service = None then Some [Some (SA_in6 IPv6_new)] else None" "[]" AF_UNSPEC 1 0]
    by simp
qed

text \<open>
  The constructor of \<open>UnixAddress\<close> and \<open>getPath\<close> agree: a path without zero bytes, not empty,
  that fits the array with its ending zero, is given back unchanged, an abstract path (a leading zero byte) is given back with that byte
  written as a backslash and a zero digit, and a longer path is refused.
\<close>

theorem unix_path_roundtrip:
  "(path \<noteq> [] \<and> 0 \<notin> set path \<and> length path < 108 \<longrightarrow>
      (\<exists>a. UnixAddress_new path = Inr a \<and> UnixAddress_getPath a = path \<and> getAddrLen (UnixAddress a) = length path + 3))
   \<and> (length path < 108 \<longrightarrow>
      (\<exists>a. UnixAddress_new (0 # path) = Inr a \<and> UnixAddress_getPath a = [92, 48] @ path
           \<and> getAddrLen (UnixAddress a) = length path + 3))
   \<and> (108 \<le> length path \<longrightarrow> UnixAddress_new (0 # path) = Inl PathTooLong)
   \<and> (108 \<le> length path \<and> hd path \<noteq> 0 \<longrightarrow> UnixAddress_new path = Inl PathTooLong)"
proof (intro conjI impI)
  assume p: "path \<noteq> [] \<and> 0 \<notin> set path \<and> length path < 108"
  then have "takeWhile (\<lambda>b. b \<noteq> 0) (path @ 0 # r) = path" for r by (subst takeWhile_append2) auto
  with p show "\<exists>a. UnixAddress_new path = Inr a \<and> UnixAddress_getPath a = path \<and> getAddrLen (UnixAddress a) = length path + 3"
    by (cases path)
       (auto simp: UnixAddress_new_def UnixAddress_getPath_def SUN_PATH_def OFFSETOF_PATH_def unat_of_nat Let_def
         simp del: of_nat_add of_nat_Suc)
next
  assume "length path < 108"
  then show "\<exists>a. UnixAddress_new (0 # path) = Inr a \<and> UnixAddress_getPath a = [92, 48] @ path
      \<and> getAddrLen (UnixAddress a) = length path + 3"
    by (auto simp: UnixAddress_new_def UnixAddress_getPath_def SUN_PATH_def OFFSETOF_PATH_def unat_of_nat Let_def
        simp del: of_nat_add of_nat_Suc)
qed (auto simp: UnixAddress_new_def SUN_PATH_def Let_def)

theorem unix_path_roundtrip_witness:
  "\<exists>a. UnixAddress_new (str ''/tmp/s'') = Inr a \<and> UnixAddress_getPath a = str ''/tmp/s'' \<and> getAddrLen (UnixAddress a) = 9"
proof -
  have "str ''/tmp/s'' \<noteq> [] \<and> 0 \<notin> set (str ''/tmp/s'') \<and> length (str ''/tmp/s'') < 108" "length (str ''/tmp/s'') + 3 = 9"
    by (simp_all add: str_def of_char_def)
  then show ?thesis using unix_path_roundtrip [of "str ''/tmp/s''"] by auto
qed

section \<open>IPv6 prefixes\<close>

definition IPv6_bit :: "bytes \<Rightarrow> nat \<Rightarrow> bool" where
  \<comment> \<open>bit \<open>n\<close> of the address, the most significant is bit 0\<close>
  "IPv6_bit b n = bit (b ! (n div 8)) (7 - n mod 8)"

lemma CreateMask8_mask: "r < 8 \<Longrightarrow> bit (CreateMask8 r) k \<longleftrightarrow> k < 8 \<and> k < 8 - r"
  by (auto simp: CreateMask8_def push_bit_of_1 bit_simps simp flip: mask_eq_exp_minus_1)

lemma IPv6_bit_split:
  assumes "i < 16" "n < 128" "length b = i"
  shows "IPv6_bit (b @ x # replicate (15 - i) y) n =
    (if n div 8 < i then bit (b ! (n div 8)) (7 - n mod 8) else if n div 8 = i then bit x (7 - n mod 8) else bit y (7 - n mod 8))"
  using assms by (auto simp: IPv6_bit_def nth_append nth_Cons')

lemma mask_position: "i = p div 8 \<Longrightarrow> n div 8 = i \<Longrightarrow> 7 - n mod 8 < 8 - p mod 8 \<longleftrightarrow> p \<le> (n :: nat)"
  using div_mult_mod_eq [of n 8] div_mult_mod_eq [of p 8] mod_less_divisor [of 8 n] mod_less_divisor [of 8 p] by linarith

text \<open>
  The IPv6 prefix operations work exactly for prefixes below 128: \<open>broadcastAddress\<close> sets
  every bit from the prefix on and keeps those before, \<open>subnetMask\<close> has exactly the first
  \<open>prefix_len\<close> bits; a prefix of 128 or more, the usual 128 of a host route included, indexes the 16 bytes out of bounds.
\<close>

theorem IPv6_prefix_bounds:
  assumes "length (s6_addr a) = 16"
  shows "(128 \<le> unat p \<longrightarrow>
            IPv6_broadcastAddress p a = Inl IndexOutOfBounds \<and> IPv6_networdAddress p a = Inl IndexOutOfBounds
            \<and> IPv6_subnetMask p = Inl IndexOutOfBounds)
     \<and> (unat p < 128 \<longrightarrow>
          (\<exists>b m. IPv6_broadcastAddress p a = Inr b \<and> length (s6_addr b) = 16
               \<and> IPv6_subnetMask p = Inr m \<and> length (s6_addr m) = 16
               \<and> (\<forall>n < 128. IPv6_bit (s6_addr b) n = (IPv6_bit (s6_addr a) n \<or> unat p \<le> n))
               \<and> (\<forall>n < 128. IPv6_bit (s6_addr m) n = (n < unat p))))"
proof (intro conjI impI)
  assume p: "unat p < 128"
  let ?i = "unat p div 8"
  let ?b = "take ?i (s6_addr a) @ [s6_addr a ! ?i OR CreateMask8 (unat p mod 8)] @ replicate (15 - ?i) 0xff"
  let ?m = "replicate ?i 0xff @ [NOT (CreateMask8 (unat p mod 8))] @ replicate (15 - ?i) 0"
  have i: "?i < 16" using p by simp
  have bits: "IPv6_bit ?b n = (IPv6_bit (s6_addr a) n \<or> unat p \<le> n)" "IPv6_bit ?m n = (n < unat p)" if n: "n < 128" for n
  proof -
    have "(0xff :: u8) = - 1" by simp
    then have ff: "bit (0xff :: u8) (7 - n mod 8)" by (simp only: bit_minus_1_iff possible_bit_word) simp
    have b: "IPv6_bit ?b n = (if n div 8 < ?i then IPv6_bit (s6_addr a) n
        else if n div 8 = ?i then IPv6_bit (s6_addr a) n \<or> 7 - n mod 8 < 8 - unat p mod 8 else True)"
      using IPv6_bit_split [OF i n, of "take ?i (s6_addr a)" "s6_addr a ! ?i OR CreateMask8 (unat p mod 8)" "0xff"] assms i ff
      by (simp add: IPv6_bit_def bit_or_iff CreateMask8_mask)
    have m: "IPv6_bit ?m n = (if n div 8 < ?i then True else if n div 8 = ?i then \<not> 7 - n mod 8 < 8 - unat p mod 8 else False)"
      using IPv6_bit_split [OF i n, of "replicate ?i 0xff" "NOT (CreateMask8 (unat p mod 8))" 0] ff
      by (simp add: bit_not_iff CreateMask8_mask)
    have order: "n div 8 < ?i \<Longrightarrow> n < unat p" "\<not> n div 8 < ?i \<Longrightarrow> n div 8 \<noteq> ?i \<Longrightarrow> unat p \<le> n"
      using div_le_mono [of "unat p" n 8] div_le_mono [of n "unat p" 8] by (fastforce simp: not_less not_le)+
    have eq: "n div 8 = ?i \<Longrightarrow> 7 - n mod 8 < 8 - unat p mod 8 \<longleftrightarrow> unat p \<le> n" by (rule mask_position) simp_all
    show "IPv6_bit ?b n = (IPv6_bit (s6_addr a) n \<or> unat p \<le> n)" unfolding b using order eq by auto
    show "IPv6_bit ?m n = (n < unat p)" unfolding m using order eq by auto
  qed
  show "\<exists>b m. IPv6_broadcastAddress p a = Inr b \<and> length (s6_addr b) = 16
      \<and> IPv6_subnetMask p = Inr m \<and> length (s6_addr m) = 16
      \<and> (\<forall>n < 128. IPv6_bit (s6_addr b) n = (IPv6_bit (s6_addr a) n \<or> unat p \<le> n))
      \<and> (\<forall>n < 128. IPv6_bit (s6_addr m) n = (n < unat p))"
    using bits i assms
    by (intro exI [of _ "a\<lparr>s6_addr := ?b\<rparr>"] exI [of _ "IPv6_new\<lparr>s6_addr := ?m\<rparr>"])
       (simp add: IPv6_broadcastAddress_def IPv6_subnetMask_def Let_def)
qed (simp_all add: IPv6_broadcastAddress_def IPv6_networdAddress_def IPv6_subnetMask_def Let_def)

theorem IPv6_prefix_bounds_witness:
  "\<exists>b. IPv6_broadcastAddress 10 IPv6_new = Inr b \<and> \<not> IPv6_bit (s6_addr b) 9 \<and> IPv6_bit (s6_addr b) 10"
proof -
  have "length (s6_addr IPv6_new) = 16" "\<not> IPv6_bit (s6_addr IPv6_new) 9" by (simp_all add: IPv6_new_def IPv6_bit_def)
  then obtain b where "IPv6_broadcastAddress 10 IPv6_new = Inr b"
    and bits: "\<forall>n < 128. IPv6_bit (s6_addr b) n = (IPv6_bit (s6_addr IPv6_new) n \<or> unat (10 :: u32) \<le> n)"
    using IPv6_prefix_bounds [of IPv6_new 10] by auto
  then show ?thesis using \<open>\<not> IPv6_bit (s6_addr IPv6_new) 9\<close> bits [rule_format, of 9] bits [rule_format, of 10] by simp
qed

section \<open>The addresses of one interface\<close>

fun ifaddr_ok :: "ifaddr \<Rightarrow> bool" where
  \<comment> \<open>an address is there, an IP address with a mask of its family\<close>
  "ifaddr_ok i = (case ifa_addr i of
     None \<Rightarrow> False
   | Some (SA_in _) \<Rightarrow> (\<exists>m. ifa_netmask i = Some (SA_in m))
   | Some (SA_in6 _) \<Rightarrow> (\<exists>m. ifa_netmask i = Some (SA_in6 m))
   | Some (SA_other _ _) \<Rightarrow> True)"

definition ifaddr_entry :: "u16 \<Rightarrow> ifaddr \<Rightarrow> (Address \<times> u32) option" where
  "ifaddr_entry family i = (case (ifa_addr i, ifa_netmask i) of
     (Some (SA_in a), Some (SA_in m)) \<Rightarrow>
       if family = AF_UNSPEC \<or> family = AF_INET then Some (IPv4Address a, CountBytes (s_addr m)) else None
   | (Some (SA_in6 a), Some (SA_in6 m)) \<Rightarrow>
       if family = AF_UNSPEC \<or> family = AF_INET6 then Some (IPv6Address a, sum_list (map CountBytes (s6_addr m))) else None
   | _ \<Rightarrow> None)"

abbreviation add_entry :: "u16 \<Rightarrow> (bytes \<times> Address \<times> u32) list \<Rightarrow> ifaddr \<Rightarrow> (bytes \<times> Address \<times> u32) list" where
  "add_entry family m i \<equiv> (case ifaddr_entry family i of None \<Rightarrow> m | Some e \<Rightarrow> multimap_insert (ifa_name i) e m)"

lemma ifaddr_loop_ok:
  "\<forall>i \<in> set is'. ifaddr_ok i \<Longrightarrow> ifaddr_loop family is' result = Inr (foldl (add_entry family) result is')"
  by (induction is' arbitrary: result)
     (auto simp: ifaddr_entry_def ifa_prefix_def addr_Create_def IPv4_of_sockaddr_def split: option.splits sockaddr.splits)

lemma multimap_insert_keys: "set (map fst (multimap_insert k v m)) = insert k (set (map fst m))"
  by (induction k v m rule: multimap_insert.induct) auto

lemma multimap_insert_sorted: "sorted (map fst m) \<Longrightarrow> sorted (map fst (multimap_insert k v m))"
proof (induction k v m rule: multimap_insert.induct)
  case (2 k v k' v' m)
  then show ?case using multimap_insert_keys [of k v m] by fastforce
qed simp

lemma multimap_insert_filter:
  "sorted (map fst m) \<Longrightarrow>
     filter (\<lambda>(q, _). q = key) (multimap_insert k v m) = filter (\<lambda>(q, _). q = key) m @ (if k = key then [(k, v)] else [])"
proof (induction k v m rule: multimap_insert.induct)
  case (2 k v k' v' m)
  have "filter (\<lambda>(q, _). q = key) ((k', v') # m) = []" if "k < k'" "k = key"
  proof -
    have "k' \<le> q" if "(q, w) \<in> set ((k', v') # m)" for q w using 2(2) that by fastforce
    then show ?thesis using \<open>k < k'\<close> \<open>k = key\<close> by (fastforce simp: filter_empty_conv)
  qed
  then show ?case using 2 by auto
qed simp

lemma fold_entries:
  "sorted (map fst m) \<Longrightarrow>
     map snd (filter (\<lambda>(k, _). k = iface) (foldl (add_entry family) m is'))
     = map snd (filter (\<lambda>(k, _). k = iface) m) @ List.map_filter (ifaddr_entry family) (filter (\<lambda>i. ifa_name i = iface) is')"
  by (induction is' arbitrary: m)
     (auto simp: multimap_insert_filter multimap_insert_sorted List.map_filter_def split: option.splits)

text \<open>
  The addresses of one interface: when every entry of \<open>getifaddrs\<close> has an address, and IP
  addresses a mask of their family, \<open>GetInterfaceAddresses\<close> appends exactly the IP addresses of
  the named interface and the asked family, in the system's order, each with the number of ones
  of its mask, and (for a list empty before) returns whether there were any.
\<close>

theorem interface_addresses_exact:
  assumes ok: "\<forall>i \<in> set results. ifaddr_ok i" and name: "iface \<noteq> []" "iface \<noteq> str ''*''"
  shows "\<exists>found. GetInterfaceAddresses_of big (Some results) iface family result
            = Inr (found, result @ List.map_filter (ifaddr_entry family) (filter (\<lambda>i. ifa_name i = iface) results))
       \<and> (result = [] \<longrightarrow> found = (List.map_filter (ifaddr_entry family) (filter (\<lambda>i. ifa_name i = iface) results) \<noteq> []))"
proof -
  let ?m = "foldl (add_entry family) [] results"
  have "map snd (filter (\<lambda>(k, _). k = iface) ?m) = List.map_filter (ifaddr_entry family) (filter (\<lambda>i. ifa_name i = iface) results)"
    using fold_entries [of "[]"] by simp
  moreover have "GetInterfaceAddresses (Some results) family [] = Inr (?m \<noteq> [], ?m)"
    using ok by (simp add: GetInterfaceAddresses_def ifaddr_loop_ok)
  ultimately show ?thesis
    using name by (cases "?m = []") (auto simp: GetInterfaceAddresses_of_def Let_def)
qed

theorem interface_addresses_exact_witness:
  "GetInterfaceAddresses_of False
     (Some [\<lparr>ifa_name = str ''lo'', ifa_addr = Some (SA_in (IPv4_new False 0x7F000001 0)), ifa_netmask = Some (SA_in (IPv4_new False 0xFF000000 0))\<rparr>,
            \<lparr>ifa_name = str ''eth0'', ifa_addr = Some (SA_other 17 []), ifa_netmask = None\<rparr>])
     (str ''lo'') AF_INET [] = Inr (True, [(IPv4Address (IPv4_new False 0x7F000001 0), 8)])"
proof -
  have "CountBytes (s_addr (IPv4_new False 0xFF000000 0)) = 8" by code_simp
  moreover have "str ''lo'' \<noteq> []" "str ''lo'' \<noteq> str ''*''" "str ''eth0'' \<noteq> str ''lo''" by (simp_all add: str_def of_char_def)
  ultimately show ?thesis
    using interface_addresses_exact
      [of "[\<lparr>ifa_name = str ''lo'', ifa_addr = Some (SA_in (IPv4_new False 0x7F000001 0)), ifa_netmask = Some (SA_in (IPv4_new False 0xFF000000 0))\<rparr>,
            \<lparr>ifa_name = str ''eth0'', ifa_addr = Some (SA_other 17 []), ifa_netmask = None\<rparr>]" "str ''lo''" False AF_INET "[]"]
    by (auto simp: List.map_filter_simps ifaddr_entry_def)
qed

end
