(* ===== verification/Socket.thy ===== *)
theory Socket
  imports Address FdManager
begin

text \<open>
  \<^verbatim>\<open>util/socket.h\<close>, \<^verbatim>\<open>socket.cc\<close>: the class \<open>Socket\<close>.  The system
  calls, hooked or not, \<open>FdMgr\<close> and \<open>IOManager\<close> are the fields of the record \<open>sys\<close>,
  functions on a state the model does not look into.  A system call gives whether it returned 0, or the value it returned.
\<close>

section \<open>The system\<close>

datatype optval = OptInt int | OptTimeval int int

datatype io_call =
    Write_iov "bytes list"
  | Send bytes int
  | Sendmsg "bytes list" "Address option" int
  | Sendto bytes Address int
  | Recv nat int
  | Recvmsg "nat list" "Address option" int
  | Recvfrom nat Address int

record 'k sys =
  sys_socket :: "u16 \<Rightarrow> int \<Rightarrow> int \<Rightarrow> 'k \<Rightarrow> int \<times> 'k"
  sys_bind :: "int \<Rightarrow> Address \<Rightarrow> 'k \<Rightarrow> bool \<times> 'k"
  sys_listen :: "int \<Rightarrow> int \<Rightarrow> 'k \<Rightarrow> bool \<times> 'k"
  sys_connect :: "int \<Rightarrow> Address \<Rightarrow> 'k \<Rightarrow> bool \<times> 'k"
  sys_connect_with_timeout :: "int \<Rightarrow> Address \<Rightarrow> u64 \<Rightarrow> 'k \<Rightarrow> bool \<times> 'k"
  sys_accept :: "int \<Rightarrow> 'k \<Rightarrow> int \<times> 'k"
  sys_close :: "int \<Rightarrow> 'k \<Rightarrow> 'k"
  sys_io :: "int \<Rightarrow> io_call \<Rightarrow> 'k \<Rightarrow> (int \<times> bytes) \<times> 'k"
  sys_setsockopt :: "int \<Rightarrow> int \<Rightarrow> int \<Rightarrow> optval \<Rightarrow> 'k \<Rightarrow> bool \<times> 'k"
  sys_getsockopt :: "int \<Rightarrow> int \<Rightarrow> int \<Rightarrow> 'k \<Rightarrow> (int + int) \<times> 'k"            \<comment> \<open>\<open>Inl\<close>: \<^verbatim>\<open>errno\<close>\<close>
  sys_getsockname :: "int \<Rightarrow> Address \<Rightarrow> 'k \<Rightarrow> (Address \<times> u32) option"
  sys_getpeername :: "int \<Rightarrow> Address \<Rightarrow> 'k \<Rightarrow> (Address \<times> u32) option"
  fdmgr_get :: "int \<Rightarrow> 'k \<Rightarrow> (bool \<times> bool) option \<times> 'k"                     \<comment> \<open>\<open>isSocket\<close>, \<open>isClosed\<close>\<close>
  fdmgr_timeout :: "int \<Rightarrow> int \<Rightarrow> 'k \<Rightarrow> u64 option"                          \<comment> \<open>\<open>getTimeout\<close> of the descriptor's record\<close>
  iom_cancelEvent :: "int \<Rightarrow> u32 \<Rightarrow> 'k \<Rightarrow> bool \<times> 'k"
  iom_cancelAll :: "int \<Rightarrow> 'k \<Rightarrow> bool \<times> 'k"

definition SOCK_STREAM :: int where "SOCK_STREAM = 1"
definition SOCK_DGRAM :: int where "SOCK_DGRAM = 2"
definition SOL_SOCKET :: int where "SOL_SOCKET = 1"
definition SO_REUSEADDR :: int where "SO_REUSEADDR = 2"
definition SO_ERROR :: int where "SO_ERROR = 4"
definition IPPROTO_TCP :: int where "IPPROTO_TCP = 6"
definition TCP_NODELAY :: int where "TCP_NODELAY = 1"
definition SOMAXCONN :: int where "SOMAXCONN = 4096"

section \<open>\<open>Socket\<close>\<close>

record socket =
  m_sock :: int
  m_family :: u16
  m_type :: int
  m_protocol :: int
  m_isConnected :: bool
  m_localAddress :: "Address option"
  m_remoteAddress :: "Address option"

definition Socket_new :: "u16 \<Rightarrow> int \<Rightarrow> int \<Rightarrow> socket" where
  "Socket_new family ty protocol =
     \<lparr>m_sock = - 1, m_family = family, m_type = ty, m_protocol = protocol, m_isConnected = False,
      m_localAddress = None, m_remoteAddress = None\<rparr>"

definition isValid :: "'a socket_scheme \<Rightarrow> bool" where
  "isValid s = (m_sock s \<noteq> - 1)"

definition setOption :: "'k sys \<Rightarrow> int \<Rightarrow> int \<Rightarrow> optval \<Rightarrow> 'a socket_scheme \<Rightarrow> 'k \<Rightarrow> bool \<times> 'k" where
  "setOption sys level option v s k = sys_setsockopt sys (m_sock s) level option v k"

definition getOption :: "'k sys \<Rightarrow> int \<Rightarrow> int \<Rightarrow> 'a socket_scheme \<Rightarrow> 'k \<Rightarrow> (int + int) \<times> 'k" where
  "getOption sys level option s k = sys_getsockopt sys (m_sock s) level option k"

definition getError :: "'k sys \<Rightarrow> 'a socket_scheme \<Rightarrow> 'k \<Rightarrow> int \<times> 'k" where
  "getError sys s k = (case getOption sys SOL_SOCKET SO_ERROR s k of (Inl e, k1) \<Rightarrow> (e, k1) | (Inr e, k1) \<Rightarrow> (e, k1))"

definition timeval_of :: "int \<Rightarrow> optval" where
  \<comment> \<open>\<^verbatim>\<open>timeval{int(v / 1000), int(v % 1000 * 1000)}\<close>: division and remainder towards zero, cut to 32 bits\<close>
  "timeval_of v =
     OptTimeval (sint (word_of_int (sgn v * (\<bar>v\<bar> div 1000)) :: u32)) (sint (word_of_int (sgn v * (\<bar>v\<bar> mod 1000) * 1000) :: u32))"

definition getSendTimeout :: "'k sys \<Rightarrow> 'a socket_scheme \<Rightarrow> 'k \<Rightarrow> int" where
  "getSendTimeout sys s k = (case fdmgr_timeout sys (m_sock s) SO_SNDTIMEO k of Some v \<Rightarrow> sint v | None \<Rightarrow> - 1)"

definition setSendTimeout :: "'k sys \<Rightarrow> int \<Rightarrow> 'a socket_scheme \<Rightarrow> 'k \<Rightarrow> 'k" where
  "setSendTimeout sys v s k = snd (setOption sys SOL_SOCKET SO_SNDTIMEO (timeval_of v) s k)"

definition getRecvTimeout :: "'k sys \<Rightarrow> 'a socket_scheme \<Rightarrow> 'k \<Rightarrow> int" where
  "getRecvTimeout sys s k = (case fdmgr_timeout sys (m_sock s) SO_RCVTIMEO k of Some v \<Rightarrow> sint v | None \<Rightarrow> - 1)"

definition setRecvTimeout :: "'k sys \<Rightarrow> int \<Rightarrow> 'a socket_scheme \<Rightarrow> 'k \<Rightarrow> 'k" where
  "setRecvTimeout sys v s k = snd (setOption sys SOL_SOCKET SO_RCVTIMEO (timeval_of v) s k)"

definition initSock :: "'k sys \<Rightarrow> 'a socket_scheme \<Rightarrow> 'k \<Rightarrow> 'k" where
  "initSock sys s k =
     (let k1 = snd (setOption sys SOL_SOCKET SO_REUSEADDR (OptInt 1) s k)
      in if m_type s = SOCK_STREAM then snd (setOption sys IPPROTO_TCP TCP_NODELAY (OptInt 1) s k1) else k1)"

definition newSock :: "'k sys \<Rightarrow> 'a socket_scheme \<Rightarrow> 'k \<Rightarrow> 'a socket_scheme \<times> 'k" where
  "newSock sys s k =
     (case sys_socket sys (m_family s) (m_type s) (m_protocol s) k of (fd, k1) \<Rightarrow>
        (let s1 = s\<lparr>m_sock := fd\<rparr> in if fd \<noteq> - 1 then (s1, initSock sys s1 k1) else (s1, k1)))"

definition CreateTCP :: "Address \<Rightarrow> socket" where
  "CreateTCP address = Socket_new (getFamily address) SOCK_STREAM 0"

definition CreateUDP :: "'k sys \<Rightarrow> Address \<Rightarrow> 'k \<Rightarrow> socket \<times> 'k" where
  "CreateUDP sys address k =
     (case newSock sys (Socket_new (getFamily address) SOCK_DGRAM 0) k of (s, k1) \<Rightarrow> (s\<lparr>m_isConnected := True\<rparr>, k1))"

definition CreateTCPSocket :: socket where "CreateTCPSocket = Socket_new AF_INET SOCK_STREAM 0"

definition CreateUDPSocket :: "'k sys \<Rightarrow> 'k \<Rightarrow> socket \<times> 'k" where
  "CreateUDPSocket sys k =
     (case newSock sys (Socket_new AF_INET SOCK_DGRAM 0) k of (s, k1) \<Rightarrow> (s\<lparr>m_isConnected := True\<rparr>, k1))"

definition CreateTCPSocket6 :: socket where "CreateTCPSocket6 = Socket_new AF_INET6 SOCK_STREAM 0"

definition CreateUDPSocket6 :: "'k sys \<Rightarrow> 'k \<Rightarrow> socket \<times> 'k" where
  "CreateUDPSocket6 sys k =
     (case newSock sys (Socket_new AF_INET6 SOCK_DGRAM 0) k of (s, k1) \<Rightarrow> (s\<lparr>m_isConnected := True\<rparr>, k1))"

definition CreateUnixTCPSocket :: socket where "CreateUnixTCPSocket = Socket_new AF_UNIX SOCK_STREAM 0"

definition CreateUnixUDPSocket :: socket where
  \<comment> \<open>without a descriptor, unlike the other two\<close>
  "CreateUnixUDPSocket = Socket_new AF_UNIX SOCK_DGRAM 0"

definition unknown_address :: "u16 \<Rightarrow> Address" where
  "unknown_address family = (case UnknownAddress_new family of (f, bs) \<Rightarrow> UnknownAddress f bs)"

definition fresh_address :: "bool \<Rightarrow> u16 \<Rightarrow> Address" where
  "fresh_address big family =
     (if family = AF_INET then IPv4Address (IPv4_new big 0 0)
      else if family = AF_INET6 then IPv6Address IPv6_new
      else if family = AF_UNIX then UnixAddress UnixAddress_default
      else unknown_address family)"

fun set_addr_len :: "u32 \<Rightarrow> Address \<Rightarrow> Address" where
  "set_addr_len n (UnixAddress u) = UnixAddress (UnixAddress_setAddrLen n u)"
| "set_addr_len n a = a"

definition getRemoteAddress :: "'k sys \<Rightarrow> bool \<Rightarrow> 'a socket_scheme \<Rightarrow> 'k \<Rightarrow> Address \<times> 'a socket_scheme" where
  "getRemoteAddress sys big s k =
     (case m_remoteAddress s of
        Some a \<Rightarrow> (a, s)
      | None \<Rightarrow>
          (case sys_getpeername sys (m_sock s) (fresh_address big (m_family s)) k of
             None \<Rightarrow> (unknown_address (m_family s), s)
           | Some (a, addrlen) \<Rightarrow>
               (let a1 = (if m_family s = AF_UNIX then set_addr_len addrlen a else a)
                in (a1, s\<lparr>m_remoteAddress := Some a1\<rparr>))))"

definition getLocalAddress :: "'k sys \<Rightarrow> bool \<Rightarrow> 'a socket_scheme \<Rightarrow> 'k \<Rightarrow> Address \<times> 'a socket_scheme" where
  "getLocalAddress sys big s k =
     (case m_localAddress s of
        Some a \<Rightarrow> (a, s)
      | None \<Rightarrow>
          (case sys_getsockname sys (m_sock s) (fresh_address big (m_family s)) k of
             None \<Rightarrow> (unknown_address (m_family s), s)
           | Some (a, addrlen) \<Rightarrow>
               (let a1 = (if m_family s = AF_UNIX then set_addr_len addrlen a else a)
                in (a1, s\<lparr>m_localAddress := Some a1\<rparr>))))"

definition Socket_close :: "'k sys \<Rightarrow> 'a socket_scheme \<Rightarrow> 'k \<Rightarrow> bool \<times> 'a socket_scheme \<times> 'k" where
  \<comment> \<open>the addresses stay\<close>
  "Socket_close sys s k =
     (if \<not> m_isConnected s \<and> m_sock s = - 1 then (True, s, k)
      else
        (let s1 = s\<lparr>m_isConnected := False\<rparr>
         in if m_sock s1 \<noteq> - 1 then (False, s1\<lparr>m_sock := - 1\<rparr>, sys_close sys (m_sock s1) k) else (False, s1, k)))"

definition Socket_destroy :: "'k sys \<Rightarrow> 'a socket_scheme \<Rightarrow> 'k \<Rightarrow> 'k" where
  "Socket_destroy sys s k = snd (snd (Socket_close sys s k))"

definition Socket_init :: "'k sys \<Rightarrow> bool \<Rightarrow> int \<Rightarrow> 'a socket_scheme \<Rightarrow> 'k \<Rightarrow> bool \<times> 'a socket_scheme \<times> 'k" where
  "Socket_init sys big fd s k =
     (case fdmgr_get sys fd k of
        (Some (isSocket, isClosed), k1) \<Rightarrow>
          (if isSocket \<and> \<not> isClosed
           then (let s1 = s\<lparr>m_sock := fd, m_isConnected := True\<rparr>;
                     k2 = initSock sys s1 k1;
                     s2 = snd (getLocalAddress sys big s1 k2);
                     s3 = snd (getRemoteAddress sys big s2 k2)
                 in (True, s3, k2))
           else (False, s, k1))
      | (None, k1) \<Rightarrow> (False, s, k1))"

definition Socket_accept :: "'k sys \<Rightarrow> bool \<Rightarrow> 'a socket_scheme \<Rightarrow> 'k \<Rightarrow> socket option \<times> 'k" where
  "Socket_accept sys big s k =
     (let sock = Socket_new (m_family s) (m_type s) (m_protocol s)
      in case sys_accept sys (m_sock s) k of (newsock, k1) \<Rightarrow>
           (if newsock = - 1 then (None, Socket_destroy sys sock k1)
            else case Socket_init sys big newsock sock k1 of
                   (True, sock1, k2) \<Rightarrow> (Some sock1, k2)
                 | (False, sock1, k2) \<Rightarrow> (None, Socket_destroy sys sock1 k2)))"

definition NO_TIMEOUT :: u64 where "NO_TIMEOUT = - 1"

definition ensure_valid :: "'k sys \<Rightarrow> 'a socket_scheme \<Rightarrow> 'k \<Rightarrow> 'a socket_scheme \<times> 'k" where
  "ensure_valid sys s k = (if \<not> isValid s then newSock sys s k else (s, k))"

definition connect_valid ::
    "'k sys \<Rightarrow> bool \<Rightarrow> Address \<Rightarrow> u64 \<Rightarrow> 'a socket_scheme \<Rightarrow> 'k \<Rightarrow> bool \<times> 'a socket_scheme \<times> 'k" where
  \<comment> \<open>\<open>connect\<close> once the socket has a descriptor\<close>
  "connect_valid sys big addr timeout_ms s k =
     (case (if timeout_ms = NO_TIMEOUT then sys_connect sys (m_sock s) addr k
            else sys_connect_with_timeout sys (m_sock s) addr timeout_ms k) of
        (False, k1) \<Rightarrow> (case Socket_close sys s k1 of (_, s1, k2) \<Rightarrow> (False, s1, k2))
      | (True, k1) \<Rightarrow>
          (let s1 = s\<lparr>m_isConnected := True\<rparr>;
               s2 = snd (getRemoteAddress sys big s1 k1);
               s3 = snd (getLocalAddress sys big s2 k1)
           in (True, s3, k1)))"

definition Socket_connect ::
    "'k sys \<Rightarrow> bool \<Rightarrow> Address \<Rightarrow> u64 \<Rightarrow> 'a socket_scheme \<Rightarrow> 'k \<Rightarrow> bool \<times> 'a socket_scheme \<times> 'k" where
  "Socket_connect sys big addr timeout_ms s k =
     (case ensure_valid sys (s\<lparr>m_remoteAddress := Some addr\<rparr>) k of (s1, k1) \<Rightarrow>
        (if \<not> isValid s1 then (False, s1, k1)
         else if getFamily addr \<noteq> m_family s1 then (False, s1, k1)
         else connect_valid sys big addr timeout_ms s1 k1))"

definition Socket_reconnect :: "'k sys \<Rightarrow> bool \<Rightarrow> u64 \<Rightarrow> 'a socket_scheme \<Rightarrow> 'k \<Rightarrow> bool \<times> 'a socket_scheme \<times> 'k" where
  "Socket_reconnect sys big timeout_ms s k =
     (case m_remoteAddress s of
        None \<Rightarrow> (False, s, k)
      | Some a \<Rightarrow> Socket_connect sys big a timeout_ms (s\<lparr>m_localAddress := None\<rparr>) k)"

fun is_unix :: "Address \<Rightarrow> bool" where
  "is_unix (UnixAddress _) = True" | "is_unix _ = False"

definition unix_in_use :: "'k sys \<Rightarrow> bool \<Rightarrow> Address \<Rightarrow> 'k \<Rightarrow> bool \<times> 'k" where
  \<comment> \<open>\<open>bind\<close> tries to connect to the path first; the probe is destroyed\<close>
  "unix_in_use sys big addr k =
     (case Socket_connect sys big addr NO_TIMEOUT CreateUnixTCPSocket k of (b, s, k1) \<Rightarrow> (b, Socket_destroy sys s k1))"

definition Socket_bind :: "'k sys \<Rightarrow> bool \<Rightarrow> Address \<Rightarrow> 'a socket_scheme \<Rightarrow> 'k \<Rightarrow> bool \<times> 'a socket_scheme \<times> 'k" where
  "Socket_bind sys big addr s k =
     (case ensure_valid sys s k of (s1, k1) \<Rightarrow>
        (if getFamily addr \<noteq> m_family s1 then (False, s1, k1)
         else
           (case (if is_unix addr then unix_in_use sys big addr k1 else (False, k1)) of
              (True, k2) \<Rightarrow> (False, s1, k2)
            | (False, k2) \<Rightarrow>
                (case sys_bind sys (m_sock s1) addr k2 of
                   (False, k3) \<Rightarrow> (False, s1, k3)
                 | (True, k3) \<Rightarrow> (True, snd (getLocalAddress sys big s1 k3), k3)))))"

definition Socket_listen :: "'k sys \<Rightarrow> int \<Rightarrow> 'a socket_scheme \<Rightarrow> 'k \<Rightarrow> bool \<times> 'k" where
  "Socket_listen sys backlog s k = (if \<not> isValid s then (False, k) else sys_listen sys (m_sock s) backlog k)"

definition when_connected :: "'k sys \<Rightarrow> io_call \<Rightarrow> 'a socket_scheme \<Rightarrow> 'k \<Rightarrow> (int \<times> bytes) \<times> 'k" where
  "when_connected sys call s k = (if m_isConnected s then sys_io sys (m_sock s) call k else ((- 1, []), k))"

definition Socket_writev where "Socket_writev sys iov s k = when_connected sys (Write_iov iov) s k"
definition Socket_send where "Socket_send sys buffer flags s k = when_connected sys (Send buffer flags) s k"
definition Socket_send_iov where "Socket_send_iov sys buffers flags s k = when_connected sys (Sendmsg buffers None flags) s k"
definition Socket_sendTo where "Socket_sendTo sys buffer addr flags s k = when_connected sys (Sendto buffer addr flags) s k"
definition Socket_sendTo_iov where
  "Socket_sendTo_iov sys buffers addr flags s k = when_connected sys (Sendmsg buffers (Some addr) flags) s k"
definition Socket_recv where "Socket_recv sys n flags s k = when_connected sys (Recv n flags) s k"
definition Socket_recv_iov where "Socket_recv_iov sys ns flags s k = when_connected sys (Recvmsg ns None flags) s k"
definition Socket_recvFrom where "Socket_recvFrom sys n addr flags s k = when_connected sys (Recvfrom n addr flags) s k"
definition Socket_recvFrom_iov where
  "Socket_recvFrom_iov sys ns addr flags s k = when_connected sys (Recvmsg ns (Some addr) flags) s k"

definition cancelRead where "cancelRead sys s k = iom_cancelEvent sys (m_sock s) 1 k"
definition cancelWrite where "cancelWrite sys s k = iom_cancelEvent sys (m_sock s) 4 k"
definition cancelAccept where "cancelAccept sys s k = iom_cancelEvent sys (m_sock s) 1 k"
definition Socket_cancelAll where "Socket_cancelAll sys s k = iom_cancelAll sys (m_sock s) k"

definition Socket_dump :: "bool \<Rightarrow> bytes \<Rightarrow> 'a socket_scheme \<Rightarrow> bytes" where
  "Socket_dump big cls s =
     str ''['' @ cls @ str '' sock='' @ int_to_string (m_sock s)
     @ str '' is_connected='' @ (if m_isConnected s then str ''1'' else str ''0'')
     @ str '' family='' @ nat_digits (unat (m_family s)) @ str '' type='' @ int_to_string (m_type s)
     @ str '' protocol='' @ int_to_string (m_protocol s)
     @ (case m_localAddress s of None \<Rightarrow> [] | Some a \<Rightarrow> str '' local_address='' @ addr_toString big a)
     @ (case m_remoteAddress s of None \<Rightarrow> [] | Some a \<Rightarrow> str '' remote_address='' @ addr_toString big a)
     @ str '']''"

definition Socket_toString where "Socket_toString big s = Socket_dump big (str ''Socket'') s"

section \<open>Descriptors\<close>

text \<open>
  What the system promises of descriptors: \<open>opened\<close> is the set of those the process has open.
\<close>

locale descriptors =
  fixes sys :: "'k sys" and opened :: "'k \<Rightarrow> int set"
  assumes socket_opens: "sys_socket sys f t p k = (fd, k1) \<Longrightarrow>
      fd = - 1 \<and> opened k1 = opened k \<or> fd \<noteq> - 1 \<and> fd \<notin> opened k \<and> opened k1 = insert fd (opened k)"
    and accept_opens: "sys_accept sys l k = (fd, k1) \<Longrightarrow>
      fd = - 1 \<and> opened k1 = opened k \<or> fd \<noteq> - 1 \<and> fd \<notin> opened k \<and> opened k1 = insert fd (opened k)"
    and close_closes: "opened (sys_close sys fd k) = opened k - {fd}"
    and bind_keeps: "opened (snd (sys_bind sys fd a k)) = opened k"
    and listen_keeps: "opened (snd (sys_listen sys fd n k)) = opened k"
    and connect_keeps: "opened (snd (sys_connect sys fd a k)) = opened k"
      "opened (snd (sys_connect_with_timeout sys fd a ms k)) = opened k"
    and io_keeps: "opened (snd (sys_io sys fd call k)) = opened k"
    and setsockopt_keeps: "opened (snd (sys_setsockopt sys fd level option v k)) = opened k"
    and fdmgr_keeps: "opened (snd (fdmgr_get sys fd k)) = opened k"
    and cancel_keeps: "opened (snd (iom_cancelAll sys fd k)) = opened k"

definition own :: "'a socket_scheme \<Rightarrow> int set" where
  "own s = (if m_sock s = - 1 then {} else {m_sock s})"

datatype sock_op =
    OpBind Address | OpConnect Address u64 | OpReconnect u64 | OpListen int | OpClose | OpCall io_call
  | OpRecvTimeout int | OpSendTimeout int | OpLocalAddress | OpRemoteAddress

fun run_op :: "'k sys \<Rightarrow> bool \<Rightarrow> sock_op \<Rightarrow> 'a socket_scheme \<times> 'k \<Rightarrow> 'a socket_scheme \<times> 'k" where
  \<comment> \<open>the operations a user of a \<open>Socket\<close> can call\<close>
  "run_op sys big (OpBind a) (s, k) = snd (Socket_bind sys big a s k)"
| "run_op sys big (OpConnect a ms) (s, k) = snd (Socket_connect sys big a ms s k)"
| "run_op sys big (OpReconnect ms) (s, k) = snd (Socket_reconnect sys big ms s k)"
| "run_op sys big (OpListen n) (s, k) = (s, snd (Socket_listen sys n s k))"
| "run_op sys big OpClose (s, k) = snd (Socket_close sys s k)"
| "run_op sys big (OpCall call) (s, k) = (s, snd (when_connected sys call s k))"
| "run_op sys big (OpRecvTimeout v) (s, k) = (s, setRecvTimeout sys v s k)"
| "run_op sys big (OpSendTimeout v) (s, k) = (s, setSendTimeout sys v s k)"
| "run_op sys big OpLocalAddress (s, k) = (snd (getLocalAddress sys big s k), k)"
| "run_op sys big OpRemoteAddress (s, k) = (snd (getRemoteAddress sys big s k), k)"

lemma address_frame [simp]:
  "m_sock (snd (getRemoteAddress sys big s k)) = m_sock s" "m_sock (snd (getLocalAddress sys big s k)) = m_sock s"
  "m_isConnected (snd (getRemoteAddress sys big s k)) = m_isConnected s"
  "m_isConnected (snd (getLocalAddress sys big s k)) = m_isConnected s"
  "own (snd (getRemoteAddress sys big s k)) = own s" "own (snd (getLocalAddress sys big s k)) = own s"
  by (simp_all add: getRemoteAddress_def getLocalAddress_def own_def Let_def split: option.split prod.split)

lemma own_update [simp]:
  "own (s\<lparr>m_remoteAddress := a\<rparr>) = own s" "own (s\<lparr>m_localAddress := a\<rparr>) = own s" "own (s\<lparr>m_isConnected := b\<rparr>) = own s"
  "own (s\<lparr>m_sock := - 1\<rparr>) = {}"
  by (simp_all add: own_def)

context descriptors
begin

definition holds :: "int set \<Rightarrow> 'a socket_scheme \<Rightarrow> 'k \<Rightarrow> bool" where
  \<comment> \<open>besides \<open>base\<close> only the descriptor of the socket is open, and a connected socket has one\<close>
  "holds base s k \<longleftrightarrow> opened k = base \<union> own s \<and> own s \<inter> base = {} \<and> (m_isConnected s \<longrightarrow> m_sock s \<noteq> - 1)"

lemma options_keep [simp]:
  "opened (snd (setOption sys level option v s k)) = opened k"
  "opened (initSock sys s k) = opened k" "opened (setRecvTimeout sys n s k) = opened k" "opened (setSendTimeout sys n s k) = opened k"
  by (simp_all add: setOption_def initSock_def setRecvTimeout_def setSendTimeout_def Let_def setsockopt_keeps)

lemma holds_keep: "holds base s k \<Longrightarrow> opened k1 = opened k \<Longrightarrow> own s1 = own s \<Longrightarrow> (m_isConnected s1 \<longrightarrow> m_sock s1 \<noteq> - 1) \<Longrightarrow> holds base s1 k1"
  by (simp add: holds_def)

lemma newSock_holds:
  assumes "holds base s k" and "m_sock s = - 1" and "newSock sys s k = (s1, k1)"
  shows "holds base s1 k1 \<and> m_isConnected s1 = m_isConnected s \<and> m_family s1 = m_family s"
proof -
  obtain fd k2 where sock: "sys_socket sys (m_family s) (m_type s) (m_protocol s) k = (fd, k2)"
    by (cases "sys_socket sys (m_family s) (m_type s) (m_protocol s) k")
  have off: "\<not> m_isConnected s" "opened k = base" using assms(1,2) by (auto simp: holds_def own_def)
  have s1: "s1 = s\<lparr>m_sock := fd\<rparr>" using assms(3) by (simp add: newSock_def sock Let_def split: if_splits)
  have k1: "opened k1 = opened k2" using assms(3) by (auto simp: newSock_def sock Let_def split: if_splits)
  show ?thesis
  proof (cases "fd = - 1")
    case True
    then show ?thesis using socket_opens [OF sock] off by (simp add: s1 k1 holds_def own_def)
  next
    case False
    then show ?thesis using socket_opens [OF sock] off by (auto simp: s1 k1 holds_def own_def)
  qed
qed

lemma close_holds:
  assumes h: "holds base s k" and r: "Socket_close sys s k = (b, s1, k1)"
  shows "holds base s1 k1 \<and> m_sock s1 = - 1 \<and> \<not> m_isConnected s1"
proof (cases "m_sock s = - 1")
  case True
  then have "\<not> m_isConnected s" using h by (simp add: holds_def)
  then show ?thesis using True h r by (simp add: Socket_close_def)
next
  case False
  then have s1: "s1 = s\<lparr>m_isConnected := False, m_sock := - 1\<rparr>" "k1 = sys_close sys (m_sock s) k"
    using r by (simp_all add: Socket_close_def Let_def)
  have "opened k1 = base" using h False by (auto simp: s1 close_closes holds_def own_def)
  then show ?thesis by (simp add: s1 holds_def own_def)
qed

lemma destroy_holds:
  assumes "holds base s k"
  shows "opened (Socket_destroy sys s k) = base"
proof -
  obtain b s1 k1 where c: "Socket_close sys s k = (b, s1, k1)" by (cases "Socket_close sys s k")
  from close_holds [OF assms c] have "opened k1 = base" by (simp add: holds_def own_def)
  then show ?thesis by (simp add: Socket_destroy_def c)
qed

lemma ensure_valid_holds:
  assumes "holds base s k" and "ensure_valid sys s k = (s1, k1)"
  shows "holds base s1 k1"
proof (cases "isValid s")
  case False
  then have "m_sock s = - 1" "newSock sys s k = (s1, k1)" using assms(2) by (simp_all add: isValid_def ensure_valid_def)
  with newSock_holds [OF assms(1)] show ?thesis by blast
qed (use assms in \<open>simp add: ensure_valid_def\<close>)

lemma connect_valid_holds:
  assumes h: "holds base s k" and "isValid s" and r: "connect_valid sys big a ms s k = (b, s1, k1)"
  shows "holds base s1 k1"
proof -
  let ?c = "if ms = NO_TIMEOUT then sys_connect sys (m_sock s) a k else sys_connect_with_timeout sys (m_sock s) a ms k"
  obtain ok k2 where c: "?c = (ok, k2)" by (cases ?c)
  then have "opened k2 = opened k"
    using connect_keeps(1) [of "m_sock s" a k] connect_keeps(2) [of "m_sock s" a ms k] by (auto split: if_splits)
  then have h2: "holds base s k2" using h by (simp add: holds_def)
  show ?thesis
  proof (cases ok)
    case True
    have "holds base (s\<lparr>m_isConnected := True\<rparr>) k2" using h2 assms(2) by (simp add: holds_def isValid_def)
    then show ?thesis using r c True by (auto simp: connect_valid_def holds_def)
  next
    case False
    obtain b' s' k' where cl: "Socket_close sys s k2 = (b', s', k')" by (cases "Socket_close sys s k2")
    then have "s1 = s'" "k1 = k'" using r c False by (simp_all add: connect_valid_def)
    with close_holds [OF h2 cl] show ?thesis by simp
  qed
qed

lemma connect_holds:
  assumes "holds base s k" and r: "Socket_connect sys big a ms s k = (b, s1, k1)"
  shows "holds base s1 k1"
proof -
  let ?s = "s\<lparr>m_remoteAddress := Some a\<rparr>"
  obtain s2 k2 where e: "ensure_valid sys ?s k = (s2, k2)" by (cases "ensure_valid sys ?s k")
  have "holds base ?s k" using assms(1) by (simp add: holds_def)
  note h = ensure_valid_holds [OF this e]
  show ?thesis
  proof (cases "isValid s2 \<and> getFamily a = m_family s2")
    case True
    then have "connect_valid sys big a ms s2 k2 = (b, s1, k1)" using r e by (simp add: Socket_connect_def)
    with True show ?thesis using connect_valid_holds [OF h] by blast
  next
    case False
    then have "s1 = s2" "k1 = k2" using r e by (auto simp: Socket_connect_def split: if_splits)
    with h show ?thesis by simp
  qed
qed

lemma unix_in_use_keeps: "opened (snd (unix_in_use sys big a k)) = opened k"
proof -
  obtain b s k1 where c: "Socket_connect sys big a NO_TIMEOUT CreateUnixTCPSocket k = (b, s, k1)"
    by (cases "Socket_connect sys big a NO_TIMEOUT CreateUnixTCPSocket k")
  have "holds (opened k) CreateUnixTCPSocket k" by (simp add: holds_def own_def CreateUnixTCPSocket_def Socket_new_def)
  from destroy_holds [OF connect_holds [OF this c]] show ?thesis by (simp add: unix_in_use_def c)
qed

lemma bind_holds:
  assumes "holds base s k" and r: "Socket_bind sys big a s k = (b, s1, k1)"
  shows "holds base s1 k1"
proof -
  obtain s2 k2 where e: "ensure_valid sys s k = (s2, k2)" by (cases "ensure_valid sys s k")
  note h = ensure_valid_holds [OF assms(1) e]
  let ?u = "if is_unix a then unix_in_use sys big a k2 else (False, k2)"
  obtain used k3 where u: "?u = (used, k3)" by (cases ?u)
  have k3: "opened k3 = opened k2" using u unix_in_use_keeps [of big a k2] by (auto split: if_splits)
  obtain bound k4 where bd: "sys_bind sys (m_sock s2) a k3 = (bound, k4)" by (cases "sys_bind sys (m_sock s2) a k3")
  then have k4: "opened k4 = opened k3" using bind_keeps [of "m_sock s2" a k3] by simp
  have "holds base s2 k3" "holds base s2 k4" "holds base (snd (getLocalAddress sys big s2 k4)) k4"
    using h k3 k4 by (simp_all add: holds_def)
  then show ?thesis
    using r h by (cases used; cases bound; cases "getFamily a = m_family s2") (auto simp: Socket_bind_def e u bd)
qed

lemma call_keeps: "opened (snd (when_connected sys call s k)) = opened k"
  by (simp add: when_connected_def io_keeps)

lemma listen_call_keeps: "opened (snd (Socket_listen sys n s k)) = opened k"
  by (simp add: Socket_listen_def listen_keeps)

lemma run_op_holds: "holds base s k \<Longrightarrow> run_op sys big op (s, k) = (s1, k1) \<Longrightarrow> holds base s1 k1"
proof (cases op)
  case (OpReconnect ms)
  assume h: "holds base s k" and r: "run_op sys big op (s, k) = (s1, k1)"
  show ?thesis
  proof (cases "m_remoteAddress s")
    case (Some a)
    have "holds base (s\<lparr>m_localAddress := None\<rparr>) k" using h by (simp add: holds_def)
    moreover obtain b where "Socket_connect sys big a ms (s\<lparr>m_localAddress := None\<rparr>) k = (b, s1, k1)"
      using r Some by (cases "Socket_connect sys big a ms (s\<lparr>m_localAddress := None\<rparr>) k") (auto simp: OpReconnect Socket_reconnect_def)
    ultimately show ?thesis by (rule connect_holds)
  qed (use h r in \<open>simp add: OpReconnect Socket_reconnect_def\<close>)
next
  case (OpBind a)
  assume "holds base s k" "run_op sys big op (s, k) = (s1, k1)"
  then show ?thesis by (cases "Socket_bind sys big a s k") (auto simp: OpBind intro: bind_holds)
next
  case (OpConnect a ms)
  assume "holds base s k" "run_op sys big op (s, k) = (s1, k1)"
  then show ?thesis by (cases "Socket_connect sys big a ms s k") (auto simp: OpConnect intro: connect_holds)
next
  case OpClose
  assume "holds base s k" "run_op sys big op (s, k) = (s1, k1)"
  then show ?thesis by (cases "Socket_close sys s k") (auto simp: OpClose dest: close_holds)
qed (auto simp: holds_def call_keeps listen_call_keeps)

lemma run_ops_holds: "holds base s k \<Longrightarrow> fold (run_op sys big) ops (s, k) = (s1, k1) \<Longrightarrow> holds base s1 k1"
proof (induction ops arbitrary: s k)
  case (Cons op ops)
  obtain s2 k2 where "run_op sys big op (s, k) = (s2, k2)" by (cases "run_op sys big op (s, k)")
  with Cons.prems Cons.IH [OF run_op_holds [OF Cons.prems(1) this]] show ?case by simp
qed simp

lemma new_holds: "holds (opened k) (Socket_new f t p) k"
  by (simp add: holds_def own_def Socket_new_def)

end

section \<open>A system\<close>

text \<open>A system that keeps the promises: its state is the list of open descriptors.\<close>

definition new_fd :: "int list \<Rightarrow> int \<times> int list" where
  "new_fd k = (let fd = fold max k 2 + 1 in (fd, fd # k))"

definition demo_sys :: "int list sys" where
  \<comment> \<open>nobody listens on the port 1\<close>
  "demo_sys =
     \<lparr>sys_socket = (\<lambda>_ _ _. new_fd), sys_bind = (\<lambda>_ _ k. (True, k)), sys_listen = (\<lambda>_ _ k. (True, k)),
      sys_connect = (\<lambda>_ a k. (getPort False a \<noteq> 1, k)), sys_connect_with_timeout = (\<lambda>_ a _ k. (getPort False a \<noteq> 1, k)),
      sys_accept = (\<lambda>_. new_fd), sys_close = removeAll, sys_io = (\<lambda>_ _ k. ((0, []), k)), sys_setsockopt = (\<lambda>_ _ _ _ k. (True, k)),
      sys_getsockopt = (\<lambda>_ _ _ k. (Inr 0, k)), sys_getsockname = (\<lambda>_ a _. Some (a, 0)), sys_getpeername = (\<lambda>_ a _. Some (a, 0)),
      fdmgr_get = (\<lambda>fd k. (if fd < 9 then Some (True, False) else None, k)), fdmgr_timeout = (\<lambda>_ _ _. None),
      iom_cancelEvent = (\<lambda>_ _ k. (True, k)), iom_cancelAll = (\<lambda>_ k. (True, k))\<rparr>"

lemma fold_max: "m \<le> fold max k m \<and> (\<forall>i \<in> set k. i \<le> fold max k (m :: int))"
proof (induction k arbitrary: m)
  case (Cons a k)
  have "max a m \<le> fold max k (max a m)" "\<forall>i \<in> set k. i \<le> fold max k (max a m)" using Cons by blast+
  then show ?case by simp
qed simp

lemma new_fd_fresh:
  assumes "new_fd k = (fd, k1)"
  shows "fd = - 1 \<and> set k1 = set k \<or> fd \<noteq> - 1 \<and> fd \<notin> set k \<and> set k1 = insert fd (set k)"
  using assms fold_max [of 2 k] by (auto simp: new_fd_def Let_def)

interpretation ds: descriptors demo_sys set
proof
  show "fd = - 1 \<and> set k1 = set k \<or> fd \<noteq> - 1 \<and> fd \<notin> set k \<and> set k1 = insert fd (set k)"
    if "sys_socket demo_sys f t p k = (fd, k1)" for f t p fd k1 and k :: "int list"
    by (rule new_fd_fresh) (use that in \<open>simp add: demo_sys_def\<close>)
  show "fd = - 1 \<and> set k1 = set k \<or> fd \<noteq> - 1 \<and> fd \<notin> set k \<and> set k1 = insert fd (set k)"
    if "sys_accept demo_sys l k = (fd, k1)" for l fd k1 and k :: "int list"
    by (rule new_fd_fresh) (use that in \<open>simp add: demo_sys_def\<close>)
qed (simp_all add: demo_sys_def)

section \<open>Properties\<close>





text \<open>
  A connection is lost for good when it is accepted but its descriptor is not known as an open socket:
  \<open>accept\<close> then returns nothing and the descriptor stays open with no object that would close it.
\<close>

theorem accept_leaks_descriptor:
  assumes "descriptors sys opened" and "sys_accept sys (m_sock s) k = (fd, k1)" and "fd \<noteq> - 1"
    and "fst (fdmgr_get sys fd k1) \<noteq> Some (True, False)"
  shows "\<exists>k2. Socket_accept sys big s k = (None, k2) \<and> opened k2 = insert fd (opened k)"
proof -
  let ?s = "Socket_new (m_family s) (m_type s) (m_protocol s)"
  have "Socket_init sys big fd ?s k1 = (False, ?s, snd (fdmgr_get sys fd k1))"
    using assms(4) by (cases "fdmgr_get sys fd k1") (auto simp: Socket_init_def split: option.splits)
  then have "Socket_accept sys big s k = (None, snd (fdmgr_get sys fd k1))"
    using assms(2,3) by (simp add: Socket_accept_def Let_def Socket_destroy_def Socket_close_def Socket_new_def)
  then show ?thesis
    using descriptors.accept_opens [OF assms(1,2)] descriptors.fdmgr_keeps [OF assms(1), of fd k1] assms(3) by auto
qed

theorem accept_leaks_descriptor_witness:
  "\<exists>k2. Socket_accept demo_sys False CreateTCPSocket [12] = (None, k2) \<and> set k2 = {12, 13}"
  using accept_leaks_descriptor [OF ds.descriptors_axioms, of CreateTCPSocket "[12]" 13 "[13, 12]" False]
  by (auto simp: demo_sys_def new_fd_def)

text \<open>
  A datagram socket whose descriptor could not be made calls itself connected: its calls then go
  to the system with the descriptor -1.
\<close>

theorem failed_udp_is_connected:
  assumes "sys_socket sys (getFamily a) SOCK_DGRAM 0 k = (- 1, k1)"
  shows "CreateUDP sys a k = ((Socket_new (getFamily a) SOCK_DGRAM 0)\<lparr>m_isConnected := True\<rparr>, k1)
    \<and> when_connected sys call (fst (CreateUDP sys a k)) k1 = sys_io sys (- 1) call k1"
  using assms by (simp add: CreateUDP_def newSock_def Socket_new_def when_connected_def)

definition full_sys :: "int list sys" where
  \<comment> \<open>no descriptor is left\<close>
  "full_sys = demo_sys\<lparr>sys_socket := \<lambda>_ _ _ k. (- 1, k)\<rparr>"

theorem failed_udp_is_connected_witness:
  "when_connected full_sys (Recv 5 0) (fst (CreateUDP full_sys (IPv6Address IPv6_new) [])) [] = sys_io full_sys (- 1) (Recv 5 0) []"
proof -
  have "sys_socket full_sys (getFamily (IPv6Address IPv6_new)) SOCK_DGRAM 0 [] = (- 1, [])" by (simp add: full_sys_def)
  from failed_udp_is_connected [OF this, of "Recv 5 0"] show ?thesis by blast
qed

end
