(* ===== verification/SSL_Socket.thy ===== *)
theory SSL_Socket
  imports Socket
begin

text \<open>
  \<^verbatim>\<open>util/socket.cc\<close>: the class \<open>SSLSocket\<close>, a \<open>Socket\<close> with a context and a session of OpenSSL.
  The library is the record \<open>ssl_lib\<close>; a session is a value that its functions return updated.  The library
  crashes when it is handed a null session where the code does not check: \<open>NullSession\<close>.
\<close>

record ('c, 'l, 'k) ssl_lib =
  SSL_CTX_new :: "bool \<Rightarrow> 'c option"                              \<comment> \<open>for a server\<close>
  SSL_CTX_use_certificate_chain_file :: "'c option \<Rightarrow> bytes \<Rightarrow> int \<times> 'c option"
  SSL_CTX_use_PrivateKey_file :: "'c option \<Rightarrow> bytes \<Rightarrow> int \<times> 'c option"
  SSL_CTX_check_private_key :: "'c option \<Rightarrow> int"
  SSL_new :: "'c option \<Rightarrow> 'l option"
  SSL_set_fd :: "'l \<Rightarrow> int \<Rightarrow> 'l"
  SSL_connect :: "'l \<Rightarrow> 'k \<Rightarrow> int \<times> 'l \<times> 'k"
  SSL_accept :: "'l \<Rightarrow> 'k \<Rightarrow> int \<times> 'l \<times> 'k"
  SSL_write :: "'l \<Rightarrow> bytes \<Rightarrow> 'k \<Rightarrow> int \<times> 'l \<times> 'k"
  SSL_read :: "'l \<Rightarrow> nat \<Rightarrow> 'k \<Rightarrow> (int \<times> bytes) \<times> 'l \<times> 'k"

record ('c, 'l) ssl_socket = socket +
  m_ctx :: "'c option"
  m_ssl :: "'l option"

datatype ssl_error = NullSession

definition SSLSocket_new :: "u16 \<Rightarrow> int \<Rightarrow> int \<Rightarrow> ('c, 'l) ssl_socket" where
  "SSLSocket_new family ty protocol = socket.extend (Socket_new family ty protocol) \<lparr>m_ctx = None, m_ssl = None\<rparr>"

definition SSLSocket_CreateTCP :: "Address \<Rightarrow> ('c, 'l) ssl_socket" where
  "SSLSocket_CreateTCP address = SSLSocket_new (getFamily address) SOCK_STREAM 0"

definition SSLSocket_CreateTCPSocket :: "('c, 'l) ssl_socket" where
  "SSLSocket_CreateTCPSocket = SSLSocket_new AF_INET SOCK_STREAM 0"

definition SSLSocket_CreateTCPSocket6 :: "('c, 'l) ssl_socket" where
  "SSLSocket_CreateTCPSocket6 = SSLSocket_new AF_INET6 SOCK_STREAM 0"

definition new_session ::
    "('c, 'l, 'k) ssl_lib \<Rightarrow> ('l \<Rightarrow> 'k \<Rightarrow> int \<times> 'l \<times> 'k) \<Rightarrow> ('c, 'l) ssl_socket \<Rightarrow> 'k
     \<Rightarrow> ssl_error + (bool \<times> ('c, 'l) ssl_socket \<times> 'k)" where
  \<comment> \<open>a session for the descriptor, and the handshake\<close>
  "new_session lib handshake s k =
     (case SSL_new lib (m_ctx s) of
        None \<Rightarrow> Inl NullSession
      | Some l \<Rightarrow> (case handshake (SSL_set_fd lib l (m_sock s)) k of
                    (r, l1, k1) \<Rightarrow> Inr (r = 1, s\<lparr>m_ssl := Some l1\<rparr>, k1)))"

definition SSLSocket_init ::
    "('c, 'l, 'k) ssl_lib \<Rightarrow> 'k sys \<Rightarrow> bool \<Rightarrow> int \<Rightarrow> ('c, 'l) ssl_socket \<Rightarrow> 'k
     \<Rightarrow> ssl_error + (bool \<times> ('c, 'l) ssl_socket \<times> 'k)" where
  "SSLSocket_init lib sys big fd s k =
     (case Socket_init sys big fd s k of
        (False, s1, k1) \<Rightarrow> Inr (False, s1, k1)
      | (True, s1, k1) \<Rightarrow> new_session lib (SSL_accept lib) s1 k1)"

definition SSLSocket_accept ::
    "('c, 'l, 'k) ssl_lib \<Rightarrow> 'k sys \<Rightarrow> bool \<Rightarrow> ('c, 'l) ssl_socket \<Rightarrow> 'k \<Rightarrow> ssl_error + (('c, 'l) ssl_socket option \<times> 'k)" where
  "SSLSocket_accept lib sys big s k =
     (let sock = SSLSocket_new (m_family s) (m_type s) (m_protocol s)
      in case sys_accept sys (m_sock s) k of (newsock, k1) \<Rightarrow>
           (if newsock = - 1 then Inr (None, Socket_destroy sys sock k1)
            else case SSLSocket_init lib sys big newsock (sock\<lparr>m_ctx := m_ctx s\<rparr>) k1 of
                   Inl e \<Rightarrow> Inl e
                 | Inr (True, sock1, k2) \<Rightarrow> Inr (Some sock1, k2)
                 | Inr (False, sock1, k2) \<Rightarrow> Inr (None, Socket_destroy sys sock1 k2)))"

definition SSLSocket_bind where "SSLSocket_bind sys big addr s k = Socket_bind sys big addr (s :: ('c, 'l) ssl_socket) k"

definition SSLSocket_listen where "SSLSocket_listen sys backlog s k = Socket_listen sys backlog (s :: ('c, 'l) ssl_socket) k"

definition SSLSocket_close where "SSLSocket_close sys s k = Socket_close sys (s :: ('c, 'l) ssl_socket) k"

definition SSLSocket_connect ::
    "('c, 'l, 'k) ssl_lib \<Rightarrow> 'k sys \<Rightarrow> bool \<Rightarrow> Address \<Rightarrow> u64 \<Rightarrow> ('c, 'l) ssl_socket \<Rightarrow> 'k
     \<Rightarrow> ssl_error + (bool \<times> ('c, 'l) ssl_socket \<times> 'k)" where
  "SSLSocket_connect lib sys big addr timeout_ms s k =
     (case Socket_connect sys big addr timeout_ms s k of
        (False, s1, k1) \<Rightarrow> Inr (False, s1, k1)
      | (True, s1, k1) \<Rightarrow> new_session lib (SSL_connect lib) (s1\<lparr>m_ctx := SSL_CTX_new lib False\<rparr>) k1)"

definition SSLSocket_loadCertificates ::
    "('c, 'l, 'k) ssl_lib \<Rightarrow> bytes \<Rightarrow> bytes \<Rightarrow> ('c, 'l) ssl_socket \<Rightarrow> bool \<times> ('c, 'l) ssl_socket" where
  "SSLSocket_loadCertificates lib cert_file key_file s =
     (case SSL_CTX_use_certificate_chain_file lib (SSL_CTX_new lib True) (c_str cert_file) of (r1, c1) \<Rightarrow>
        (if r1 \<noteq> 1 then (False, s\<lparr>m_ctx := c1\<rparr>)
         else case SSL_CTX_use_PrivateKey_file lib c1 (c_str key_file) of (r2, c2) \<Rightarrow>
           (if r2 \<noteq> 1 then (False, s\<lparr>m_ctx := c2\<rparr>)
            else (SSL_CTX_check_private_key lib c2 = 1, s\<lparr>m_ctx := c2\<rparr>))))"

definition SSLSocket_send ::
    "('c, 'l, 'k) ssl_lib \<Rightarrow> bytes \<Rightarrow> ('c, 'l) ssl_socket \<Rightarrow> 'k \<Rightarrow> int \<times> ('c, 'l) ssl_socket \<times> 'k" where
  "SSLSocket_send lib buffer s k =
     (case m_ssl s of
        None \<Rightarrow> (- 1, s, k)
      | Some l \<Rightarrow> (case SSL_write lib l buffer k of (n, l1, k1) \<Rightarrow> (n, s\<lparr>m_ssl := Some l1\<rparr>, k1)))"

fun ssl_write_loop :: "('c, 'l, 'k) ssl_lib \<Rightarrow> bytes list \<Rightarrow> int \<Rightarrow> 'l \<Rightarrow> 'k \<Rightarrow> int \<times> 'l \<times> 'k" where
  "ssl_write_loop lib [] acc l k = (acc, l, k)"
| "ssl_write_loop lib (b # buffers) acc l k =
     (case SSL_write lib l b k of (tmp, l1, k1) \<Rightarrow>
        (if tmp \<le> 0 then (tmp, l1, k1)
         else if tmp \<noteq> int (length b) then (acc + tmp, l1, k1)
         else ssl_write_loop lib buffers (acc + tmp) l1 k1))"

definition SSLSocket_send_iov ::
    "('c, 'l, 'k) ssl_lib \<Rightarrow> bytes list \<Rightarrow> ('c, 'l) ssl_socket \<Rightarrow> 'k \<Rightarrow> int \<times> ('c, 'l) ssl_socket \<times> 'k" where
  "SSLSocket_send_iov lib buffers s k =
     (case m_ssl s of
        None \<Rightarrow> (- 1, s, k)
      | Some l \<Rightarrow> (case ssl_write_loop lib buffers 0 l k of (n, l1, k1) \<Rightarrow> (n, s\<lparr>m_ssl := Some l1\<rparr>, k1)))"

definition SSLSocket_recv ::
    "('c, 'l, 'k) ssl_lib \<Rightarrow> nat \<Rightarrow> ('c, 'l) ssl_socket \<Rightarrow> 'k \<Rightarrow> (int \<times> bytes) \<times> ('c, 'l) ssl_socket \<times> 'k" where
  "SSLSocket_recv lib n s k =
     (case m_ssl s of
        None \<Rightarrow> ((- 1, []), s, k)
      | Some l \<Rightarrow> (case SSL_read lib l n k of (r, l1, k1) \<Rightarrow> (r, s\<lparr>m_ssl := Some l1\<rparr>, k1)))"

fun ssl_read_loop :: "('c, 'l, 'k) ssl_lib \<Rightarrow> nat list \<Rightarrow> int \<Rightarrow> bytes list \<Rightarrow> 'l \<Rightarrow> 'k \<Rightarrow> (int \<times> bytes list) \<times> 'l \<times> 'k" where
  \<comment> \<open>the sizes of the buffers; what was put into them\<close>
  "ssl_read_loop lib [] acc got l k = ((acc, got), l, k)"
| "ssl_read_loop lib (n # sizes) acc got l k =
     (case SSL_read lib l n k of ((tmp, bs), l1, k1) \<Rightarrow>
        (if tmp \<le> 0 then ((tmp, got), l1, k1)
         else if tmp \<noteq> int n then ((acc + tmp, got @ [bs]), l1, k1)
         else ssl_read_loop lib sizes (acc + tmp) (got @ [bs]) l1 k1))"

definition SSLSocket_recv_iov ::
    "('c, 'l, 'k) ssl_lib \<Rightarrow> nat list \<Rightarrow> ('c, 'l) ssl_socket \<Rightarrow> 'k \<Rightarrow> (int \<times> bytes list) \<times> ('c, 'l) ssl_socket \<times> 'k" where
  "SSLSocket_recv_iov lib sizes s k =
     (case m_ssl s of
        None \<Rightarrow> ((- 1, []), s, k)
      | Some l \<Rightarrow> (case ssl_read_loop lib sizes 0 [] l k of (r, l1, k1) \<Rightarrow> (r, s\<lparr>m_ssl := Some l1\<rparr>, k1)))"

definition SSLSocket_sendTo :: "bytes list \<Rightarrow> Address \<Rightarrow> ('c, 'l) ssl_socket \<Rightarrow> int" where
  \<comment> \<open>both overloads; not supported\<close>
  "SSLSocket_sendTo buffers addr s = - 1"

definition SSLSocket_recvFrom :: "nat list \<Rightarrow> Address \<Rightarrow> ('c, 'l) ssl_socket \<Rightarrow> int" where
  "SSLSocket_recvFrom sizes addr s = - 1"

definition SSLSocket_dump where
  "SSLSocket_dump big s = Socket_dump big (str ''SSLSocket'') (s :: ('c, 'l) ssl_socket)"

section \<open>What is sent over a session\<close>

text \<open>
  What the library documents of a write: a positive result is the number of bytes of the buffer that were
  sent, and with any other result none was.  \<open>sent\<close> is what left the process so far.
\<close>

locale ssl_channel =
  fixes lib :: "('c, 'l, 'k) ssl_lib" and sent :: "'k \<Rightarrow> bytes"
  assumes write_sends: "SSL_write lib l b k = (n, l1, k1) \<Longrightarrow>
      n \<le> 0 \<and> sent k1 = sent k \<or> 0 < n \<and> n \<le> int (length b) \<and> sent k1 = sent k @ take (nat n) b"
begin

lemma write_loop_sends:
  assumes "ssl_write_loop lib buffers acc l k = (r, l1, k1)" and "0 \<le> acc"
  shows "\<exists>m \<le> length (concat buffers). sent k1 = sent k @ take m (concat buffers) \<and> (r \<le> 0 \<or> r = acc + int m)"
  using assms
proof (induction buffers arbitrary: acc l k)
  case (Cons b buffers)
  obtain tmp l2 k2 where w: "SSL_write lib l b k = (tmp, l2, k2)" by (cases "SSL_write lib l b k")
  show ?case
  proof (cases "tmp \<le> 0")
    case True
    then show ?thesis using write_sends [OF w] Cons.prems(1) w by (intro exI [of _ 0]) auto
  next
    case pos: False
    then have s: "tmp \<le> int (length b)" "sent k2 = sent k @ take (nat tmp) b" using write_sends [OF w] by auto
    show ?thesis
    proof (cases "tmp = int (length b)")
      case True
      then have "ssl_write_loop lib buffers (acc + tmp) l2 k2 = (r, l1, k1)" using Cons.prems(1) w pos by simp
      then obtain m where "m \<le> length (concat buffers)" "sent k1 = sent k2 @ take m (concat buffers)" "r \<le> 0 \<or> r = acc + tmp + int m"
        using Cons.IH Cons.prems(2) pos by fastforce
      then show ?thesis using s True by (intro exI [of _ "length b + m"]) auto
    next
      case False
      then have "r = acc + tmp" "k1 = k2" using Cons.prems(1) w pos by auto
      then show ?thesis using s pos by (intro exI [of _ "nat tmp"]) auto
    qed
  qed
qed simp

end

text \<open>A library whose state is what was sent and the results of the writes to come.\<close>

definition demo_ssl :: "(unit, unit, bytes \<times> int list) ssl_lib" where
  "demo_ssl =
     \<lparr>SSL_CTX_new = (\<lambda>_. Some ()), SSL_CTX_use_certificate_chain_file = (\<lambda>c _. (1, c)), SSL_CTX_use_PrivateKey_file = (\<lambda>c _. (1, c)),
      SSL_CTX_check_private_key = (\<lambda>_. 1), SSL_new = (\<lambda>c. c), SSL_set_fd = (\<lambda>l _. l), SSL_connect = (\<lambda>l k. (1, l, k)),
      SSL_accept = (\<lambda>l k. (1, l, k)),
      SSL_write = (\<lambda>l b (out, ns). case ns of
         [] \<Rightarrow> (- 1, l, (out, []))
       | n # ns \<Rightarrow> (let m = min n (int (length b)) in if m \<le> 0 then (m, l, (out, ns)) else (m, l, (out @ take (nat m) b, ns)))),
      SSL_read = (\<lambda>l n k. ((0, []), l, k))\<rparr>"

interpretation dl: ssl_channel demo_ssl fst
  by unfold_locales (auto simp: demo_ssl_def Let_def split: list.splits prod.splits if_splits)

section \<open>Properties\<close>



text \<open>
  A server whose certificates were not loaded crashes with its first client: the context of the listening socket is
  null, so there is no session for the accepted connection.
\<close>

theorem accept_without_certificates:
  assumes "m_ctx s = None" and "SSL_new lib None = None" and "sys_accept sys (m_sock s) k = (fd, k1)" and "fd \<noteq> - 1"
    and "fdmgr_get sys fd k1 = (Some (True, False), k2)"
  shows "SSLSocket_accept lib sys big s k = Inl NullSession"
proof -
  have "m_ctx (snd (getRemoteAddress sys big t k)) = m_ctx t" "m_ctx (snd (getLocalAddress sys big t k)) = m_ctx t"
    for t :: "('a, 'b) ssl_socket" and k
    by (simp_all add: getRemoteAddress_def getLocalAddress_def Let_def split: option.split prod.split)
  then show ?thesis
    using assms by (simp add: SSLSocket_accept_def SSLSocket_init_def Socket_init_def new_session_def Let_def)
qed

definition plain_ssl :: "(unit, unit, int list) ssl_lib" where
  "plain_ssl =
     \<lparr>SSL_CTX_new = (\<lambda>_. Some ()), SSL_CTX_use_certificate_chain_file = (\<lambda>c _. (1, c)), SSL_CTX_use_PrivateKey_file = (\<lambda>c _. (1, c)),
      SSL_CTX_check_private_key = (\<lambda>_. 1), SSL_new = (\<lambda>c. c), SSL_set_fd = (\<lambda>l _. l), SSL_connect = (\<lambda>l k. (1, l, k)),
      SSL_accept = (\<lambda>l k. (1, l, k)), SSL_write = (\<lambda>l b k. (- 1, l, k)), SSL_read = (\<lambda>l n k. ((0, []), l, k))\<rparr>"

theorem accept_without_certificates_witness:
  "SSLSocket_accept plain_ssl demo_sys False SSLSocket_CreateTCPSocket [3, 4] = Inl NullSession"
  by (rule accept_without_certificates [where fd = 5 and ?k1.0 = "[5, 3, 4]" and ?k2.0 = "[5, 3, 4]"])
     (simp_all add: SSLSocket_CreateTCPSocket_def SSLSocket_new_def socket.defs plain_ssl_def demo_sys_def new_fd_def)

end
