(* ===== verification/Tcp_Server.thy ===== *)
theory Tcp_Server
  imports SSL_Socket
begin

text \<open>
  \<^verbatim>\<open>server/tcp_server.cc\<close>: the listening server both \<open>Rpc_server\<close> and \<open>provider\<close> derive from.
  Sockets are shared objects: \<open>m_socks\<close> and the loops of \<open>startAccept\<close> hold numbers into \<open>sock_heap\<close>.  The tasks
  handed to the two schedulers are the lists \<open>accept_tasks\<close> and \<open>io_tasks\<close>, \<open>accepting\<close> the loops that wait in
  \<open>accept\<close>; writing to the log is left out.
\<close>

section \<open>Listening sockets\<close>

datatype ('c, 'l) listener = Plain socket | Ssl "('c, 'l) ssl_socket"

definition listener_create :: "bool \<Rightarrow> Address \<Rightarrow> ('c, 'l) listener" where
  "listener_create ssl addr = (if ssl then Ssl (SSLSocket_CreateTCP addr) else Plain (CreateTCP addr))"

fun listener_bind :: "'k sys \<Rightarrow> bool \<Rightarrow> Address \<Rightarrow> ('c, 'l) listener \<Rightarrow> 'k \<Rightarrow> bool \<times> ('c, 'l) listener \<times> 'k" where
  "listener_bind sys big addr (Plain s) k = (case Socket_bind sys big addr s k of (b, s1, k1) \<Rightarrow> (b, Plain s1, k1))"
| "listener_bind sys big addr (Ssl s) k = (case SSLSocket_bind sys big addr s k of (b, s1, k1) \<Rightarrow> (b, Ssl s1, k1))"

fun listener_listen :: "'k sys \<Rightarrow> ('c, 'l) listener \<Rightarrow> 'k \<Rightarrow> bool \<times> 'k" where
  "listener_listen sys (Plain s) k = Socket_listen sys SOMAXCONN s k"
| "listener_listen sys (Ssl s) k = SSLSocket_listen sys SOMAXCONN s k"

fun listener_accept ::
    "('c, 'l, 'k) ssl_lib \<Rightarrow> 'k sys \<Rightarrow> bool \<Rightarrow> ('c, 'l) listener \<Rightarrow> 'k \<Rightarrow> ssl_error + (('c, 'l) listener option \<times> 'k)" where
  "listener_accept lib sys big (Plain s) k = (case Socket_accept sys big s k of (c, k1) \<Rightarrow> Inr (map_option Plain c, k1))"
| "listener_accept lib sys big (Ssl s) k =
     (case SSLSocket_accept lib sys big s k of Inl e \<Rightarrow> Inl e | Inr (c, k1) \<Rightarrow> Inr (map_option Ssl c, k1))"

fun listener_close :: "'k sys \<Rightarrow> ('c, 'l) listener \<Rightarrow> 'k \<Rightarrow> ('c, 'l) listener \<times> 'k" where
  "listener_close sys (Plain s) k = (case Socket_close sys s k of (_, s1, k1) \<Rightarrow> (Plain s1, k1))"
| "listener_close sys (Ssl s) k = (case SSLSocket_close sys s k of (_, s1, k1) \<Rightarrow> (Ssl s1, k1))"

fun listener_cancelAll :: "'k sys \<Rightarrow> ('c, 'l) listener \<Rightarrow> 'k \<Rightarrow> 'k" where
  "listener_cancelAll sys (Plain s) k = snd (Socket_cancelAll sys s k)"
| "listener_cancelAll sys (Ssl s) k = snd (Socket_cancelAll sys s k)"

fun listener_setRecvTimeout :: "'k sys \<Rightarrow> int \<Rightarrow> ('c, 'l) listener \<Rightarrow> 'k \<Rightarrow> 'k" where
  "listener_setRecvTimeout sys v (Plain s) k = setRecvTimeout sys v s k"
| "listener_setRecvTimeout sys v (Ssl s) k = setRecvTimeout sys v s k"

fun listener_dump :: "bool \<Rightarrow> ('c, 'l) listener \<Rightarrow> bytes" where
  "listener_dump big (Plain s) = Socket_dump big (str ''Socket'') s"
| "listener_dump big (Ssl s) = SSLSocket_dump big s"

definition listener_destroy :: "'k sys \<Rightarrow> ('c, 'l) listener \<Rightarrow> 'k \<Rightarrow> 'k" where
  "listener_destroy sys s k = snd (listener_close sys s k)"

section \<open>\<open>TcpServer\<close>\<close>

datatype ('c, 'l) tcp_task = AcceptLoop nat | CloseAll | HandleClient "('c, 'l) listener"

record ('c, 'l, 'k) tcp_server =
  m_socks :: "nat list"
  m_recvTimeout :: u64
  tcp_name :: bytes
  tcp_type :: bytes
  m_isStop :: bool
  tcp_ssl :: bool
  worker_name :: "bytes option"
  accept_worker_name :: "bytes option"
  sock_heap :: "nat \<Rightarrow> ('c, 'l) listener"
  sock_next :: nat
  accept_tasks :: "('c, 'l) tcp_task list"
  io_tasks :: "('c, 'l) tcp_task list"
  accepting :: "nat list"
  tcp_kern :: 'k

definition TcpServer_new :: "bytes option \<Rightarrow> bytes option \<Rightarrow> (nat \<Rightarrow> ('c, 'l) listener) \<Rightarrow> 'k \<Rightarrow> ('c, 'l, 'k) tcp_server" where
  "TcpServer_new worker accept_worker h k =
     \<lparr>m_socks = [], m_recvTimeout = 60 * 1000 * 2, tcp_name = str ''sylar/1.0.0'', tcp_type = str ''tcp'', m_isStop = True,
      tcp_ssl = False, worker_name = worker, accept_worker_name = accept_worker, sock_heap = h, sock_next = 0,
      accept_tasks = [], io_tasks = [], accepting = [], tcp_kern = k\<rparr>"

definition close_sock :: "'k sys \<Rightarrow> bool \<Rightarrow> nat \<Rightarrow> ('c, 'l, 'k) tcp_server \<Rightarrow> ('c, 'l, 'k) tcp_server" where
  "close_sock sys cancel p w =
     (let k = (if cancel then listener_cancelAll sys (sock_heap w p) (tcp_kern w) else tcp_kern w)
      in case listener_close sys (sock_heap w p) k of (s, k1) \<Rightarrow> w\<lparr>sock_heap := (sock_heap w)(p := s), tcp_kern := k1\<rparr>)"

definition close_socks :: "'k sys \<Rightarrow> bool \<Rightarrow> ('c, 'l, 'k) tcp_server \<Rightarrow> ('c, 'l, 'k) tcp_server" where
  \<comment> \<open>every socket of \<open>m_socks\<close> is closed, after \<open>cancelAll\<close> if \<open>cancel\<close>, and the list cleared\<close>
  "close_socks sys cancel w = (fold (close_sock sys cancel) (m_socks w) w)\<lparr>m_socks := []\<rparr>"

definition TcpServer_destroy :: "'k sys \<Rightarrow> ('c, 'l, 'k) tcp_server \<Rightarrow> ('c, 'l, 'k) tcp_server" where
  "TcpServer_destroy sys w = close_socks sys False w"

definition referenced :: "('c, 'l, 'k) tcp_server \<Rightarrow> nat \<Rightarrow> bool" where
  \<comment> \<open>a loop of \<open>startAccept\<close>, waiting or still to run, has the socket as its argument\<close>
  "referenced w p = (AcceptLoop p \<in> set (accept_tasks w) \<or> p \<in> set (accepting w))"

definition drop_sock :: "'k sys \<Rightarrow> nat \<Rightarrow> ('c, 'l, 'k) tcp_server \<Rightarrow> ('c, 'l, 'k) tcp_server" where
  \<comment> \<open>one pointer to the socket is gone: with the last one it is destroyed\<close>
  "drop_sock sys p w =
     (if p \<in> set (m_socks w) \<or> referenced w p then w
      else case listener_close sys (sock_heap w p) (tcp_kern w) of
             (s, k) \<Rightarrow> w\<lparr>sock_heap := (sock_heap w)(p := s), tcp_kern := k\<rparr>)"

definition clear_socks :: "'k sys \<Rightarrow> ('c, 'l, 'k) tcp_server \<Rightarrow> ('c, 'l, 'k) tcp_server" where
  \<comment> \<open>\<open>m_socks.clear()\<close>\<close>
  "clear_socks sys w = fold (drop_sock sys) (m_socks w) (w\<lparr>m_socks := []\<rparr>)"

fun bind_loop ::
    "'k sys \<Rightarrow> bool \<Rightarrow> bool \<Rightarrow> Address list \<Rightarrow> ('c, 'l) listener list \<Rightarrow> Address list \<Rightarrow> 'k
     \<Rightarrow> ('c, 'l) listener list \<times> Address list \<times> 'k" where
  \<comment> \<open>the sockets bound and the addresses that failed; the socket of a failed one is destroyed\<close>
  "bind_loop sys big ssl [] socks fails k = (socks, fails, k)"
| "bind_loop sys big ssl (addr # addrs) socks fails k =
     (case listener_bind sys big addr (listener_create ssl addr) k of
        (False, s1, k1) \<Rightarrow> bind_loop sys big ssl addrs socks (fails @ [addr]) (listener_destroy sys s1 k1)
      | (True, s1, k1) \<Rightarrow>
          (case listener_listen sys s1 k1 of
             (False, k2) \<Rightarrow> bind_loop sys big ssl addrs socks (fails @ [addr]) (listener_destroy sys s1 k2)
           | (True, k2) \<Rightarrow> bind_loop sys big ssl addrs (socks @ [s1]) fails k2))"

definition push_socks :: "('c, 'l) listener list \<Rightarrow> ('c, 'l, 'k) tcp_server \<Rightarrow> ('c, 'l, 'k) tcp_server" where
  "push_socks socks w =
     fold (\<lambda>s w. w\<lparr>sock_heap := (sock_heap w)(sock_next w := s), m_socks := m_socks w @ [sock_next w], sock_next := sock_next w + 1\<rparr>)
       socks w"

definition tcp_bind_all ::
    "'k sys \<Rightarrow> bool \<Rightarrow> Address list \<Rightarrow> Address list \<Rightarrow> bool \<Rightarrow> ('c, 'l, 'k) tcp_server
     \<Rightarrow> bool \<times> Address list \<times> ('c, 'l, 'k) tcp_server" where
  \<comment> \<open>a failure clears \<open>m_socks\<close>; the caller's vector \<open>fails\<close> is not cleared first\<close>
  "tcp_bind_all sys big addrs fails ssl w =
     (case bind_loop sys big ssl addrs [] fails (tcp_kern w) of (socks, fails1, k) \<Rightarrow>
        (let w1 = push_socks socks (w\<lparr>tcp_ssl := ssl, tcp_kern := k\<rparr>)
         in if fails1 \<noteq> [] then (False, fails1, clear_socks sys w1) else (True, fails1, w1)))"

definition tcp_bind :: "'k sys \<Rightarrow> bool \<Rightarrow> Address \<Rightarrow> bool \<Rightarrow> ('c, 'l, 'k) tcp_server \<Rightarrow> bool \<times> ('c, 'l, 'k) tcp_server" where
  "tcp_bind sys big addr ssl w = (case tcp_bind_all sys big [addr] [] ssl w of (b, _, w1) \<Rightarrow> (b, w1))"

definition tcp_start :: "('c, 'l, 'k) tcp_server \<Rightarrow> bool \<times> ('c, 'l, 'k) tcp_server" where
  "tcp_start w =
     (if \<not> m_isStop w then (True, w)
      else (True, w\<lparr>m_isStop := False, accept_tasks := accept_tasks w @ map AcceptLoop (m_socks w)\<rparr>))"

definition tcp_stop :: "('c, 'l, 'k) tcp_server \<Rightarrow> ('c, 'l, 'k) tcp_server" where
  "tcp_stop w = w\<lparr>m_isStop := True, accept_tasks := accept_tasks w @ [CloseAll]\<rparr>"

definition stop_task :: "'k sys \<Rightarrow> ('c, 'l, 'k) tcp_server \<Rightarrow> ('c, 'l, 'k) tcp_server" where
  "stop_task sys w = close_socks sys True w"

definition accept_enter :: "'k sys \<Rightarrow> nat \<Rightarrow> ('c, 'l, 'k) tcp_server \<Rightarrow> ('c, 'l, 'k) tcp_server" where
  \<comment> \<open>the head of the loop of \<open>startAccept\<close>: the loop ends, or waits in \<open>accept\<close>\<close>
  "accept_enter sys p w = (if m_isStop w then drop_sock sys p w else w\<lparr>accepting := accepting w @ [p]\<rparr>)"

definition accept_round ::
    "('c, 'l, 'k) ssl_lib \<Rightarrow> 'k sys \<Rightarrow> bool \<Rightarrow> nat \<Rightarrow> ('c, 'l, 'k) tcp_server \<Rightarrow> ssl_error + ('c, 'l, 'k) tcp_server" where
  \<comment> \<open>\<open>accept\<close> returns, and the next round begins\<close>
  "accept_round lib sys big p w =
     (let w1 = w\<lparr>accepting := remove1 p (accepting w)\<rparr>
      in case listener_accept lib sys big (sock_heap w1 p) (tcp_kern w1) of
           Inl e \<Rightarrow> Inl e
         | Inr (None, k) \<Rightarrow> Inr (accept_enter sys p (w1\<lparr>tcp_kern := k\<rparr>))
         | Inr (Some client, k) \<Rightarrow>
             (let k1 = listener_setRecvTimeout sys (sint (m_recvTimeout w1)) client k
              in Inr (accept_enter sys p (w1\<lparr>tcp_kern := k1, io_tasks := io_tasks w1 @ [HandleClient client]\<rparr>))))"

definition tcp_setRecvTimeout :: "u64 \<Rightarrow> ('c, 'l, 'k) tcp_server \<Rightarrow> ('c, 'l, 'k) tcp_server" where
  "tcp_setRecvTimeout v w = w\<lparr>m_recvTimeout := v\<rparr>"

definition tcp_setName :: "bytes \<Rightarrow> ('c, 'l, 'k) tcp_server \<Rightarrow> ('c, 'l, 'k) tcp_server" where
  "tcp_setName v w = w\<lparr>tcp_name := v\<rparr>"

definition tcp_loadCertificates ::
    "('c, 'l, 'k) ssl_lib \<Rightarrow> bytes \<Rightarrow> bytes \<Rightarrow> ('c, 'l, 'k) tcp_server \<Rightarrow> bool \<times> ('c, 'l, 'k) tcp_server" where
  "tcp_loadCertificates lib cert_file key_file w =
     fold (\<lambda>p (ok, w). if \<not> ok then (ok, w)
                       else case sock_heap w p of
                              Plain _ \<Rightarrow> (True, w)
                            | Ssl s \<Rightarrow> (case SSLSocket_loadCertificates lib cert_file key_file s of
                                         (b, s1) \<Rightarrow> (b, w\<lparr>sock_heap := (sock_heap w)(p := Ssl s1)\<rparr>)))
       (m_socks w) (True, w)"

definition tcp_toString :: "bool \<Rightarrow> bytes \<Rightarrow> ('c, 'l, 'k) tcp_server \<Rightarrow> bytes" where
  "tcp_toString big pre w =
     (let pfx = (if pre = [] then str ''    '' else pre);
          name_of = (\<lambda>n. case n of None \<Rightarrow> [] | Some s \<Rightarrow> s)
      in pre @ str ''[type='' @ tcp_type w @ str '' name='' @ tcp_name w @ str '' ssl='' @ (if tcp_ssl w then str ''1'' else str ''0'')
         @ str '' worker='' @ name_of (worker_name w) @ str '' accept='' @ name_of (accept_worker_name w)
         @ str '' recv_timeout='' @ nat_digits (unat (m_recvTimeout w)) @ str '']'' @ [10]
         @ concat (map (\<lambda>p. pfx @ pfx @ listener_dump big (sock_heap w p) @ [10]) (m_socks w)))"

section \<open>The running server\<close>

text \<open>
  \<open>start\<close> and \<open>stop\<close> are called by the owner at any time; the schedulers run the tasks in any
  order, and a loop that waits in \<open>accept\<close> goes on when it returns.
\<close>

inductive tcp_step ::
    "('c, 'l, 'k) ssl_lib \<Rightarrow> 'k sys \<Rightarrow> bool \<Rightarrow> ('c, 'l, 'k) tcp_server \<Rightarrow> ('c, 'l, 'k) tcp_server \<Rightarrow> bool"
  for lib sys big where
  start: "tcp_step lib sys big w (snd (tcp_start w))"
| stop: "tcp_step lib sys big w (tcp_stop w)"
| run_accept: "AcceptLoop p \<in> set (accept_tasks w) \<Longrightarrow>
    tcp_step lib sys big w (accept_enter sys p (w\<lparr>accept_tasks := remove1 (AcceptLoop p) (accept_tasks w)\<rparr>))"
| run_close: "CloseAll \<in> set (accept_tasks w) \<Longrightarrow>
    tcp_step lib sys big w (stop_task sys (w\<lparr>accept_tasks := remove1 CloseAll (accept_tasks w)\<rparr>))"
| accepted: "p \<in> set (accepting w) \<Longrightarrow> accept_round lib sys big p w = Inr w1 \<Longrightarrow> tcp_step lib sys big w w1"

text \<open>The life of a server: it is created, bound any number of times, and runs.\<close>

inductive tcp_reachable ::
    "('c, 'l, 'k) ssl_lib \<Rightarrow> 'k sys \<Rightarrow> bool \<Rightarrow> ('c, 'l, 'k) tcp_server \<Rightarrow> bool"
  for lib sys big where
  created: "tcp_reachable lib sys big (TcpServer_new worker accept_worker h k)"
| bound: "tcp_reachable lib sys big w \<Longrightarrow> tcp_bind_all sys big addrs fails ssl w = (b, fails1, w1) \<Longrightarrow> tcp_reachable lib sys big w1"
| ran: "tcp_reachable lib sys big w \<Longrightarrow> tcp_step lib sys big w w1 \<Longrightarrow> tcp_reachable lib sys big w1"

section \<open>Descriptors of the listening sockets\<close>

fun listener_own :: "('c, 'l) listener \<Rightarrow> int set" where
  "listener_own (Plain s) = own s"
| "listener_own (Ssl s) = own s"

definition socks_own :: "(nat \<Rightarrow> ('c, 'l) listener) \<Rightarrow> nat set \<Rightarrow> int set" where
  "socks_own h P = (\<Union>p \<in> P. listener_own (h p))"

definition tcp_wf :: "('c, 'l, 'k) tcp_server \<Rightarrow> bool" where
  \<comment> \<open>every number in use was given to a socket\<close>
  "tcp_wf w \<longleftrightarrow> (\<forall>p. p \<in> set (m_socks w) \<or> referenced w p \<longrightarrow> p < sock_next w)"

lemma listener_create_own [simp]: "listener_own (listener_create ssl addr) = {}"
  by (simp add: listener_create_def CreateTCP_def Socket_new_def SSLSocket_CreateTCP_def SSLSocket_new_def own_def socket.defs)

lemma Socket_close_own: "Socket_close sys s k = (b, s1, k1) \<Longrightarrow> own s1 = {}"
  by (auto simp: Socket_close_def own_def Let_def split: if_splits)

lemma listener_close_own: "listener_close sys s k = (s1, k1) \<Longrightarrow> listener_own s1 = {}"
  by (cases s) (auto simp: SSLSocket_close_def dest: Socket_close_own split: prod.splits)

lemma referenced_update [simp]:
  "referenced (w\<lparr>m_socks := ps\<rparr>) = referenced w" "referenced (w\<lparr>sock_heap := h\<rparr>) = referenced w" "referenced (w\<lparr>tcp_kern := k\<rparr>) = referenced w"
  "referenced (w\<lparr>sock_next := n\<rparr>) = referenced w" "referenced (w\<lparr>tcp_ssl := b\<rparr>) = referenced w" "referenced (w\<lparr>io_tasks := ts\<rparr>) = referenced w"
  "referenced (w\<lparr>m_isStop := b\<rparr>) = referenced w"
  by (simp_all add: referenced_def fun_eq_iff)

lemma drop_sock_frame [simp]:
  "m_socks (drop_sock sys p w) = m_socks w" "accept_tasks (drop_sock sys p w) = accept_tasks w" "accepting (drop_sock sys p w) = accepting w"
  "io_tasks (drop_sock sys p w) = io_tasks w" "m_isStop (drop_sock sys p w) = m_isStop w" "sock_next (drop_sock sys p w) = sock_next w"
  "referenced (drop_sock sys p w) = referenced w"
  by (simp_all add: drop_sock_def fun_eq_iff referenced_def split: prod.split)

lemma drop_socks_frame:
  "m_socks (fold (drop_sock sys) ps w) = m_socks w \<and> referenced (fold (drop_sock sys) ps w) = referenced w
   \<and> sock_next (fold (drop_sock sys) ps w) = sock_next w \<and> accept_tasks (fold (drop_sock sys) ps w) = accept_tasks w
   \<and> accepting (fold (drop_sock sys) ps w) = accepting w \<and> m_isStop (fold (drop_sock sys) ps w) = m_isStop w"
  by (induction ps arbitrary: w) auto

lemma clear_socks_empty: "m_socks (clear_socks sys w) = []"
  by (simp add: clear_socks_def drop_socks_frame)

lemma push_socks_Cons: "push_socks (s # ss) w = push_socks ss (w\<lparr>sock_heap := (sock_heap w)(sock_next w := s), m_socks := m_socks w @ [sock_next w], sock_next := sock_next w + 1\<rparr>)"
  by (simp add: push_socks_def)

lemma push_socks_exact:
  "m_socks (push_socks ss w) = m_socks w @ [sock_next w..<sock_next w + length ss]
   \<and> (\<forall>i < length ss. sock_heap (push_socks ss w) (sock_next w + i) = ss ! i)
   \<and> (\<forall>p < sock_next w. sock_heap (push_socks ss w) p = sock_heap w p)
   \<and> referenced (push_socks ss w) = referenced w \<and> tcp_kern (push_socks ss w) = tcp_kern w \<and> sock_next (push_socks ss w) = sock_next w + length ss"
proof (induction ss arbitrary: w)
  case Nil
  then show ?case by (simp add: push_socks_def)
next
  case (Cons s ss)
  let ?w = "w\<lparr>sock_heap := (sock_heap w)(sock_next w := s), m_socks := m_socks w @ [sock_next w], sock_next := sock_next w + 1\<rparr>"
  note IH = Cons.IH [of ?w]
  have "sock_heap (push_socks (s # ss) w) (sock_next w + i) = (s # ss) ! i" if "i < length (s # ss)" for i
    using that IH by (cases i) (auto simp: push_socks_Cons)
  then show ?case using IH by (auto simp: push_socks_Cons upt_rec)
qed

lemma close_sock_frame [simp]:
  "io_tasks (close_sock sys c p w) = io_tasks w" "accept_tasks (close_sock sys c p w) = accept_tasks w"
  "accepting (close_sock sys c p w) = accepting w" "m_isStop (close_sock sys c p w) = m_isStop w"
  by (simp_all add: close_sock_def Let_def split: prod.split)

lemma close_loop_frame:
  "io_tasks (fold (close_sock sys c) ps w) = io_tasks w \<and> accept_tasks (fold (close_sock sys c) ps w) = accept_tasks w
   \<and> accepting (fold (close_sock sys c) ps w) = accepting w \<and> m_isStop (fold (close_sock sys c) ps w) = m_isStop w"
  by (induction ps arbitrary: w) auto

lemma close_socks_frame:
  "io_tasks (close_socks sys c w) = io_tasks w" "accept_tasks (close_socks sys c w) = accept_tasks w"
  "accepting (close_socks sys c w) = accepting w" "m_isStop (close_socks sys c w) = m_isStop w" "m_socks (close_socks sys c w) = []"
  by (simp_all add: close_socks_def close_loop_frame)

lemma close_loop_closed:
  "listener_own (sock_heap w p) = {} \<or> p \<in> set ps \<Longrightarrow> listener_own (sock_heap (fold (close_sock sys c) ps w) p) = {}"
proof (induction ps arbitrary: w)
  case (Cons q ps)
  obtain s k where cl: "listener_close sys (sock_heap w q) (if c then listener_cancelAll sys (sock_heap w q) (tcp_kern w) else tcp_kern w) = (s, k)"
    by fastforce
  then have "close_sock sys c q w = w\<lparr>sock_heap := (sock_heap w)(q := s), tcp_kern := k\<rparr>" "listener_own s = {}"
    using listener_close_own [OF cl] by (simp_all add: close_sock_def)
  then show ?case using Cons by auto
qed simp

lemma close_socks_closed: "p \<in> set (m_socks w) \<Longrightarrow> listener_own (sock_heap (close_socks sys c w) p) = {}"
  by (simp add: close_socks_def close_loop_closed)

lemma accept_round_counts:
  assumes "m_isStop w" and "p \<in> set (accepting w)" and "accept_round lib sys big p w = Inr w1"
  shows "length (io_tasks w1) + length (accepting w1) \<le> length (io_tasks w) + length (accepting w)"
proof -
  have "length (remove1 p (accepting w)) + 1 = length (accepting w)" using assms(2) using length_pos_if_in_set [OF assms(2)] by (simp add: length_remove1)
  then show ?thesis
    using assms(1,3) by (auto simp: accept_round_def accept_enter_def Let_def split: sum.splits prod.splits option.splits)
qed

lemma close_loop_kept: "m_socks (fold (close_sock sys c) ps w) = m_socks w \<and> sock_next (fold (close_sock sys c) ps w) = sock_next w"
  by (induction ps arbitrary: w) (auto simp: close_sock_def Let_def split: prod.split)

lemma clear_socks_kept: "referenced (clear_socks sys w) = referenced w \<and> sock_next (clear_socks sys w) = sock_next w"
  by (simp add: clear_socks_def drop_socks_frame)

lemma tcp_wfI: "set (m_socks w1) \<subseteq> set (m_socks w) \<union> {p. referenced w p} \<Longrightarrow>
    (\<And>p. referenced w1 p \<Longrightarrow> p \<in> set (m_socks w) \<or> referenced w p) \<Longrightarrow> sock_next w1 = sock_next w \<Longrightarrow> tcp_wf w \<Longrightarrow> tcp_wf w1"
  by (fastforce simp: tcp_wf_def)

lemma accept_enter_kept:
  "m_socks (accept_enter sys p w) = m_socks w" "sock_next (accept_enter sys p w) = sock_next w"
  "referenced (accept_enter sys p w) q \<Longrightarrow> q = p \<or> referenced w q"
  by (auto simp: accept_enter_def referenced_def split: if_splits)

lemma accept_round_kept:
  assumes "accept_round lib sys big p w = Inr w1"
  shows "m_socks w1 = m_socks w \<and> sock_next w1 = sock_next w \<and> (\<forall>q. referenced w1 q \<longrightarrow> q = p \<or> referenced w q)"
proof -
  obtain w2 where w2: "w1 = accept_enter sys p w2" "m_socks w2 = m_socks w" "sock_next w2 = sock_next w"
    "accept_tasks w2 = accept_tasks w" "accepting w2 = remove1 p (accepting w)"
    using assms by (fastforce simp: accept_round_def Let_def split: sum.splits prod.splits option.splits)
  have "referenced w2 q \<Longrightarrow> referenced w q" for q using w2 by (auto simp: referenced_def dest: subsetD [OF set_remove1_subset])
  then show ?thesis using w2 accept_enter_kept by metis
qed

lemma tcp_step_wf:
  assumes "tcp_step lib sys big w w1" and "tcp_wf w"
  shows "tcp_wf w1"
  using assms(1)
proof (cases rule: tcp_step.cases)
  case start
  show ?thesis by (rule tcp_wfI [OF _ _ _ assms(2)]) (auto simp: start tcp_start_def referenced_def split: if_splits)
next
  case stop
  show ?thesis by (rule tcp_wfI [OF _ _ _ assms(2)]) (auto simp: stop tcp_stop_def referenced_def)
next
  case (run_accept p)
  let ?w = "w\<lparr>accept_tasks := remove1 (AcceptLoop p) (accept_tasks w)\<rparr>"
  have "referenced w p" "referenced ?w q \<Longrightarrow> referenced w q" for q using run_accept by (auto simp: referenced_def dest: subsetD [OF set_remove1_subset])
  then show ?thesis
    by (intro tcp_wfI [OF _ _ _ assms(2)]) (auto simp: run_accept accept_enter_kept(1,2) dest: accept_enter_kept(3))
next
  case run_close
  show ?thesis
    by (rule tcp_wfI [OF _ _ _ assms(2)])
       (auto simp: run_close stop_task_def close_socks_frame referenced_def close_socks_def close_loop_kept close_loop_frame dest: subsetD [OF set_remove1_subset])
next
  case (accepted p)
  have "referenced w p" using accepted by (simp add: referenced_def)
  then show ?thesis using accept_round_kept [OF accepted(2)] by (intro tcp_wfI [OF _ _ _ assms(2)]) auto
qed

lemma tcp_bind_all_wf:
  fixes w :: "('c, 'l, 'k) tcp_server"
  assumes "tcp_bind_all sys big addrs fails ssl w = (b, fails1, w1)" and "tcp_wf w"
  shows "tcp_wf w1"
proof -
  obtain f k and socks :: "('c, 'l) listener list" where r: "bind_loop sys big ssl addrs [] fails (tcp_kern w) = (socks, f, k)" using prod_cases3 by blast
  let ?w = "push_socks socks (w\<lparr>tcp_ssl := ssl, tcp_kern := k\<rparr>)"
  have p: "tcp_wf ?w" using push_socks_exact [of socks "w\<lparr>tcp_ssl := ssl, tcp_kern := k\<rparr>"] assms(2) by (fastforce simp: tcp_wf_def)
  have "tcp_wf (clear_socks sys ?w)"
    by (rule tcp_wfI [OF _ _ _ p]) (simp_all add: clear_socks_empty clear_socks_kept)
  moreover have "w1 = (if f = [] then ?w else clear_socks sys ?w)" using assms(1) by (simp add: tcp_bind_all_def r Let_def split: if_splits)
  ultimately show ?thesis using p by simp
qed

context descriptors
begin

lemma Socket_close_opened: "Socket_close sys s k = (b, s1, k1) \<Longrightarrow> opened k1 = opened k - own s"
  by (auto simp: Socket_close_def own_def Let_def close_closes split: if_splits)

lemma listener_close_opened: "listener_close sys s k = (s1, k1) \<Longrightarrow> opened k1 = opened k - listener_own s"
  by (cases s) (auto simp: SSLSocket_close_def dest: Socket_close_opened split: prod.splits)

lemma listener_bind_opens:
  assumes "listener_bind sys big a (listener_create ssl a) k = (b, s1, k1)"
  shows "opened k1 = opened k \<union> listener_own s1 \<and> listener_own s1 \<inter> opened k = {}"
proof (cases ssl)
  case True
  have "holds (opened k) (SSLSocket_CreateTCP a :: ('c, 'l) ssl_socket) k"
    by (simp add: holds_def SSLSocket_CreateTCP_def SSLSocket_new_def Socket_new_def own_def socket.defs)
  note h = bind_holds [OF this]
  show ?thesis using assms True
    by (auto simp: listener_create_def SSLSocket_bind_def holds_def dest!: h split: prod.splits)
next
  case False
  have "holds (opened k) (CreateTCP a) k" by (simp add: CreateTCP_def new_holds)
  note h = bind_holds [OF this]
  show ?thesis using assms False by (auto simp: listener_create_def holds_def dest!: h split: prod.splits)
qed

lemma listener_listen_keeps:
  "listener_listen sys s k = (b, k1) \<Longrightarrow> opened k1 = opened k \<and> (b \<longrightarrow> listener_own s \<noteq> {})"
  using listen_call_keeps
  by (cases s) (auto simp: SSLSocket_listen_def Socket_listen_def isValid_def own_def listen_keeps split: if_splits dest!: arg_cong [where f = "\<lambda>r. opened (snd r)"])

lemma drop_socks_opened:
  "opened (tcp_kern (fold (drop_sock sys) ps w))
   = opened (tcp_kern w) - socks_own (sock_heap w) {p \<in> set ps. p \<notin> set (m_socks w) \<and> \<not> referenced w p}"
proof (induction ps arbitrary: w)
  case (Cons p ps)
  show ?case
  proof (cases "p \<in> set (m_socks w) \<or> referenced w p")
    case True
    then have "drop_sock sys p w = w" "{q \<in> set (p # ps). q \<notin> set (m_socks w) \<and> \<not> referenced w q} = {q \<in> set ps. q \<notin> set (m_socks w) \<and> \<not> referenced w q}"
      by (auto simp: drop_sock_def)
    then show ?thesis using Cons.IH [of w] by simp
  next
    case False
    obtain s k where c: "listener_close sys (sock_heap w p) (tcp_kern w) = (s, k)" by fastforce
    then have d: "drop_sock sys p w = w\<lparr>sock_heap := (sock_heap w)(p := s), tcp_kern := k\<rparr>" using False by (simp add: drop_sock_def)
    have "opened k = opened (tcp_kern w) - listener_own (sock_heap w p)" "listener_own s = {}"
      using listener_close_opened [OF c] listener_close_own [OF c] by auto
    then show ?thesis using Cons.IH [of "drop_sock sys p w"] False by (auto simp: d socks_own_def split: if_splits)
  qed
qed (simp add: socks_own_def)

lemma clear_socks_opened:
  "opened (tcp_kern (clear_socks sys w)) = opened (tcp_kern w) - socks_own (sock_heap w) {p \<in> set (m_socks w). \<not> referenced w p}"
  by (simp add: clear_socks_def drop_socks_opened)

definition bound :: "int set \<Rightarrow> ('c, 'l) listener list \<Rightarrow> 'k \<Rightarrow> bool" where
  \<comment> \<open>besides \<open>base\<close> the descriptors of the sockets are open, and each socket has one\<close>
  "bound base socks k \<longleftrightarrow> opened k = base \<union> (\<Union>s \<in> set socks. listener_own s)
     \<and> (\<forall>s \<in> set socks. listener_own s \<noteq> {} \<and> listener_own s \<inter> base = {})"

lemma bind_loop_bound:
  fixes socks :: "('c, 'l) listener list"
  assumes "bind_loop sys big ssl addrs socks fails k = (socks1, fails1, k1)" and "bound base socks k"
  shows "bound base socks1 k1 \<and> (\<exists>new bad. socks1 = socks @ new \<and> fails1 = fails @ bad \<and> set bad \<subseteq> set addrs
    \<and> length new + length bad = length addrs)"
  using assms
proof (induction addrs arbitrary: socks fails k)
  case (Cons addr addrs)
  obtain b k2 and s1 :: "('c, 'l) listener" where bd: "listener_bind sys big addr (listener_create ssl addr) k = (b, s1, k2)" using prod_cases3 by blast
  note o2 = listener_bind_opens [OF bd]
  obtain l k3 where ls: "listener_listen sys s1 k2 = (l, k3)" by fastforce
  note o3 = listener_listen_keeps [OF ls]
  have failed: ?case
    if r: "bind_loop sys big ssl addrs socks (fails @ [addr]) (listener_destroy sys s1 k4) = (socks1, fails1, k1)" and k4: "opened k4 = opened k2" for k4
  proof -
    obtain s5 k5 where c: "listener_close sys s1 k4 = (s5, k5)" by fastforce
    have "opened k5 = opened k" using listener_close_opened [OF c] k4 o2 by auto
    then have "bound base socks (listener_destroy sys s1 k4)" using Cons.prems(2) by (simp add: bound_def listener_destroy_def c)
    from Cons.IH [OF r this] show ?thesis by fastforce
  qed
  show ?case
  proof (cases "b \<and> l")
    case True
    then have "bound base (socks @ [s1]) k3" using Cons.prems(2) o2 o3 by (auto simp: bound_def)
    moreover have "bind_loop sys big ssl addrs (socks @ [s1]) fails k3 = (socks1, fails1, k1)" using Cons.prems(1) True bd ls by simp
    ultimately have "bound base socks1 k1 \<and> (\<exists>new bad. socks1 = (socks @ [s1]) @ new \<and> fails1 = fails @ bad \<and> set bad \<subseteq> set addrs
      \<and> length new + length bad = length addrs)" by (rule Cons.IH [rotated])
    then show ?thesis by fastforce
  next
    case False
    then have "bind_loop sys big ssl addrs socks (fails @ [addr]) (listener_destroy sys s1 (if b then k3 else k2)) = (socks1, fails1, k1)"
      using Cons.prems(1) bd ls by (cases b) auto
    moreover have "opened (if b then k3 else k2) = opened k2" using o3 by simp
    ultimately show ?thesis by (rule failed)
  qed
qed auto

end

lemma push_socks_frame:
  "accept_tasks (push_socks ss w) = accept_tasks w \<and> accepting (push_socks ss w) = accepting w \<and> m_isStop (push_socks ss w) = m_isStop w"
  by (induction ss arbitrary: w) (simp_all add: push_socks_Cons, simp add: push_socks_def)

lemma clear_socks_frame:
  "accept_tasks (clear_socks sys w) = accept_tasks w \<and> accepting (clear_socks sys w) = accepting w \<and> m_isStop (clear_socks sys w) = m_isStop w"
  by (simp add: clear_socks_def drop_socks_frame)

lemma tcp_bind_all_frame:
  assumes "tcp_bind_all sys big addrs fails ssl w = (b, fails1, w1)"
  shows "accept_tasks w1 = accept_tasks w \<and> accepting w1 = accepting w \<and> m_isStop w1 = m_isStop w"
  using assms by (auto simp: tcp_bind_all_def Let_def push_socks_frame clear_socks_frame split: prod.splits if_splits)

lemma tcp_bind_all_result:
  fixes w :: "('c, 'l, 'k) tcp_server"
  assumes "descriptors sys opened" and "tcp_wf w" and "tcp_bind_all sys big addrs fails ssl w = (b, fails1, w1)"
  shows "b = (fails1 = []) \<and> (\<exists>bad. fails1 = fails @ bad \<and> set bad \<subseteq> set addrs)
    \<and> (b \<longrightarrow> (\<exists>new. m_socks w1 = m_socks w @ new \<and> length new = length addrs
          \<and> (\<forall>p \<in> set new. listener_own (sock_heap w1 p) \<noteq> {} \<and> listener_own (sock_heap w1 p) \<inter> opened (tcp_kern w) = {})
          \<and> opened (tcp_kern w1) = opened (tcp_kern w) \<union> socks_own (sock_heap w1) (set new)))
    \<and> (\<not> b \<longrightarrow> m_socks w1 = []
          \<and> opened (tcp_kern w1) = opened (tcp_kern w) - socks_own (sock_heap w) {p \<in> set (m_socks w). \<not> referenced w p})"
proof -
  let ?base = "opened (tcp_kern w)" and ?n = "sock_next w"
  obtain k and socks :: "('c, 'l) listener list" where r: "bind_loop sys big ssl addrs [] fails (tcp_kern w) = (socks, fails1, k)"
    using assms(3) by (auto simp: tcp_bind_all_def Let_def split: prod.splits if_splits)
  have "descriptors.bound opened ?base [] (tcp_kern w)" by (simp add: descriptors.bound_def [OF assms(1)])
  from descriptors.bind_loop_bound [OF assms(1) r this] obtain bad
    where bd: "descriptors.bound opened ?base socks k" and bad: "fails1 = fails @ bad" "set bad \<subseteq> set addrs" "length socks + length bad = length addrs"
    by auto
  define w2 where "w2 = push_socks socks (w\<lparr>tcp_ssl := ssl, tcp_kern := k\<rparr>)"
  note p = push_socks_exact [of socks "w\<lparr>tcp_ssl := ssl, tcp_kern := k\<rparr>", folded w2_def, simplified]
  have w1: "b = (fails1 = [])" "w1 = (if fails1 = [] then w2 else clear_socks sys w2)"
    using assms(3) by (auto simp: tcp_bind_all_def Let_def r w2_def split: if_splits)
  have new: "sock_heap w2 q \<in> set socks" if "q \<in> set [?n..<?n + length socks]" for q
    using that p by (auto simp: in_set_conv_nth) (metis le_add_diff_inverse less_diff_conv2 nth_mem add.commute)
  have all: "\<exists>q \<in> set [?n..<?n + length socks]. sock_heap w2 q = s" if "s \<in> set socks" for s
    using that p by (fastforce simp: in_set_conv_nth)
  have own: "socks_own (sock_heap w2) (set [?n..<?n + length socks]) = (\<Union>s \<in> set socks. listener_own s)"
    using new all unfolding socks_own_def by blast
  have o: "opened k = ?base \<union> socks_own (sock_heap w2) (set [?n..<?n + length socks])"
    "\<forall>s \<in> set socks. listener_own s \<noteq> {} \<and> listener_own s \<inter> ?base = {}"
    using bd unfolding own by (simp_all add: descriptors.bound_def [OF assms(1)])
  show ?thesis
  proof (cases b)
    case True
    then have "w1 = w2" "length socks = length addrs" using w1 bad by auto
    moreover have "m_socks w2 = m_socks w @ [?n..<?n + length socks]" "tcp_kern w2 = k" using p by auto
    ultimately show ?thesis using True w1(1) bad o new by (auto intro!: exI [of _ "[?n..<?n + length socks]"])
  next
    case False
    have "opened (tcp_kern (clear_socks sys w2)) = opened k - socks_own (sock_heap w2) {q \<in> set (m_socks w2). \<not> referenced w2 q}"
      using descriptors.clear_socks_opened [OF assms(1), of w2] p by simp
    also have "{q \<in> set (m_socks w2). \<not> referenced w2 q} = set [?n..<?n + length socks] \<union> {q \<in> set (m_socks w). \<not> referenced w q}"
      using p assms(2) by (fastforce simp: tcp_wf_def)
    also have "opened k - socks_own (sock_heap w2) \<dots> = ?base - socks_own (sock_heap w) {q \<in> set (m_socks w). \<not> referenced w q}"
    proof -
      have "socks_own (sock_heap w2) {q \<in> set (m_socks w). \<not> referenced w q} = socks_own (sock_heap w) {q \<in> set (m_socks w). \<not> referenced w q}"
        using p assms(2) by (auto simp: socks_own_def tcp_wf_def)
      moreover have "socks_own (sock_heap w2) (set [?n..<?n + length socks]) \<inter> ?base = {}" using o(2) unfolding own by auto
      ultimately show ?thesis using o(1) by (auto simp: socks_own_def)
    qed
    finally show ?thesis using False w1 bad by (auto simp: clear_socks_empty)
  qed
qed

section \<open>Properties\<close>

text \<open>
  C14: \<open>bind\<close> is all or nothing: it answers true exactly when the vector of failed addresses is empty
  afterwards (an entry the caller left in it counts), and then one listening socket with a
  descriptor of its own was added for every address; otherwise the server has no socket left, also
  not those of an earlier call, and their descriptors are closed unless a loop still accepts on
  them; none made by the call is open.
\<close>

theorem tcp_bind_all_or_nothing:
  fixes w :: "('c, 'l, 'k) tcp_server"
  assumes "descriptors sys opened" and "tcp_wf w" and "tcp_bind_all sys big addrs fails ssl w = (b, fails1, w1)"
  shows "b = (fails1 = []) \<and> (\<exists>bad. fails1 = fails @ bad \<and> set bad \<subseteq> set addrs)
    \<and> (b \<longrightarrow> (\<exists>new. m_socks w1 = m_socks w @ new \<and> length new = length addrs
          \<and> (\<forall>p \<in> set new. listener_own (sock_heap w1 p) \<noteq> {} \<and> listener_own (sock_heap w1 p) \<inter> opened (tcp_kern w) = {})
          \<and> opened (tcp_kern w1) = opened (tcp_kern w) \<union> socks_own (sock_heap w1) (set new)))
    \<and> (\<not> b \<longrightarrow> m_socks w1 = []
          \<and> opened (tcp_kern w1) = opened (tcp_kern w) - socks_own (sock_heap w) {p \<in> set (m_socks w). \<not> referenced w p})"
  using assms by (rule tcp_bind_all_result)

theorem tcp_bind_all_or_nothing_witness:
  "\<exists>w1. tcp_bind_all demo_sys False [IPv4Address (IPv4_new False 0 80), IPv4Address (IPv4_new False 0 81)] [] False
       (TcpServer_new None None (\<lambda>_. Plain CreateTCPSocket) [3] :: (unit, unit, int list) tcp_server) = (True, [], w1)
     \<and> length (m_socks w1) = 2"
proof -
  let ?w = "TcpServer_new None None (\<lambda>_. Plain CreateTCPSocket) [3] :: (unit, unit, int list) tcp_server"
  let ?as = "[IPv4Address (IPv4_new False 0 80), IPv4Address (IPv4_new False 0 81)]"
  obtain b fails w1 where r: "tcp_bind_all demo_sys False ?as [] False ?w = (b, fails, w1)" using prod_cases3 by blast
  have "fst (snd (tcp_bind_all demo_sys False ?as [] False ?w)) = []" by code_simp
  then have "fails = []" using r by simp
  moreover have "tcp_wf ?w" by (simp add: tcp_wf_def TcpServer_new_def referenced_def)
  ultimately show ?thesis using tcp_bind_all_or_nothing [OF ds.descriptors_axioms _ r] r by (auto simp: TcpServer_new_def)
qed

text \<open>
  C35: after \<open>stop\<close>, and as long as nobody starts the server again, every loop lets at most one more
  client in, the one its pending \<open>accept\<close> returns: the clients handed out and the waiting loops together never
  grow, whatever the schedulers run.
\<close>

theorem stop_bounds_clients:
  assumes "(\<lambda>a b. tcp_step lib sys big a b \<and> m_isStop b)\<^sup>*\<^sup>* (tcp_stop w) w1"
  shows "length (io_tasks w1) + length (accepting w1) \<le> length (io_tasks w) + length (accepting w) \<and> m_isStop w1"
  using assms
proof (induction rule: rtranclp_induct)
  case base
  then show ?case by (simp add: tcp_stop_def)
next
  case (step a b)
  then have st: "tcp_step lib sys big a b" "m_isStop a" "m_isStop b" by auto
  have "length (io_tasks b) + length (accepting b) \<le> length (io_tasks a) + length (accepting a)"
    using st(1)
  proof (cases rule: tcp_step.cases)
    case start
    then show ?thesis using st by (auto simp: tcp_start_def)
  next
    case run_close
    then show ?thesis by (simp add: stop_task_def close_socks_frame)
  next
    case (accepted p)
    then show ?thesis using accept_round_counts st(2) by blast
  qed (auto simp: tcp_stop_def accept_enter_def st(2))
  then show ?case using step.IH st(3) by simp
qed

theorem stop_bounds_clients_witness:
  "\<exists>w1. tcp_step plain_ssl demo_sys False
       (tcp_stop ((TcpServer_new None None (\<lambda>_. Plain CreateTCPSocket) [3] :: (unit, unit, int list) tcp_server)\<lparr>accepting := [0]\<rparr>)) w1
     \<and> length (io_tasks w1) + length (accepting w1) \<le> 1"
proof -
  let ?w = "(TcpServer_new None None (\<lambda>_. Plain CreateTCPSocket) [3] :: (unit, unit, int list) tcp_server)\<lparr>accepting := [0]\<rparr>"
  have st: "tcp_step plain_ssl demo_sys False (tcp_stop ?w) (tcp_stop (tcp_stop ?w))" by (rule tcp_step.stop)
  then have "(\<lambda>a b. tcp_step plain_ssl demo_sys False a b \<and> m_isStop b)\<^sup>*\<^sup>* (tcp_stop ?w) (tcp_stop (tcp_stop ?w))"
    by (intro r_into_rtranclp) (simp add: tcp_stop_def)
  from stop_bounds_clients [OF this] st show ?thesis by (auto simp: TcpServer_new_def)
qed

text \<open>
  A server that is started again before the scheduler ran the task of \<open>stop\<close> loses its sockets: the
  task closes them all under the running server, and \<open>start\<close> then takes the server for running
  and does nothing.
\<close>

theorem restart_closes_sockets:
  "let w2 = snd (tcp_start (tcp_stop w)); w3 = stop_task sys (w2\<lparr>accept_tasks := remove1 CloseAll (accept_tasks w2)\<rparr>)
   in tcp_step lib sys big w (tcp_stop w) \<and> tcp_step lib sys big (tcp_stop w) w2 \<and> tcp_step lib sys big w2 w3
     \<and> \<not> m_isStop w3 \<and> m_socks w3 = [] \<and> tcp_start w3 = (True, w3)
     \<and> set (m_socks w) \<subseteq> {p. listener_own (sock_heap w3 p) = {} \<and> AcceptLoop p \<in> set (accept_tasks w3)}"
proof -
  define w2 where "w2 = snd (tcp_start (tcp_stop w))"
  define v where "v = w2\<lparr>accept_tasks := remove1 CloseAll (accept_tasks w2)\<rparr>"
  have w2: "\<not> m_isStop w2" "m_socks w2 = m_socks w" "accept_tasks w2 = accept_tasks w @ CloseAll # map AcceptLoop (m_socks w)"
    by (simp_all add: w2_def tcp_stop_def tcp_start_def)
  have "tcp_step lib sys big w2 (stop_task sys v)" unfolding v_def by (rule tcp_step.run_close) (simp add: w2)
  moreover have "tcp_step lib sys big (tcp_stop w) w2" unfolding w2_def by (rule tcp_step.start)
  moreover have "\<not> m_isStop (stop_task sys v)" "m_socks (stop_task sys v) = []"
    by (simp_all add: stop_task_def close_socks_frame v_def w2)
  moreover have "AcceptLoop p \<in> set (accept_tasks (stop_task sys v))" if "p \<in> set (m_socks w)" for p
    using that by (simp add: stop_task_def close_socks_frame v_def w2 remove1_append)
  moreover have "listener_own (sock_heap (stop_task sys v) p) = {}" if "p \<in> set (m_socks w)" for p
    using that close_socks_closed [of p v sys True] by (simp add: stop_task_def v_def w2)
  ultimately show ?thesis
    unfolding Let_def w2_def [symmetric] v_def [symmetric] by (auto simp: tcp_step.stop tcp_start_def)
qed



end
