(* ===== verification/Startup.thy ===== *)
theory Startup
  imports Tcp_Server
begin

text \<open>
  \<^verbatim>\<open>util/config.cpp\<close>, \<^verbatim>\<open>config.h\<close>: the options of the command line; \<^verbatim>\<open>main.cpp\<close>: how the registration
  centre is started.  \<open>getopt\<close> is of the C library: the model takes the list of what it returns,
  the option letters with their arguments, up to the end.
\<close>

section \<open>\<open>Config\<close>\<close>

record config =
  PORT :: int
  Proxy :: int
  sql_num :: int
  thread_num :: int
  close_log :: int

definition Config_new :: config where
  "Config_new = \<lparr>PORT = 9006, Proxy = 0, sql_num = 8, thread_num = 8, close_log = 0\<rparr>"

fun parse_opt :: "u8 \<times> bytes \<Rightarrow> config \<Rightarrow> config" where
  "parse_opt (opt, optarg) c =
     (if opt = 112 then c\<lparr>PORT := atoi optarg\<rparr>                \<comment> \<open>p\<close>
      else if opt = 115 then c\<lparr>sql_num := atoi optarg\<rparr>        \<comment> \<open>s\<close>
      else if opt = 116 then c\<lparr>thread_num := atoi optarg\<rparr>     \<comment> \<open>t\<close>
      else if opt = 99 then c\<lparr>close_log := atoi optarg\<rparr>       \<comment> \<open>c\<close>
      else if opt = 110 then c\<lparr>Proxy := atoi optarg\<rparr>          \<comment> \<open>n\<close>
      else c)"

definition parse_arg :: "(u8 \<times> bytes) list \<Rightarrow> config \<Rightarrow> config" where
  "parse_arg opts c = fold parse_opt opts c"

definition get_port :: "config \<Rightarrow> int" where "get_port c = PORT c"
definition get_proxy :: "config \<Rightarrow> int" where "get_proxy c = Proxy c"
definition get_sql_num :: "config \<Rightarrow> int" where "get_sql_num c = sql_num c"
definition get_thread_num :: "config \<Rightarrow> int" where "get_thread_num c = thread_num c"
definition get_close_log :: "config \<Rightarrow> int" where "get_close_log c = close_log c"

section \<open>\<open>main.cpp\<close>\<close>

datatype start_error = NullAddress

definition main_Centerport :: int where "main_Centerport = 9906"

definition centre_address ::
    "(bytes \<Rightarrow> bytes option \<Rightarrow> u16 \<Rightarrow> int \<Rightarrow> int \<Rightarrow> sockaddr option list option) \<Rightarrow> Address option" where
  "centre_address getaddrinfo =
     LookupAnyIPAddress getaddrinfo (str ''192.168.15.128:'' @ int_to_string main_Centerport) AF_INET 0 0"

partial_function (option) bind_until ::
    "'k sys \<Rightarrow> bool \<Rightarrow> ('k \<Rightarrow> 'k) \<Rightarrow> Address \<Rightarrow> ('c, 'l, 'k) tcp_server \<Rightarrow> ('c, 'l, 'k) tcp_server option" where
  \<comment> \<open>\<open>pause\<close> is what a second of \<open>sleep\<close> changes; the loop may never end\<close>
  "bind_until sys big pause addr w =
     (case tcp_bind sys big addr False w of (b, w1) \<Rightarrow>
        (if b then Some w1 else bind_until sys big pause addr (w1\<lparr>tcp_kern := pause (tcp_kern w1)\<rparr>)))"

definition centre_run ::
    "(bytes \<Rightarrow> bytes option \<Rightarrow> u16 \<Rightarrow> int \<Rightarrow> int \<Rightarrow> sockaddr option list option) \<Rightarrow> 'k sys \<Rightarrow> bool \<Rightarrow> ('k \<Rightarrow> 'k)
     \<Rightarrow> ('c, 'l, 'k) tcp_server \<Rightarrow> start_error + ('c, 'l, 'k) tcp_server option" where
  "centre_run getaddrinfo sys big pause w =
     (case centre_address getaddrinfo of
        None \<Rightarrow> Inl NullAddress
      | Some a \<Rightarrow> Inr (map_option (\<lambda>w1. snd (tcp_start w1)) (bind_until sys big pause a w)))"

definition bind_retry ::
    "'k sys \<Rightarrow> bool \<Rightarrow> ('k \<Rightarrow> 'k) \<Rightarrow> Address \<Rightarrow> ('c, 'l, 'k) tcp_server \<Rightarrow> ('c, 'l, 'k) tcp_server" where
  \<comment> \<open>one round of the loop that fails\<close>
  "bind_retry sys big pause addr w = (let w1 = snd (tcp_bind sys big addr False w) in w1\<lparr>tcp_kern := pause (tcp_kern w1)\<rparr>)"

lemma bind_until_retries:
  assumes "\<forall>i < n. \<not> fst (tcp_bind sys big addr False ((bind_retry sys big pause addr ^^ i) w))"
  shows "bind_until sys big pause addr w = bind_until sys big pause addr ((bind_retry sys big pause addr ^^ n) w)"
  using assms
proof (induction n)
  case (Suc n)
  let ?w = "(bind_retry sys big pause addr ^^ n) w"
  obtain b w1 where r: "tcp_bind sys big addr False ?w = (b, w1)" by fastforce
  then have "\<not> b" using Suc.prems by (metis fst_conv lessI)
  then have "bind_until sys big pause addr ?w = bind_until sys big pause addr (bind_retry sys big pause addr ?w)"
    using r by (subst bind_until.simps) (simp add: bind_retry_def)
  then show ?case using Suc by simp
qed simp

definition unbound :: "('k \<Rightarrow> int set) \<Rightarrow> int set \<Rightarrow> ('c, 'l, 'k) tcp_server \<Rightarrow> bool" where
  "unbound opened base w \<longleftrightarrow> m_socks w = [] \<and> accept_tasks w = [] \<and> accepting w = [] \<and> m_isStop w \<and> opened (tcp_kern w) = base"

lemma unbound_wf: "unbound opened base w \<Longrightarrow> tcp_wf w"
  by (simp add: unbound_def tcp_wf_def referenced_def)

lemma bind_retry_unbound:
  assumes "descriptors sys opened" and "\<forall>k. opened (pause k) = opened k" and "unbound opened base w"
    and "\<not> fst (tcp_bind sys big addr False w)"
  shows "unbound opened base (bind_retry sys big pause addr w)"
proof -
  obtain b f w1 where r: "tcp_bind_all sys big [addr] [] False w = (b, f, w1)" using prod_cases3 by blast
  then have "\<not> b" "bind_retry sys big pause addr w = w1\<lparr>tcp_kern := pause (tcp_kern w1)\<rparr>"
    using assms(4) by (simp_all add: bind_retry_def tcp_bind_def)
  then show ?thesis
    using tcp_bind_all_result [OF assms(1) unbound_wf [OF assms(3)] r] tcp_bind_all_frame [OF r] assms(2,3)
    by (simp add: unbound_def socks_own_def)
qed

lemma bind_until_listens:
  fixes h :: "nat \<Rightarrow> ('c, 'l) listener"
  assumes "descriptors sys opened" and "\<forall>k. opened (pause k) = opened k"
    and "fst (tcp_bind sys big a False ((bind_retry sys big pause a ^^ n) (TcpServer_new worker accept_worker h k)))"
  shows "\<exists>w1 p. bind_until sys big pause a (TcpServer_new worker accept_worker h k) = Some w1
    \<and> m_socks w1 = [p] \<and> accept_tasks w1 = [] \<and> m_isStop w1
    \<and> listener_own (sock_heap w1 p) \<noteq> {} \<and> opened (tcp_kern w1) = opened k \<union> listener_own (sock_heap w1 p)"
proof -
  define w where "w = TcpServer_new worker accept_worker h k"
  define m where "m = (LEAST i. fst (tcp_bind sys big a False ((bind_retry sys big pause a ^^ i) w)))"
  have m: "fst (tcp_bind sys big a False ((bind_retry sys big pause a ^^ m) w))"
    unfolding m_def by (rule LeastI) (use assms(3) in \<open>simp add: w_def\<close>)
  have less: "\<forall>i < m. \<not> fst (tcp_bind sys big a False ((bind_retry sys big pause a ^^ i) w))"
    unfolding m_def using not_less_Least by blast
  have u: "unbound opened (opened k) ((bind_retry sys big pause a ^^ i) w)" if "i \<le> m" for i
    using that
  proof (induction i)
    case (Suc i)
    then have "unbound opened (opened k) ((bind_retry sys big pause a ^^ i) w)" "i < m" by simp_all
    then show ?case using less by (simp add: bind_retry_unbound [OF assms(1,2)])
  qed (simp add: unbound_def w_def TcpServer_new_def)
  let ?w = "(bind_retry sys big pause a ^^ m) w"
  obtain b f w1 where r: "tcp_bind_all sys big [a] [] False ?w = (b, f, w1)" using prod_cases3 by blast
  then have b: "b" "tcp_bind sys big a False ?w = (True, w1)" using m by (simp_all add: tcp_bind_def)
  then have "bind_until sys big pause a w = Some w1"
    using bind_until_retries [OF less] by (simp add: bind_until.simps [of sys big pause a ?w])
  moreover obtain new where new: "m_socks w1 = new" "length new = 1"
      "\<forall>p \<in> set new. listener_own (sock_heap w1 p) \<noteq> {}" "opened (tcp_kern w1) = opened k \<union> socks_own (sock_heap w1) (set new)"
    using tcp_bind_all_result [OF assms(1) unbound_wf [OF u] r] u [of m] b by (auto simp: unbound_def)
  moreover obtain p where "new = [p]" using new(2) by (cases new) auto
  moreover have "accept_tasks w1 = []" "m_isStop w1" using tcp_bind_all_frame [OF r] u [of m] by (simp_all add: unbound_def)
  ultimately show ?thesis unfolding w_def [symmetric] by (simp add: socks_own_def)
qed

section \<open>Properties\<close>

text \<open>
  The last occurrence of an option counts, whatever options surround it, and a decimal number in the
  range of \<open>int\<close> arrives as that number.
\<close>

theorem last_option_counts:
  assumes "\<forall>(opt, a) \<in> set later. opt \<noteq> 112" and "- (2 ^ 31) \<le> n" and "n < 2 ^ 31"
  shows "get_port (parse_arg (earlier @ (112, int_to_string n) # later) c) = n"
proof -
  have "PORT (fold parse_opt later d) = PORT d" for d
    using assms(1) by (induction later arbitrary: d) auto
  then show ?thesis using assms(2,3) by (simp add: parse_arg_def get_port_def atoi_int_to_string)
qed

theorem last_option_counts_witness:
  "get_port (parse_arg ([(112, str ''80'')] @ (112, int_to_string 8080) # [(116, str ''4'')]) Config_new) = 8080"
  by (rule last_option_counts) auto

text \<open>
  The registration centre comes up: once the address is looked up, and if some round of the loop can bind it,
  \<open>run\<close> ends with one listening socket and one accept loop for it, and the failed rounds before have left no
  descriptor open.
\<close>

theorem registration_centre_listens:
  fixes h :: "nat \<Rightarrow> ('c, 'l) listener"
  assumes "descriptors sys opened" and "\<forall>k. opened (pause k) = opened k" and "centre_address getaddrinfo = Some a"
    and "fst (tcp_bind sys big a False ((bind_retry sys big pause a ^^ n) (TcpServer_new worker accept_worker h k)))"
  shows "\<exists>w1 p. centre_run getaddrinfo sys big pause (TcpServer_new worker accept_worker h k) = Inr (Some w1)
    \<and> m_socks w1 = [p] \<and> accept_tasks w1 = [AcceptLoop p] \<and> \<not> m_isStop w1
    \<and> listener_own (sock_heap w1 p) \<noteq> {} \<and> opened (tcp_kern w1) = opened k \<union> listener_own (sock_heap w1 p)"
proof -
  obtain w1 p where "bind_until sys big pause a (TcpServer_new worker accept_worker h k) = Some w1" "m_socks w1 = [p]" "accept_tasks w1 = []"
    "m_isStop w1" "listener_own (sock_heap w1 p) \<noteq> {}" "opened (tcp_kern w1) = opened k \<union> listener_own (sock_heap w1 p)"
    using bind_until_listens [OF assms(1,2,4)] by blast
  then show ?thesis by (simp add: centre_run_def assms(3) tcp_start_def)
qed

definition demo_getaddrinfo :: "bytes \<Rightarrow> bytes option \<Rightarrow> u16 \<Rightarrow> int \<Rightarrow> int \<Rightarrow> sockaddr option list option" where
  "demo_getaddrinfo node service family ty protocol = Some [Some (SA_in (IPv4_new False 0 9906))]"

definition busy_sys :: "int list sys" where
  \<comment> \<open>the port is in use until the time, the length of the list, is 3\<close>
  "busy_sys = demo_sys\<lparr>sys_bind := \<lambda>_ _ k. (3 \<le> length k, k)\<rparr>"

definition demo_pause :: "int list \<Rightarrow> int list" where
  "demo_pause k = (if k = [] then [] else hd k # k)"

interpretation bs: descriptors busy_sys set
  using ds.descriptors_axioms by (simp add: descriptors_def busy_sys_def)

definition demo_address :: Address where
  "demo_address = IPv4Address (IPv4_of_sockaddr (IPv4_new False 0 9906))"

definition demo_server :: "(unit, unit, int list) tcp_server" where
  "demo_server = TcpServer_new None None (\<lambda>_. Plain CreateTCPSocket) [3]"

lemma demo_second_try: "fst (tcp_bind busy_sys False demo_address False ((bind_retry busy_sys False demo_pause demo_address ^^ 1) demo_server))"
  by code_simp

lemma demo_lookup_any: "LookupAnyIPAddress demo_getaddrinfo host family ty protocol = Some demo_address"
  by (simp add: LookupAnyIPAddress_def addr_Lookup_def demo_getaddrinfo_def addr_Create_def demo_address_def Let_def split: prod.split)

lemma set_demo_pause: "\<forall>k. set (demo_pause k) = set k"
  by (simp add: demo_pause_def insert_absorb)

theorem registration_centre_listens_witness:
  "\<exists>w1 p. centre_run demo_getaddrinfo busy_sys False demo_pause demo_server = Inr (Some w1)
     \<and> m_socks w1 = [p] \<and> set (tcp_kern w1) = set [3] \<union> listener_own (sock_heap w1 p)"
proof -
  have "centre_address demo_getaddrinfo = Some demo_address" by (simp add: centre_address_def demo_lookup_any)
  from registration_centre_listens [OF bs.descriptors_axioms set_demo_pause this demo_second_try [unfolded demo_server_def]]
  show ?thesis unfolding demo_server_def by blast
qed

end
