(* ===== verification/Registry.thy ===== *)
theory Registry
  imports Wire Endian Text
begin

text \<open>
  The registration centre: \<^verbatim>\<open>server/rpc_conn.cpp\<close>, the protocol of one connection, and
  \<^verbatim>\<open>server/rpc_server.cpp\<close>, the tables and the sweep that drops services that stopped
  registering.  The receive buffer is the array \<^verbatim>\<open>m_read_buf\<close> of 2048 bytes; the result of
  \<^verbatim>\<open>recv\<close>, the time and the bytes sent are arguments and results.  Each critical section of
  \<^verbatim>\<open>mtx\<close> is one function.
\<close>

section \<open>Data\<close>

record rpc_server =
  service_map :: "bytes \<Rightarrow> bytes option"
  time_map :: "bytes \<Rightarrow> int option"

record rpc_conn =
  m_read_buf :: bytes
  args_size :: u32
  port :: u32
  type :: u32
  service_name :: bytes
  method_name :: bytes
  ip :: bytes
  has_server :: bool
  m_client :: "nat option"

definition READ_BUFFER_SIZE :: nat where "READ_BUFFER_SIZE = 2048"

definition SIZEOF_STRING :: nat where
  \<comment> \<open>\<^verbatim>\<open>sizeof(recv_buf)\<close>: the size of a \<^verbatim>\<open>std::string\<close> object\<close>
  "SIZEOF_STRING = 32"

datatype recv_result = Received bytes | RecvAgain | RecvFailed

datatype conn_error = ReadBeyondBuffer

definition rpc_server_new :: rpc_server where
  "rpc_server_new = \<lparr>service_map = (\<lambda>_. None), time_map = (\<lambda>_. None)\<rparr>"

definition rpc_conn_new :: "bytes \<Rightarrow> rpc_conn" where
  \<comment> \<open>an element of the array \<open>users\<close>; the buffer is not initialised: \<open>junk\<close> is what is there\<close>
  "rpc_conn_new junk =
     \<lparr>m_read_buf = junk, args_size = 0, port = 0, type = 0, service_name = [], method_name = [], ip = [],
      has_server = False, m_client = None\<rparr>"

section \<open>\<open>Rpc_conn\<close>\<close>

definition conn_reset :: "rpc_conn \<Rightarrow> rpc_conn" where
  "conn_reset c = c\<lparr>m_read_buf := replicate SIZEOF_STRING 0 @ drop SIZEOF_STRING (m_read_buf c)\<rparr>"

definition conn_init :: "nat \<Rightarrow> rpc_conn \<Rightarrow> rpc_conn" where
  "conn_init client c =
     (let c1 = (if \<not> has_server c then c\<lparr>has_server := True\<rparr> else c)
      in conn_reset (c1\<lparr>m_client := Some client\<rparr>))"

definition put_bytes :: "bytes \<Rightarrow> bytes \<Rightarrow> bytes" where
  \<comment> \<open>\<^verbatim>\<open>recv\<close> into an array: at most its size, the rest keeps its contents\<close>
  "put_bytes bs buf = take (length buf) bs @ drop (length bs) buf"

definition read_once :: "recv_result \<Rightarrow> rpc_conn \<Rightarrow> bool \<times> rpc_conn" where
  "read_once r c =
     (case r of
        RecvFailed \<Rightarrow> (False, c)
      | RecvAgain \<Rightarrow> (True, c)
      | Received bs \<Rightarrow> if bs = [] then (False, c) else (True, c\<lparr>m_read_buf := put_bytes bs (m_read_buf c)\<rparr>))"

definition service_key :: "rpc_conn \<Rightarrow> bytes" where
  "service_key c = service_name c @ method_name c"

definition reg_put :: "bytes \<Rightarrow> bytes \<Rightarrow> int \<Rightarrow> rpc_server \<Rightarrow> rpc_server" where
  "reg_put k v now s = s\<lparr>service_map := (service_map s)(k \<mapsto> v), time_map := (time_map s)(k \<mapsto> now)\<rparr>"

definition NotifyService :: "int \<Rightarrow> rpc_conn \<Rightarrow> rpc_server \<Rightarrow> rpc_server" where
  "NotifyService now c s =
     (let k = service_key c;
          val = ip c @ str '':'' @ int_to_string (sint (port c))
      in reg_put k val now s)"

definition CallingMethods :: "rpc_conn \<Rightarrow> rpc_server \<Rightarrow> bytes" where
  \<comment> \<open>what is sent back\<close>
  "CallingMethods c s =
     (case service_map s (service_key c) of None \<Rightarrow> str ''error'' | Some v \<Rightarrow> v)"

definition process ::
    "'u pb_lib \<Rightarrow> bool \<Rightarrow> int \<Rightarrow> rpc_conn \<Rightarrow> rpc_server
     \<Rightarrow> conn_error + (bool \<times> rpc_conn \<times> rpc_server \<times> bytes option)" where
  "process lib big now c s =
     (case unframe big (m_read_buf c) of
        None \<Rightarrow> Inl ReadBeyondBuffer
      | Some serializedData \<Rightarrow>
          (case RpcHeader_ParseFromString lib serializedData (RpcHeader_new lib) of
             (False, _) \<Rightarrow> Inr (False, c, s, None)
           | (True, h) \<Rightarrow>
               (let c1 = c\<lparr>service_name := h_service_name h, method_name := h_method_name h, ip := h_ip h,
                           port := h_port h, type := h_message_type h, args_size := h_args_size h\<rparr>
                in if type c1 = 1 then Inr (True, conn_reset c1, NotifyService now c1 s, None)
                   else Inr (True, conn_reset c1, s, Some (CallingMethods c1 s)))))"

section \<open>\<open>Rpc_server\<close>\<close>

fun handleClient_loop ::
    "'u pb_lib \<Rightarrow> bool \<Rightarrow> (bool \<times> recv_result \<times> int) list \<Rightarrow> rpc_conn \<Rightarrow> rpc_server \<Rightarrow> bytes list
     \<Rightarrow> conn_error + (bool \<times> rpc_conn \<times> rpc_server \<times> bytes list)" where
  \<comment> \<open>one element per round: \<open>isConnected\<close>, the result of \<^verbatim>\<open>recv\<close> and the time.  The flag: the
    loop was left and the client is closed\<close>
  "handleClient_loop lib big [] c s out = Inr (False, c, s, out)"
| "handleClient_loop lib big ((connected, r, now) # rest) c s out =
     (if \<not> connected then Inr (True, c, s, out)
      else case read_once r c of
        (False, c1) \<Rightarrow> Inr (True, c1, s, out)
      | (True, c1) \<Rightarrow>
          (case process lib big now c1 s of
             Inl e \<Rightarrow> Inl e
           | Inr (False, c2, s2, _) \<Rightarrow> Inr (True, c2, s2, out)
           | Inr (True, c2, s2, reply) \<Rightarrow>
               handleClient_loop lib big rest c2 s2 (case reply of None \<Rightarrow> out | Some b \<Rightarrow> out @ [b])))"

definition handleClient ::
    "'u pb_lib \<Rightarrow> bool \<Rightarrow> nat \<Rightarrow> bool \<Rightarrow> (bool \<times> recv_result \<times> int) list \<Rightarrow> rpc_conn \<Rightarrow> rpc_server
     \<Rightarrow> conn_error + (bool \<times> rpc_conn \<times> rpc_server \<times> bytes list)" where
  "handleClient lib big client valid rounds c s =
     (if \<not> valid then Inr (True, c, s, [])
      else handleClient_loop lib big rounds (conn_init client c) s [])"

text \<open>
  \<open>doHeartbeat\<close>: the copy of \<open>time_map\<close> taken under the lock, as the list of its entries in
  the iteration order of the hash table, and what is done for each.
\<close>

definition hb_copy :: "bytes list \<Rightarrow> rpc_server \<Rightarrow> (bytes \<times> int) list" where
  "hb_copy order s = map (\<lambda>k. (k, the (time_map s k))) (filter (\<lambda>k. time_map s k \<noteq> None) order)"

definition hb_erase :: "bytes \<Rightarrow> rpc_server \<Rightarrow> rpc_server" where
  "hb_erase k s = s\<lparr>time_map := (time_map s)(k := None), service_map := (service_map s)(k := None)\<rparr>"

definition hb_entry :: "int \<Rightarrow> bytes \<times> int \<Rightarrow> rpc_server \<Rightarrow> rpc_server" where
  "hb_entry nowtime m s = (if snd m + 60 < nowtime then hb_erase (fst m) s else s)"

definition doHeartbeat_round :: "int \<Rightarrow> bytes list \<Rightarrow> rpc_server \<Rightarrow> rpc_server" where
  \<comment> \<open>one round of the loop when nothing else runs in between\<close>
  "doHeartbeat_round nowtime order s = fold (hb_entry nowtime) (hb_copy order s) s"

lemmas registry_defs [model_defs] =
  conn_reset_def conn_init_def put_bytes_def read_once_def NotifyService_def CallingMethods_def
  reg_put_def hb_erase_def hb_entry_def service_key_def

section \<open>The contract of a registry\<close>

text \<open>
  What a connection relies on: a lookup finds the last value registered under the key,
  unless it was erased, and keys do not influence each other.
\<close>

locale service_registry =
  fixes register :: "'k \<Rightarrow> 'v \<Rightarrow> int \<Rightarrow> 's \<Rightarrow> 's"
    and erase :: "'k \<Rightarrow> 's \<Rightarrow> 's"
    and lookup :: "'k \<Rightarrow> 's \<Rightarrow> 'v option"
    and stamp :: "'k \<Rightarrow> 's \<Rightarrow> int option"
  assumes lookup_register: "lookup k' (register k v now s) = (if k' = k then Some v else lookup k' s)"
    and lookup_erase: "lookup k' (erase k s) = (if k' = k then None else lookup k' s)"
    and stamp_register: "stamp k' (register k v now s) = (if k' = k then Some now else stamp k' s)"
    and stamp_erase: "stamp k' (erase k s) = (if k' = k then None else stamp k' s)"
begin

definition expire :: "('k \<times> int \<Rightarrow> bool) \<Rightarrow> 'k \<times> int \<Rightarrow> 's \<Rightarrow> 's" where
  "expire old m s = (if old m then erase (fst m) s else s)"

lemma lookup_expires:
  "lookup k (fold (expire old) ms s) = (if \<exists>t. (k, t) \<in> set ms \<and> old (k, t) then None else lookup k s)"
  by (induction ms arbitrary: s) (auto simp: expire_def lookup_erase)

lemma stamp_expires:
  "stamp k (fold (expire old) ms s) = (if \<exists>t. (k, t) \<in> set ms \<and> old (k, t) then None else stamp k s)"
  by (induction ms arbitrary: s) (auto simp: expire_def stamp_erase)

lemma lookup_registers_other:
  "k \<notin> fst ` set rs \<Longrightarrow> lookup k (fold (\<lambda>(k, v, now). register k v now) rs s) = lookup k s"
proof (induction rs arbitrary: s)
  case (Cons r rs)
  then show ?case by (cases r) (auto simp: lookup_register)
qed simp

lemma register_last:
  "k \<notin> fst ` set rs \<Longrightarrow> lookup k (fold (\<lambda>(k, v, now). register k v now) rs (register k v now s)) = Some v"
  by (simp add: lookup_registers_other lookup_register)

end

interpretation rg: service_registry reg_put hb_erase "\<lambda>k s. service_map s k" "\<lambda>k s. time_map s k"
  by unfold_locales (auto simp: reg_put_def hb_erase_def)

lemma doHeartbeat_expire: "doHeartbeat_round nowtime order s = fold (rg.expire (\<lambda>m. snd m + 60 < nowtime)) (hb_copy order s) s"
  unfolding doHeartbeat_round_def by (rule fold_cong) (simp_all add: hb_entry_def rg.expire_def fun_eq_iff)

lemma set_hb_copy: "(k, t) \<in> set (hb_copy order s) \<longleftrightarrow> k \<in> set order \<and> time_map s k = Some t"
  by (auto simp: hb_copy_def)

definition doHeartbeat_rounds :: "(int \<times> bytes list) list \<Rightarrow> rpc_server \<Rightarrow> rpc_server" where
  \<comment> \<open>the loop of \<open>doHeartbeat\<close>: the time each round reads and its iteration order\<close>
  "doHeartbeat_rounds rounds s = fold (\<lambda>(nowtime, order). doHeartbeat_round nowtime order) rounds s"

section \<open>The centre as a system\<close>

text \<open>
  Registrations, the clock and the sweep interleave at the lock.  The program counter of the
  sweep: asleep, the time was read (\<open>Timed\<close>), or the time and the entries of the copy it
  has not looked at yet.  \<open>last_sweep\<close>: the time the last complete round read.
\<close>

datatype sweep_pc = Asleep | Timed int | Sweeping int "(bytes \<times> int) list"

record centre =
  srv :: rpc_server
  clock :: int
  sweep :: sweep_pc
  last_sweep :: int

definition centre_new :: "int \<Rightarrow> centre" where
  "centre_new now = \<lparr>srv = rpc_server_new, clock = now, sweep = Asleep, last_sweep = now\<rparr>"

definition centre_start :: "centre \<Rightarrow> bool" where
  "centre_start c \<longleftrightarrow> (\<exists>now. c = centre_new now)"

inductive centre_step :: "centre \<Rightarrow> centre \<Rightarrow> bool" where
  cs_tick: "0 \<le> d \<Longrightarrow> centre_step c (c\<lparr>clock := clock c + d\<rparr>)"
| cs_register: "centre_step c (c\<lparr>srv := NotifyService (clock c) conn (srv c)\<rparr>)"
| cs_time: "sweep c = Asleep \<Longrightarrow> centre_step c (c\<lparr>sweep := Timed (clock c)\<rparr>)"
| cs_copy: "sweep c = Timed now \<Longrightarrow> dom (time_map (srv c)) \<subseteq> set order \<Longrightarrow>
     centre_step c (c\<lparr>sweep := Sweeping now (hb_copy order (srv c))\<rparr>)"
| cs_entry: "sweep c = Sweeping now ((k, t) # ms) \<Longrightarrow>
     centre_step c (c\<lparr>srv := hb_entry now (k, t) (srv c), sweep := Sweeping now ms\<rparr>)"
| cs_swept: "sweep c = Sweeping now [] \<Longrightarrow> centre_step c (c\<lparr>sweep := Asleep, last_sweep := now\<rparr>)"

definition sweep_ok :: "int \<Rightarrow> rpc_server \<Rightarrow> sweep_pc \<Rightarrow> bool" where
  "sweep_ok clk s p =
     (case p of Asleep \<Rightarrow> True | Timed now \<Rightarrow> now \<le> clk
      | Sweeping now ms \<Rightarrow> now \<le> clk \<and> (\<forall>k t. time_map s k = Some t \<and> t + 60 < now \<longrightarrow> (k, t) \<in> set ms))"

definition stamps_ok :: "int \<Rightarrow> int \<Rightarrow> rpc_server \<Rightarrow> bool" where
  "stamps_ok clk lst s \<longleftrightarrow>
     dom (service_map s) = dom (time_map s) \<and> (\<forall>k t. time_map s k = Some t \<longrightarrow> t \<le> clk \<and> lst \<le> t + 60)"

definition centre_ok :: "centre \<Rightarrow> bool" where
  "centre_ok c \<longleftrightarrow>
     last_sweep c \<le> clock c \<and> stamps_ok (clock c) (last_sweep c) (srv c) \<and> sweep_ok (clock c) (srv c) (sweep c)"

lemma stamps_ok_register: "stamps_ok clk lst s \<Longrightarrow> lst \<le> clk \<Longrightarrow> stamps_ok clk lst (NotifyService clk conn s)"
  by (auto simp: stamps_ok_def NotifyService_def reg_put_def Let_def)

lemma stamps_ok_entry: "stamps_ok clk lst s \<Longrightarrow> stamps_ok clk lst (hb_entry now m s)"
  by (auto simp: stamps_ok_def hb_entry_def hb_erase_def)

lemma sweep_ok_register: "sweep_ok clk s p \<Longrightarrow> sweep_ok clk (NotifyService clk conn s) p"
  by (auto simp: sweep_ok_def NotifyService_def reg_put_def Let_def split: sweep_pc.splits)

lemma sweep_ok_entry:
  "sweep_ok clk s (Sweeping now ((k, t) # ms)) \<Longrightarrow> sweep_ok clk (hb_entry now (k, t) s) (Sweeping now ms)"
  by (auto simp: sweep_ok_def hb_entry_def hb_erase_def)

lemma centre_step_ok:
  assumes "centre_step c c'" and "centre_ok c"
  shows "centre_ok c'"
  using assms
proof (induction rule: centre_step.induct)
  case (cs_tick d c)
  then show ?case
    by (force simp: centre_ok_def stamps_ok_def sweep_ok_def split: sweep_pc.splits)
next
  case (cs_copy c now order)
  then show ?case by (auto simp: centre_ok_def sweep_ok_def set_hb_copy)
next
  case (cs_swept c now)
  then show ?case by (force simp: centre_ok_def stamps_ok_def sweep_ok_def)
qed (simp_all add: centre_ok_def stamps_ok_register sweep_ok_register stamps_ok_entry sweep_ok_entry,
     simp add: sweep_ok_def)

lemma centre_start_ok: "centre_start c \<Longrightarrow> centre_ok c"
  by (auto simp: centre_start_def centre_new_def centre_ok_def rpc_server_new_def stamps_ok_def sweep_ok_def)

interpretation ce: invariant_system centre_start centre_step centre_ok
  by unfold_locales (rule centre_start_ok, assumption, rule centre_step_ok)

section \<open>One request\<close>

definition received :: "bytes \<Rightarrow> rpc_conn \<Rightarrow> rpc_conn" where
  \<comment> \<open>the connection after a successful \<open>read_once\<close>\<close>
  "received bs c = snd (read_once (Received bs) c)"

definition take_header :: "'u RpcHeader \<Rightarrow> rpc_conn \<Rightarrow> rpc_conn" where
  "take_header h c =
     c\<lparr>service_name := h_service_name h, method_name := h_method_name h, ip := h_ip h,
       port := h_port h, type := h_message_type h, args_size := h_args_size h\<rparr>"

definition sendable :: "'u pb_lib \<Rightarrow> 'u RpcHeader \<Rightarrow> bool" where
  \<comment> \<open>a header without unknown fields whose frame fits into the receive buffer\<close>
  "sendable lib h \<longleftrightarrow>
     length (h_service_name h) < 2 ^ 31 \<and> length (h_method_name h) < 2 ^ 31 \<and> length (h_ip h) < 2 ^ 31
     \<and> h_unknown h = no_unknown lib \<and> 4 + length (RpcHeader_InternalSerialize lib h) \<le> READ_BUFFER_SIZE"

definition header_frame :: "'u pb_lib \<Rightarrow> bool \<Rightarrow> 'u RpcHeader \<Rightarrow> bytes" where
  "header_frame lib big h = frame big (RpcHeader_InternalSerialize lib h)"

lemma received_buf: "m_read_buf (received bs c) = put_bytes bs (m_read_buf c)"
  by (simp add: received_def read_once_def put_bytes_def)

lemma unframe_received:
  assumes "length (m_read_buf c) = READ_BUFFER_SIZE" and "4 + length d \<le> READ_BUFFER_SIZE"
  shows "unframe big (m_read_buf (received (frame big d @ r) c)) = Some d"
proof -
  have l: "length (frame big d) = 4 + length d" by (simp add: frame_def)
  have "put_bytes (frame big d @ r) (m_read_buf c)
      = frame big d @ (take (length (m_read_buf c) - length (frame big d)) r @ drop (length (frame big d @ r)) (m_read_buf c))"
    using assms l by (simp add: put_bytes_def)
  moreover have "length d < 2 ^ 32" using assms(2) by (simp add: READ_BUFFER_SIZE_def)
  ultimately show ?thesis by (simp add: received_buf unframe_frame)
qed

lemma process_unframed:
  assumes "unframe big (m_read_buf c) = Some d" and "RpcHeader_ParseFromString lib d (RpcHeader_new lib) = (True, h)"
  shows "process lib big now c s =
    (if h_message_type h = 1
     then Inr (True, conn_reset (take_header h c), NotifyService now (take_header h c) s, None)
     else Inr (True, conn_reset (take_header h c), s, Some (CallingMethods (take_header h c) s)))"
  using assms by (simp add: process_def take_header_def Let_def)

lemma process_received:
  assumes "wire_format lib" and "sendable lib h" and "length (m_read_buf c) = READ_BUFFER_SIZE"
  shows "process lib big now (received (header_frame lib big h @ r) c) s =
    (let c1 = take_header h (received (header_frame lib big h @ r) c)
     in if h_message_type h = 1 then Inr (True, conn_reset c1, NotifyService now c1 s, None)
        else Inr (True, conn_reset c1, s, Some (CallingMethods c1 s)))"
proof -
  have "wire_format.encodable lib h"
    using assms by (simp add: sendable_def wire_format.encodable_def [OF assms(1)])
  then have "RpcHeader_ParseFromString lib (RpcHeader_InternalSerialize lib h) (RpcHeader_new lib) = (True, h)"
    by (rule wire_format.parse_serialized [OF assms(1)])
  moreover have "unframe big (m_read_buf (received (header_frame lib big h @ r) c)) = Some (RpcHeader_InternalSerialize lib h)"
    unfolding header_frame_def using assms by (intro unframe_received) (simp_all add: sendable_def)
  ultimately show ?thesis by (simp add: process_unframed Let_def)
qed

definition announced :: "'u RpcHeader \<Rightarrow> bytes" where
  \<comment> \<open>the address a header registers\<close>
  "announced h = h_ip h @ str '':'' @ int_to_string (sint (h_port h))"

lemma NotifyService_header:
  "NotifyService now (take_header h c) s = reg_put (h_service_name h @ h_method_name h) (announced h) now s"
  by (simp add: NotifyService_def take_header_def service_key_def announced_def)

lemma CallingMethods_header:
  "CallingMethods (take_header h c) s =
     (case service_map s (h_service_name h @ h_method_name h) of None \<Rightarrow> str ''error'' | Some v \<Rightarrow> v)"
  by (simp add: CallingMethods_def take_header_def service_key_def)

lemmas request_simps = process_received NotifyService_header CallingMethods_header

lemma length_conn_reset: "length (m_read_buf c) = READ_BUFFER_SIZE \<Longrightarrow> length (m_read_buf (conn_reset c)) = READ_BUFFER_SIZE"
  by (simp add: conn_reset_def SIZEOF_STRING_def READ_BUFFER_SIZE_def)

lemma length_take_header [simp]: "m_read_buf (take_header h c) = m_read_buf c"
  by (simp add: take_header_def)

section \<open>Properties\<close>

definition demo_lookup :: "bytes RpcHeader" where
  "demo_lookup = demo_header\<lparr>h_message_type := 0\<rparr>"

definition demo_conn :: rpc_conn where
  "demo_conn = rpc_conn_new (replicate READ_BUFFER_SIZE 0)"

lemma demo_sendable: "sendable base128_lib demo_header" "sendable base128_lib demo_lookup"
  by (simp_all add: sendable_def demo_lookup_def demo_header_def base128_lib_def RpcHeader_InternalSerialize_def
      READ_BUFFER_SIZE_def varint.simps)

lemma demo_conn_buffer: "length (m_read_buf demo_conn) = READ_BUFFER_SIZE"
  by (simp add: demo_conn_def rpc_conn_new_def)

text \<open>
  C2: a service that registers is found: after the centre has processed the frame of a
  registration, a lookup frame for the same service and method name, on any connection, is
  answered with the registered \<open>ip:port\<close>, whatever bytes follow in the buffers; lookups
  leave the tables alone, and a lookup of a name that is not in the table is answered
  \<open>error\<close>.
\<close>

theorem registered_service_found:
  assumes "wire_format lib" and "sendable lib h" and "sendable lib q"
    and "length (m_read_buf c) = READ_BUFFER_SIZE" and "length (m_read_buf d) = READ_BUFFER_SIZE"
    and "h_message_type h = 1" and "h_message_type q \<noteq> 1"
  shows "\<exists>c1 s1 d1. process lib big now (received (header_frame lib big h @ x) c) s = Inr (True, c1, s1, None)
    \<and> time_map s1 (h_service_name h @ h_method_name h) = Some now
    \<and> process lib big now' (received (header_frame lib big q @ y) d) s1 =
        Inr (True, d1, s1, Some
          (if h_service_name q @ h_method_name q = h_service_name h @ h_method_name h then announced h
           else case service_map s (h_service_name q @ h_method_name q) of None \<Rightarrow> str ''error'' | Some v \<Rightarrow> v))"
  using assms by (auto simp: request_simps Let_def rg.lookup_register rg.stamp_register)

theorem registered_service_found_witness:
  "\<exists>c1 s1 d1. process base128_lib False 5 (received (header_frame base128_lib False demo_header) demo_conn) rpc_server_new
       = Inr (True, c1, s1, None)
    \<and> process base128_lib False 6 (received (header_frame base128_lib False demo_lookup) demo_conn) s1
       = Inr (True, d1, s1, Some (str ''1:8080''))"
proof -
  have "announced demo_header = str ''1:8080''"
    by (simp add: announced_def demo_header_def str_def int_to_string_def nat_digits.simps)
  then show ?thesis
    using registered_service_found [OF b128.wire_format_axioms demo_sendable demo_conn_buffer demo_conn_buffer,
        of False 5 "[]" rpc_server_new 6 "[]"]
    by (auto simp: demo_lookup_def demo_header_def)
qed

text \<open>
  What follows the first frame in the bytes one \<^verbatim>\<open>recv\<close> returns is ignored: tables and
  reply are those of the first frame alone, so a second request that arrived with it is lost.
\<close>

theorem coalesced_request_lost:
  assumes "wire_format lib" and "sendable lib h" and "length (m_read_buf c) = READ_BUFFER_SIZE"
  shows "\<exists>c1 c2. \<exists>s1 reply. process lib big now (received (header_frame lib big h @ header_frame lib big h') c) s
      = Inr (True, c1, s1, reply)
    \<and> process lib big now (received (header_frame lib big h) c) s = Inr (True, c2, s1, reply)"
  using process_received [OF assms, of big now "header_frame lib big h'" s] process_received [OF assms, of big now "[]" s]
  by (simp add: Let_def NotifyService_header CallingMethods_header)

theorem coalesced_request_lost_witness:
  "\<exists>c1 c2 s1 reply. process base128_lib False 5
        (received (header_frame base128_lib False demo_header @ header_frame base128_lib False demo_lookup) demo_conn) rpc_server_new
      = Inr (True, c1, s1, reply)
    \<and> process base128_lib False 5 (received (header_frame base128_lib False demo_header) demo_conn) rpc_server_new
      = Inr (True, c2, s1, reply)"
  using coalesced_request_lost [OF b128.wire_format_axioms demo_sendable(1) demo_conn_buffer] by blast

text \<open>
  The announced size is not checked: a message whose first four bytes announce more than
  2044 bytes makes \<open>process\<close> build a string from memory beyond the receive buffer.
\<close>

theorem announced_size_overrun:
  assumes "length (m_read_buf c) = READ_BUFFER_SIZE" and "READ_BUFFER_SIZE - 4 < unat n"
  shows "process lib big now (received (store32 big (htonl big n) @ x) c) s = Inl ReadBeyondBuffer"
proof -
  let ?p = "store32 big (htonl big n)"
  have "\<exists>r. put_bytes (?p @ x) (m_read_buf c) = ?p @ r \<and> length (?p @ r) = READ_BUFFER_SIZE"
    using assms(1) by (auto simp: put_bytes_def READ_BUFFER_SIZE_def)
  then show ?thesis
    using assms(2) by (auto simp: received_buf process_def unframe_def Let_def load_store32 ntohl_htonl READ_BUFFER_SIZE_def)
qed

theorem announced_size_overrun_witness:
  "process base128_lib False 5 (received [0, 0, 16, 0, 7] demo_conn) rpc_server_new = Inl ReadBeyondBuffer"
proof -
  have low_byte: "(4096 :: u8) = 0" by simp
  show ?thesis
    using announced_size_overrun [OF demo_conn_buffer, of 4096 base128_lib False 5 "[7]" rpc_server_new]
    by (simp add: store_htonl READ_BUFFER_SIZE_def low_byte)
qed

text \<open>
  C22: one undisturbed round of the sweep removes exactly the services whose last registration
  is more than 60 seconds old, from both tables, and leaves every other entry as it was, in
  whatever order the hash table is walked.
\<close>

theorem doHeartbeat_exact:
  assumes "dom (time_map s) \<subseteq> set order"
  shows "time_map (doHeartbeat_round nowtime order s) k =
      (case time_map s k of Some t \<Rightarrow> if t + 60 < nowtime then None else Some t | None \<Rightarrow> None)
    \<and> service_map (doHeartbeat_round nowtime order s) k =
      (case time_map s k of Some t \<Rightarrow> if t + 60 < nowtime then None else service_map s k | None \<Rightarrow> service_map s k)"
  using assms
  by (auto simp: doHeartbeat_expire rg.stamp_expires rg.lookup_expires set_hb_copy split: option.split)

definition demo_tables :: rpc_server where
  "demo_tables = reg_put [1] [10] 0 (reg_put [2] [20] 50 rpc_server_new)"

lemma demo_tables_dom: "dom (time_map demo_tables) \<subseteq> set [[1], [2]]"
  by (auto simp: demo_tables_def reg_put_def rpc_server_new_def split: if_splits)

theorem doHeartbeat_exact_witness:
  "service_map (doHeartbeat_round 61 [[1], [2]] demo_tables) [1] = None
   \<and> service_map (doHeartbeat_round 61 [[1], [2]] demo_tables) [2] = Some [20]"
  using doHeartbeat_exact [OF demo_tables_dom, of 61 "[1]"] doHeartbeat_exact [OF demo_tables_dom, of 61 "[2]"]
  by (simp add: demo_tables_def reg_put_def)

lemma doHeartbeat_round_stamp:
  "time_map (doHeartbeat_round nowtime order s) k =
     (if k \<in> set order \<and> (\<exists>t. time_map s k = Some t \<and> t + 60 < nowtime) then None else time_map s k)"
  "service_map (doHeartbeat_round nowtime order s) k =
     (if k \<in> set order \<and> (\<exists>t. time_map s k = Some t \<and> t + 60 < nowtime) then None else service_map s k)"
  by (auto simp: doHeartbeat_expire rg.stamp_expires rg.lookup_expires set_hb_copy)

text \<open>
  C23: a service that falls silent disappears: three rounds of the loop, each at least the 30
  seconds of its sleep after the previous one, end with the service in neither table, if it
  was in both and nobody registers it any more.
\<close>

theorem silent_service_expires:
  assumes "time_map s k = Some t" and "t \<le> t0" and "t0 + 30 \<le> t1" and "t1 + 30 \<le> t2" and "t2 + 30 \<le> t3"
    and "k \<in> set o1" and "k \<in> set o2" and "k \<in> set o3"
  shows "time_map (doHeartbeat_rounds [(t1, o1), (t2, o2), (t3, o3)] s) k = None
    \<and> service_map (doHeartbeat_rounds [(t1, o1), (t2, o2), (t3, o3)] s) k = None"
  using assms by (simp add: doHeartbeat_rounds_def doHeartbeat_round_stamp)

theorem silent_service_expires_witness:
  "service_map demo_tables [1] = Some [10]
   \<and> service_map (doHeartbeat_rounds [(30, [[1]]), (60, [[1], [2]]), (91, [[2], [1]])] demo_tables) [1] = None"
  using silent_service_expires [of demo_tables "[1]" 0 0 30 60 91 "[[1]]" "[[1], [2]]" "[[2], [1]]"]
  by (simp add: demo_tables_def reg_put_def)

text \<open>
  C21: however registrations, lookups, the clock and the sweep interleave at the lock, every
  listed service has a stamp and the other way round, and no stamp is more than 60 seconds
  older than the time the last complete sweep read: a stale service survives at most one
  sweep.
\<close>

theorem centre_entries_fresh:
  assumes "centre_step\<^sup>*\<^sup>* (centre_new now) c"
  shows "dom (service_map (srv c)) = dom (time_map (srv c))
    \<and> (\<forall>t \<in> ran (time_map (srv c)). last_sweep c \<le> t + 60 \<and> t \<le> clock c) \<and> last_sweep c \<le> clock c"
proof -
  have "centre_ok c"
    using ce.reachable_inv [OF _ assms] by (auto simp: centre_start_def)
  then show ?thesis by (auto simp: centre_ok_def stamps_ok_def ran_def)
qed

theorem centre_entries_fresh_witness:
  "dom (service_map (NotifyService 7 demo_conn rpc_server_new)) = dom (time_map (NotifyService 7 demo_conn rpc_server_new))"
proof -
  have "centre_step\<^sup>*\<^sup>* (centre_new 7) ((centre_new 7)\<lparr>srv := NotifyService 7 demo_conn rpc_server_new\<rparr>)"
    using r_into_rtranclp [of centre_step, OF cs_register [of "centre_new 7" demo_conn]] by (simp add: centre_new_def)
  from centre_entries_fresh [OF this] show ?thesis by simp
qed

text \<open>
  The sweep decides on its copy: when a service whose entry in the copy is stale
  registers again before the sweep reaches that entry, the sweep deletes the new
  registration, and a lookup that follows is answered \<open>error\<close>.
\<close>

theorem sweep_drops_fresh_registration:
  assumes "sweep c = Sweeping now ((k, t) # ms)" and "t + 60 < now" and "service_key conn = k"
  shows "\<exists>c1 c2. centre_step c c1 \<and> centre_step c1 c2
    \<and> time_map (srv c1) k = Some (clock c) \<and> CallingMethods conn (srv c2) = str ''error''"
proof (intro exI conjI)
  let ?c1 = "c\<lparr>srv := NotifyService (clock c) conn (srv c)\<rparr>"
  show "centre_step c ?c1" by (rule cs_register)
  show "centre_step ?c1 (?c1\<lparr>srv := hb_entry now (k, t) (srv ?c1), sweep := Sweeping now ms\<rparr>)"
    by (rule cs_entry) (use assms in simp)
  show "time_map (srv ?c1) k = Some (clock c)"
    using assms by (simp add: NotifyService_def Let_def rg.stamp_register)
  show "CallingMethods conn (srv (?c1\<lparr>srv := hb_entry now (k, t) (srv ?c1), sweep := Sweeping now ms\<rparr>)) = str ''error''"
    using assms by (simp add: CallingMethods_def hb_entry_def rg.lookup_erase)
qed

theorem sweep_drops_fresh_registration_witness:
  "\<exists>c1 c2. centre_step ((centre_new 90)\<lparr>sweep := Sweeping 90 [([], 5)]\<rparr>) c1 \<and> centre_step c1 c2
    \<and> time_map (srv c1) [] = Some 90 \<and> CallingMethods demo_conn (srv c2) = str ''error''"
proof -
  have "service_key demo_conn = []" by (simp add: service_key_def demo_conn_def rpc_conn_new_def)
  then show ?thesis
    using sweep_drops_fresh_registration [of "(centre_new 90)\<lparr>sweep := Sweeping 90 [([], 5)]\<rparr>" 90 "[]" 5 "[]" demo_conn]
    by (simp add: centre_new_def)
qed

end
