(* ===== verification/Rpc.thy ===== *)
theory Rpc
  imports Registry
begin

text \<open>
  The two ends of a remote call: \<^verbatim>\<open>RPC/provider.cpp\<close>, the server side that decodes a request
  and runs the service, and \<^verbatim>\<open>RPC/channel.cpp\<close> with \<^verbatim>\<open>RPC/control.cpp\<close>, the client side.
  The services, their message types and the network are not part of these files: they are the
  records \<open>pb_service\<close> and \<open>net\<close>.
\<close>

section \<open>The services\<close>

text \<open>
  What \<^verbatim>\<open>google::protobuf::Service\<close> and its descriptors offer.  \<open>call_method\<close> runs the user's
  method: the response it had filled in when it ran the closure \<^verbatim>\<open>done\<close>, or \<open>None\<close> if it did
  not run it.
\<close>

record ('s, 'm, 'q, 'p) pb_service =
  service_desc_name :: "'s \<Rightarrow> bytes"
  method_list :: "'s \<Rightarrow> 'm list"
  method_desc_name :: "'m \<Rightarrow> bytes"
  parse_request :: "'s \<Rightarrow> 'm \<Rightarrow> bytes \<Rightarrow> 'q option"
  call_method :: "'s \<Rightarrow> 'm \<Rightarrow> 'q \<Rightarrow> 'p option"
  serialize_response :: "'p \<Rightarrow> bytes option"

record ('s, 'm) ServiceInfo =
  m_service :: 's
  m_methodMap :: "bytes \<Rightarrow> 'm option"

record ('u, 's, 'm) provider =
  pv_read_buf :: bytes
  pv_port :: u32
  pv_type :: u32
  pv_rpc_header_str :: bytes
  pv_service_name :: bytes
  pv_method_name :: bytes
  pv_ip :: bytes
  pv_args_str :: bytes
  pv_client :: "nat option"
  pv_rpcHeader :: "'u RpcHeader"
  m_serviceMap :: "bytes \<Rightarrow> ('s, 'm) ServiceInfo option"

section \<open>\<open>provider\<close>\<close>

definition provider_reset :: "('u, 's, 'm) provider \<Rightarrow> ('u, 's, 'm) provider" where
  "provider_reset p = p\<lparr>pv_read_buf := replicate READ_BUFFER_SIZE 0\<rparr>"

definition provider_new :: "'u pb_lib \<Rightarrow> ('u, 's, 'm) provider" where
  "provider_new lib = provider_reset
     \<lparr>pv_read_buf = [], pv_port = 0, pv_type = 0, pv_rpc_header_str = [], pv_service_name = [], pv_method_name = [],
      pv_ip = [], pv_args_str = [], pv_client = None, pv_rpcHeader = RpcHeader_new lib, m_serviceMap = (\<lambda>_. None)\<rparr>"

definition provider_read_once :: "recv_result \<Rightarrow> ('u, 's, 'm) provider \<Rightarrow> bool \<times> ('u, 's, 'm) provider" where
  "provider_read_once r p =
     (case r of
        RecvFailed \<Rightarrow> (False, p)
      | RecvAgain \<Rightarrow> (True, p)
      | Received bs \<Rightarrow> if bs = [] then (False, p) else (True, p\<lparr>pv_read_buf := put_bytes bs (pv_read_buf p)\<rparr>))"

definition map_insert :: "'k \<Rightarrow> 'v \<Rightarrow> ('k \<Rightarrow> 'v option) \<Rightarrow> 'k \<Rightarrow> 'v option" where
  \<comment> \<open>\<^verbatim>\<open>unordered_map::insert\<close>: a key that is there keeps its value\<close>
  "map_insert k v m = (case m k of None \<Rightarrow> m(k \<mapsto> v) | Some _ \<Rightarrow> m)"

definition provider_NotifyService ::
    "('s, 'm, 'q, 'p) pb_service \<Rightarrow> 's \<Rightarrow> ('u, 's, 'm) provider \<Rightarrow> ('u, 's, 'm) provider" where
  "provider_NotifyService api service p =
     (let methods = fold (\<lambda>m mm. map_insert (method_desc_name api m) m mm) (method_list api service) (\<lambda>_. None);
          service_info = \<lparr>m_service = service, m_methodMap = methods\<rparr>
      in p\<lparr>m_serviceMap := map_insert (service_desc_name api service) service_info (m_serviceMap p)\<rparr>)"

definition SendRpcResponse ::
    "('s, 'm, 'q, 'p) pb_service \<Rightarrow> nat option \<Rightarrow> 'p \<Rightarrow> (nat option \<times> bytes) option" where
  \<comment> \<open>what is sent, and the connection it is sent on\<close>
  "SendRpcResponse api conn response =
     (case serialize_response api response of Some response_str \<Rightarrow> Some (conn, response_str) | None \<Rightarrow> None)"

definition read_header_str :: "'u pb_lib \<Rightarrow> bytes \<Rightarrow> bytes \<times> bytes" where
  \<comment> \<open>the size and the header string; when the size cannot be read it stays 0, and nothing
    more is read from the input\<close>
  "read_header_str lib recv =
     (let (header_size, rest) = (case ReadVarint32 lib recv of None \<Rightarrow> (0, []) | Some (v, r) \<Rightarrow> (v, r));
          (_, s, rest1) = ReadString lib (unat header_size) rest
      in (s, rest1))"

definition OnMessage_call ::
    "('s, 'm, 'q, 'p) pb_service \<Rightarrow> ('u, 's, 'm) provider \<Rightarrow> bool \<times> (nat option \<times> bytes) option" where
  \<comment> \<open>\<open>OnMessage\<close> from the lookup of the service on\<close>
  "OnMessage_call api p =
     (case m_serviceMap p (pv_service_name p) of
        None \<Rightarrow> (False, None)
      | Some info \<Rightarrow>
          (case m_methodMap info (pv_method_name p) of
             None \<Rightarrow> (False, None)
           | Some m \<Rightarrow>
               (case parse_request api (m_service info) m (pv_args_str p) of
                  None \<Rightarrow> (False, None)
                | Some request \<Rightarrow>
                    (True, case call_method api (m_service info) m request of
                             None \<Rightarrow> None
                           | Some response \<Rightarrow> SendRpcResponse api (pv_client p) response))))"

definition OnMessage ::
    "'u pb_lib \<Rightarrow> ('s, 'm, 'q, 'p) pb_service \<Rightarrow> ('u, 's, 'm) provider
     \<Rightarrow> conn_error + (bool \<times> ('u, 's, 'm) provider \<times> (nat option \<times> bytes) option)" where
  \<comment> \<open>\<^verbatim>\<open>strlen\<close> runs over the end of a buffer without a zero byte\<close>
  "OnMessage lib api p =
     (if 0 \<notin> set (pv_read_buf p) then Inl ReadBeyondBuffer
      else
        (let recv_buf = takeWhile (\<lambda>b. b \<noteq> 0) (pv_read_buf p);
             (header_str, rest) = read_header_str lib recv_buf;
             p1 = p\<lparr>pv_rpc_header_str := header_str\<rparr>
         in case RpcHeader_ParseFromString lib header_str (pv_rpcHeader p) of
              (False, h) \<Rightarrow> Inr (False, p1\<lparr>pv_rpcHeader := h\<rparr>, None)
            | (True, h) \<Rightarrow>
                (let p2 = p1\<lparr>pv_rpcHeader := h, pv_service_name := h_service_name h, pv_method_name := h_method_name h,
                             pv_type := h_message_type h, pv_ip := h_ip h, pv_port := h_port h\<rparr>;
                     (read_args_success, args, _) = ReadString lib (unat (h_args_size h)) rest;
                     p3 = p2\<lparr>pv_args_str := args\<rparr>
                 in if \<not> read_args_success then Inr (False, p3, None)
                    else (case OnMessage_call api p3 of (b, reply) \<Rightarrow> Inr (b, p3, reply)))))"

text \<open>
  \<open>handleClient\<close>: the provider is one object for all connections, and a fiber that waits in
  \<^verbatim>\<open>recv\<close> lets the others run.  \<open>client_enter\<close> is the code up to the loop, \<open>client_read\<close>
  the call of \<^verbatim>\<open>recv\<close>, on the socket \<open>m_client\<close> then holds, \<open>client_message\<close> what
  follows when it returns, up to the next \<^verbatim>\<open>recv\<close>.
\<close>

definition client_enter :: "nat \<Rightarrow> bool \<Rightarrow> ('u, 's, 'm) provider \<Rightarrow> bool \<times> ('u, 's, 'm) provider" where
  "client_enter client valid p = (valid, p\<lparr>pv_client := Some client\<rparr>)"

definition client_read :: "bool \<Rightarrow> ('u, 's, 'm) provider \<Rightarrow> nat option" where
  \<comment> \<open>the socket read from; \<open>None\<close>: the loop ends\<close>
  "client_read connected p = (if connected then pv_client p else None)"

definition client_message ::
    "'u pb_lib \<Rightarrow> ('s, 'm, 'q, 'p) pb_service \<Rightarrow> recv_result \<Rightarrow> ('u, 's, 'm) provider
     \<Rightarrow> conn_error + (bool \<times> ('u, 's, 'm) provider \<times> (nat option \<times> bytes) option)" where
  "client_message lib api r p =
     (case provider_read_once r p of
        (False, p1) \<Rightarrow> Inr (False, p1, None)
      | (True, p1) \<Rightarrow>
          (case OnMessage lib api p1 of
             Inl e \<Rightarrow> Inl e
           | Inr (False, p2, reply) \<Rightarrow> Inr (False, p2, reply)
           | Inr (True, p2, reply) \<Rightarrow> Inr (True, provider_reset p2, reply)))"

section \<open>\<open>Control\<close>\<close>

datatype rpc_failure =
    CreateSocketFail int | ConnectFail int | SerializeRequestFail | SerializeHeaderFail | RecvFail int | ParseFail bytes

record control =
  m_failed :: bool
  m_errText :: "rpc_failure option"      \<comment> \<open>\<open>None\<close>: the empty text\<close>

definition Control_new :: control where "Control_new = \<lparr>m_failed = False, m_errText = None\<rparr>"

definition Control_Reset :: "control \<Rightarrow> control" where
  "Control_Reset c = c\<lparr>m_failed := False, m_errText := None\<rparr>"

definition SetFailed :: "rpc_failure \<Rightarrow> control \<Rightarrow> control" where
  "SetFailed reason c = c\<lparr>m_failed := True, m_errText := Some reason\<rparr>"

definition Failed :: "control \<Rightarrow> bool" where "Failed c = m_failed c"

definition ErrorText :: "control \<Rightarrow> rpc_failure option" where "ErrorText c = m_errText c"

definition StartCancel :: "control \<Rightarrow> control" where "StartCancel c = c"

definition IsCanceled :: "control \<Rightarrow> bool" where "IsCanceled c = False"

section \<open>\<open>Channel\<close>\<close>

text \<open>
  The network: \<^verbatim>\<open>socket\<close>, \<^verbatim>\<open>connect\<close>, \<^verbatim>\<open>send\<close>, \<^verbatim>\<open>recv\<close> and \<^verbatim>\<open>close\<close> over a state the model
  does not look into; a failing call gives \<open>Inl\<close> and the value of \<^verbatim>\<open>errno\<close>.
\<close>

record 'k net =
  net_socket :: "'k \<Rightarrow> (int + int) \<times> 'k"
  net_connect :: "int \<Rightarrow> bytes \<Rightarrow> u16 \<Rightarrow> 'k \<Rightarrow> (int + unit) \<times> 'k"
  net_send :: "int \<Rightarrow> bytes \<Rightarrow> 'k \<Rightarrow> (int + nat) \<times> 'k"
  net_recv :: "int \<Rightarrow> nat \<Rightarrow> 'k \<Rightarrow> (int + bytes) \<times> 'k"
  net_close :: "int \<Rightarrow> 'k \<Rightarrow> 'k"

record channel =
  ch_fd :: int
  ch_type :: int
  ch_port :: int
  ch_ip :: bytes

definition newConnect ::
    "'k net \<Rightarrow> bytes \<Rightarrow> int \<Rightarrow> channel \<Rightarrow> 'k \<Rightarrow> (rpc_failure option) \<times> channel \<times> 'k" where
  \<comment> \<open>\<open>None\<close>: connected; otherwise the text left in \<open>errMsg\<close>.  \<open>htons\<close> takes 16 bits of the port\<close>
  "newConnect net addr prt ch k =
     (case net_socket net k of
        (Inl e, k1) \<Rightarrow> (Some (CreateSocketFail e), ch\<lparr>ch_fd := - 1\<rparr>, k1)
      | (Inr clientfd, k1) \<Rightarrow>
          (case net_connect net clientfd addr (word_of_int prt) k1 of
             (Inl e, k2) \<Rightarrow> (Some (ConnectFail e), ch\<lparr>ch_fd := - 1\<rparr>, net_close net clientfd k2)
           | (Inr _, k2) \<Rightarrow> (None, ch\<lparr>ch_fd := clientfd\<rparr>, k2)))"

fun connect_tries :: "nat \<Rightarrow> 'k net \<Rightarrow> bytes \<Rightarrow> int \<Rightarrow> channel \<Rightarrow> 'k \<Rightarrow> channel \<times> 'k" where
  \<comment> \<open>a first attempt, and up to \<open>n\<close> more while they fail\<close>
  "connect_tries n net addr prt ch k =
     (case newConnect net addr prt ch k of
        (None, ch1, k1) \<Rightarrow> (ch1, k1)
      | (Some _, ch1, k1) \<Rightarrow> (case n of 0 \<Rightarrow> (ch1, k1) | Suc n' \<Rightarrow> connect_tries n' net addr prt ch1 k1))"

declare connect_tries.simps [simp del]

definition Channel_new :: "'k net \<Rightarrow> bytes \<Rightarrow> u16 \<Rightarrow> bool \<Rightarrow> int \<Rightarrow> 'k \<Rightarrow> channel \<times> 'k" where
  \<comment> \<open>the port is a \<^verbatim>\<open>short\<close>: the 16 bits are read as a signed number\<close>
  "Channel_new net addr prt connectNow ty k =
     (let ch = \<lparr>ch_fd = - 1, ch_type = ty, ch_port = sint prt, ch_ip = addr\<rparr>
      in if \<not> connectNow then (ch, k) else connect_tries 3 net addr (sint prt) ch k)"

definition RpcHeader_SerializeToString :: "'u pb_lib \<Rightarrow> 'u RpcHeader \<Rightarrow> bytes option" where
  \<comment> \<open>the runtime refuses messages above \<^verbatim>\<open>INT_MAX\<close> bytes\<close>
  "RpcHeader_SerializeToString lib h =
     (if RpcHeader_ByteSizeLong lib h < 2 ^ 31 then Some (RpcHeader_InternalSerialize lib h) else None)"

definition call_header :: "'u pb_lib \<Rightarrow> bytes \<Rightarrow> bytes \<Rightarrow> bytes \<Rightarrow> channel \<Rightarrow> 'u RpcHeader" where
  "call_header lib sname mname args_str ch =
     \<lparr>h_service_name = sname, h_method_name = mname, h_args_size = of_nat (length args_str),
      h_message_type = word_of_int (ch_type ch), h_ip = ch_ip ch, h_port = word_of_int (ch_port ch),
      h_unknown = no_unknown lib\<rparr>"

definition rpc_frame :: "'u pb_lib \<Rightarrow> bytes \<Rightarrow> bytes \<Rightarrow> bytes" where
  \<comment> \<open>\<open>send_rpc_str\<close>: the length of the header, the header, the arguments\<close>
  "rpc_frame lib rpc_header_str args_str =
     WriteVarint32 lib (of_nat (length rpc_header_str)) @ rpc_header_str @ args_str"

partial_function (option) send_loop ::
    "'k net \<Rightarrow> bytes \<Rightarrow> channel \<Rightarrow> 'k \<Rightarrow> (bool \<times> channel \<times> 'k) option" where
  \<comment> \<open>the flag: something was sent; otherwise a reconnection failed\<close>
  "send_loop net s ch k =
     (case net_send net (ch_fd ch) s k of
        (Inr _, k1) \<Rightarrow> Some (True, ch, k1)
      | (Inl _, k1) \<Rightarrow>
          (case newConnect net (ch_ip ch) (ch_port ch) (ch\<lparr>ch_fd := - 1\<rparr>) (net_close net (ch_fd ch) k1) of
             (Some _, ch2, k2) \<Rightarrow> Some (False, ch2, k2)
           | (None, ch2, k2) \<Rightarrow> send_loop net s ch2 k2))"

definition channel_close :: "'k net \<Rightarrow> channel \<Rightarrow> 'k \<Rightarrow> channel \<times> 'k" where
  "channel_close net ch k = (ch\<lparr>ch_fd := - 1\<rparr>, net_close net (ch_fd ch) k)"

definition CallMethod_reply ::
    "'k net \<Rightarrow> (bytes \<Rightarrow> 'p option) \<Rightarrow> control \<Rightarrow> channel \<Rightarrow> 'k \<Rightarrow> 'p option \<times> control \<times> channel \<times> 'k" where
  \<comment> \<open>\<open>CallMethod\<close> from the \<^verbatim>\<open>recv\<close> on\<close>
  "CallMethod_reply net parse_response controller ch k =
     (case net_recv net (ch_fd ch) 1024 k of
        (Inl e, k1) \<Rightarrow> (case channel_close net ch k1 of (ch2, k2) \<Rightarrow> (None, SetFailed (RecvFail e) controller, ch2, k2))
      | (Inr bs, k1) \<Rightarrow>
          (case channel_close net ch k1 of (ch2, k2) \<Rightarrow>
             (case parse_response bs of
                None \<Rightarrow> (None, SetFailed (ParseFail bs) controller, ch2, k2)
              | Some response \<Rightarrow> (Some response, controller, ch2, k2))))"

definition CallMethod_send ::
    "'k net \<Rightarrow> bytes \<Rightarrow> (bytes \<Rightarrow> 'p option) \<Rightarrow> control \<Rightarrow> channel \<Rightarrow> 'k
     \<Rightarrow> ('p option \<times> control \<times> channel \<times> 'k) option" where
  \<comment> \<open>\<open>CallMethod\<close> from the loop that sends on\<close>
  "CallMethod_send net s parse_response controller ch k =
     (case send_loop net s ch k of
        None \<Rightarrow> None
      | Some (False, ch1, k1) \<Rightarrow> Some (None, SetFailed SerializeHeaderFail controller, ch1, k1)
      | Some (True, ch1, k1) \<Rightarrow> Some (CallMethod_reply net parse_response controller ch1 k1))"

definition CallMethod ::
    "'u pb_lib \<Rightarrow> 'k net \<Rightarrow> bytes \<Rightarrow> bytes \<Rightarrow> bytes option \<Rightarrow> (bytes \<Rightarrow> 'p option) \<Rightarrow> control \<Rightarrow> channel \<Rightarrow> 'k
     \<Rightarrow> ('p option \<times> control \<times> channel \<times> 'k) option" where
  \<comment> \<open>\<open>args\<close>: what \<^verbatim>\<open>request->SerializeToString\<close> gives.  The response that was filled in, if it was;
    \<open>None\<close>: the loop that sends never ends\<close>
  "CallMethod lib net sname mname args parse_response controller ch k =
     (case (if ch_fd ch = - 1 then newConnect net (ch_ip ch) (ch_port ch) ch k else (None, ch, k)) of
        (Some errMsg, ch1, k1) \<Rightarrow> Some (None, SetFailed errMsg controller, ch1, k1)
      | (None, ch1, k1) \<Rightarrow>
          (case args of
             None \<Rightarrow> Some (None, SetFailed SerializeRequestFail controller, ch1, k1)
           | Some args_str \<Rightarrow>
               (case RpcHeader_SerializeToString lib (call_header lib sname mname args_str ch1) of
                  None \<Rightarrow> Some (None, SetFailed SerializeHeaderFail controller, ch1, k1)
                | Some rpc_header_str \<Rightarrow>
                    CallMethod_send net (rpc_frame lib rpc_header_str args_str) parse_response controller ch1 k1)))"

section \<open>What a request does\<close>

lemma read_header_frame:
  assumes "wire_format lib" and "length hs < 2 ^ 32"
  shows "read_header_str lib (rpc_frame lib hs args) = (hs, args)"
proof -
  have "unat (of_nat (length hs) :: u32) = length hs" using assms(2) by (simp add: unat_of_nat)
  then show ?thesis
    using wire_format.read_write_varint [OF assms(1), of "of_nat (length hs)" "hs @ args"]
      wire_format.read_string [OF assms(1), of "length hs" "hs @ args"]
    by (simp add: read_header_str_def rpc_frame_def)
qed

lemma strlen_received:
  assumes "pv_read_buf p = replicate READ_BUFFER_SIZE 0" and "length s < READ_BUFFER_SIZE" and "s \<noteq> []"
  shows "takeWhile (\<lambda>b. b \<noteq> 0) (pv_read_buf (snd (provider_read_once (Received s) p))) = takeWhile (\<lambda>b. b \<noteq> 0) s"
    and "0 \<in> set (pv_read_buf (snd (provider_read_once (Received s) p)))"
    and "fst (provider_read_once (Received s) p)"
proof -
  have b: "pv_read_buf (snd (provider_read_once (Received s) p)) = s @ replicate (READ_BUFFER_SIZE - length s) 0"
    using assms by (simp add: provider_read_once_def put_bytes_def)
  show "takeWhile (\<lambda>b. b \<noteq> 0) (pv_read_buf (snd (provider_read_once (Received s) p))) = takeWhile (\<lambda>b. b \<noteq> 0) s"
    unfolding b
  proof (cases "0 \<in> set s")
    case True
    then show "takeWhile (\<lambda>b. b \<noteq> 0) (s @ replicate (READ_BUFFER_SIZE - length s) 0) = takeWhile (\<lambda>b. b \<noteq> 0) s"
      by (rule takeWhile_append1) simp
  next
    case False
    then have all: "takeWhile (\<lambda>b. b \<noteq> 0) s = s" by (rule takeWhile_neq)
    have "takeWhile (\<lambda>b. b \<noteq> 0) (s @ replicate n 0) = s @ takeWhile (\<lambda>b. b \<noteq> 0) (replicate n 0)" for n
      by (rule takeWhile_append2) (use False in auto)
    moreover have "takeWhile (\<lambda>b. b \<noteq> 0) (replicate n (0 :: u8)) = []" for n by (rule takeWhile_none) auto
    ultimately show "takeWhile (\<lambda>b. b \<noteq> 0) (s @ replicate (READ_BUFFER_SIZE - length s) 0) = takeWhile (\<lambda>b. b \<noteq> 0) s"
      by (simp only: all append_Nil2)
  qed
  show "0 \<in> set (pv_read_buf (snd (provider_read_once (Received s) p)))" using b assms(2) by auto
  show "fst (provider_read_once (Received s) p)" using assms(3) by (simp add: provider_read_once_def)
qed

lemma read_once_frame:
  "m_serviceMap (snd (provider_read_once r p)) = m_serviceMap p" "pv_client (snd (provider_read_once r p)) = pv_client p"
  "pv_rpcHeader (snd (provider_read_once r p)) = pv_rpcHeader p"
  by (simp_all add: provider_read_once_def split: recv_result.split)

definition header_taken :: "'u RpcHeader \<Rightarrow> bytes \<Rightarrow> ('u, 's, 'm) provider \<Rightarrow> ('u, 's, 'm) provider" where
  "header_taken h hs p =
     p\<lparr>pv_rpc_header_str := hs, pv_rpcHeader := h, pv_service_name := h_service_name h,
       pv_method_name := h_method_name h, pv_type := h_message_type h, pv_ip := h_ip h, pv_port := h_port h\<rparr>"

lemma OnMessage_header:
  assumes "0 \<in> set (pv_read_buf p)" and "takeWhile (\<lambda>b. b \<noteq> 0) (pv_read_buf p) = recv"
    and "read_header_str lib recv = (hs, rest)" and "RpcHeader_ParseFromString lib hs (pv_rpcHeader p) = (True, h)"
  shows "OnMessage lib api p =
    (case ReadString lib (unat (h_args_size h)) rest of
       (ok, args, _) \<Rightarrow>
         if \<not> ok then Inr (False, (header_taken h hs p)\<lparr>pv_args_str := args\<rparr>, None)
         else (case OnMessage_call api ((header_taken h hs p)\<lparr>pv_args_str := args\<rparr>) of
                 (b, reply) \<Rightarrow> Inr (b, (header_taken h hs p)\<lparr>pv_args_str := args\<rparr>, reply)))"
  using assms by (simp add: OnMessage_def header_taken_def Let_def split: prod.split)

definition service_reply ::
    "('s, 'm, 'q, 'p) pb_service \<Rightarrow> (bytes \<Rightarrow> ('s, 'm) ServiceInfo option) \<Rightarrow> bytes \<Rightarrow> bytes \<Rightarrow> bytes \<Rightarrow> bytes option" where
  \<comment> \<open>what a call means: the registered method applied to the decoded arguments, encoded\<close>
  "service_reply api services sname mname args =
     (case services sname of None \<Rightarrow> None | Some info \<Rightarrow>
       (case m_methodMap info mname of None \<Rightarrow> None | Some m \<Rightarrow>
         (case parse_request api (m_service info) m args of None \<Rightarrow> None | Some q \<Rightarrow>
           (case call_method api (m_service info) m q of None \<Rightarrow> None | Some r \<Rightarrow> serialize_response api r))))"

lemma OnMessage_call_reply:
  "service_reply api (m_serviceMap p) (pv_service_name p) (pv_method_name p) (pv_args_str p) = Some bs \<Longrightarrow>
     OnMessage_call api p = (True, Some (pv_client p, bs))"
  by (auto simp: service_reply_def OnMessage_call_def SendRpcResponse_def split: option.splits)

lemma client_message_frame:
  assumes lib: "wire_format lib" and enc: "wire_format.encodable lib h" and p: "pv_read_buf p = replicate READ_BUFFER_SIZE 0"
    and hs: "hs = RpcHeader_InternalSerialize lib h" and fits: "length (rpc_frame lib hs args) < READ_BUFFER_SIZE"
    and nul: "0 \<notin> set (rpc_frame lib hs args)" and size: "unat (h_args_size h) = length args"
    and reply: "service_reply api (m_serviceMap p) (h_service_name h) (h_method_name h) args = Some bs"
  shows "client_message lib api (Received (rpc_frame lib hs args)) p =
    Inr (True, provider_reset ((header_taken h hs (snd (provider_read_once (Received (rpc_frame lib hs args)) p)))
           \<lparr>pv_args_str := args\<rparr>), Some (pv_client p, bs))"
proof -
  let ?f = "rpc_frame lib hs args"
  let ?p1 = "snd (provider_read_once (Received ?f) p)"
  have ne: "?f \<noteq> []" using wire_format.varint_nonempty [OF lib] by (simp add: rpc_frame_def)
  note r = strlen_received [OF p fits ne]
  have recv: "takeWhile (\<lambda>b. b \<noteq> 0) (pv_read_buf ?p1) = ?f"
    unfolding r(1) using nul by (rule takeWhile_neq)
  have "length hs < 2 ^ 32" using fits by (simp add: rpc_frame_def READ_BUFFER_SIZE_def)
  note hdr = read_header_frame [OF lib this, of args]
  have parse: "RpcHeader_ParseFromString lib hs (pv_rpcHeader ?p1) = (True, h)"
    unfolding hs by (rule wire_format.parse_serialized [OF lib enc])
  have rs: "ReadString lib (length args) args = (True, args, [])"
    using wire_format.read_string [OF lib, of "length args" args] by simp
  have "OnMessage_call api ((header_taken h hs ?p1)\<lparr>pv_args_str := args\<rparr>) = (True, Some (pv_client p, bs))"
    by (subst OnMessage_call_reply [where bs = bs]) (use reply in \<open>simp_all add: header_taken_def read_once_frame\<close>)
  then have "OnMessage lib api ?p1
      = Inr (True, (header_taken h hs ?p1)\<lparr>pv_args_str := args\<rparr>, Some (pv_client p, bs))"
    using OnMessage_header [OF r(2) recv hdr parse, of api] rs by (simp add: size)
  then show ?thesis
    using r(3) by (cases "provider_read_once (Received ?f) p") (simp add: client_message_def)
qed

lemma map_insert_other: "k' \<noteq> k \<Longrightarrow> map_insert k v m k' = m k'"
  by (simp add: map_insert_def split: option.split)

lemma methods_inserted:
  assumes "distinct (map f ms)" and "\<And>m. m \<in> set ms \<Longrightarrow> mm (f m) = None"
  shows "fold (\<lambda>m mm. map_insert (f m) m mm) ms mm k =
    (case find (\<lambda>m. f m = k) ms of Some m \<Rightarrow> Some m | None \<Rightarrow> mm k)"
  using assms
proof (induction ms arbitrary: mm)
  case (Cons m ms)
  have "find (\<lambda>m'. f m' = f m) ms = None" using Cons.prems(1) by (simp add: find_None_iff) (metis image_eqI)
  moreover have "map_insert (f m) m mm (f m') = None" if "m' \<in> set ms" for m'
    using Cons.prems that map_insert_other [of "f m'" "f m"] by (metis distinct.simps(2) image_eqI list.simps(9) set_map list.set_intros(2))
  moreover have "map_insert (f m) m mm = mm(f m \<mapsto> m)" using Cons.prems(2) by (simp add: map_insert_def)
  ultimately show ?case using Cons by (auto split: option.split)
qed simp

section \<open>Properties\<close>

text \<open>A runtime, a service with one method that reverses its argument, and a request.\<close>

definition demo_api :: "(unit, unit, bytes, bytes) pb_service" where
  "demo_api =
     \<lparr>service_desc_name = (\<lambda>_. [83]), method_list = (\<lambda>_. [()]), method_desc_name = (\<lambda>_. [77]),
      parse_request = (\<lambda>_ _ bs. Some bs), call_method = (\<lambda>_ _ q. Some (rev q)), serialize_response = Some\<rparr>"

definition demo_provider :: "(bytes, unit, unit) provider" where
  "demo_provider = provider_NotifyService demo_api () (provider_new base128_lib)"

definition demo_channel :: channel where
  "demo_channel = \<lparr>ch_fd = - 1, ch_type = 0, ch_port = 80, ch_ip = [49]\<rparr>"

definition demo_call :: "bytes RpcHeader" where
  "demo_call = call_header base128_lib [83] [77] [5, 6] demo_channel"

lemma demo_provider_facts:
  "pv_read_buf demo_provider = replicate READ_BUFFER_SIZE 0" "pv_client demo_provider = None"
  "service_reply demo_api (m_serviceMap demo_provider) [83] [77] bs = Some (rev bs)"
  by (simp_all add: demo_provider_def provider_NotifyService_def provider_new_def provider_reset_def map_insert_def
      demo_api_def service_reply_def)

lemma demo_frame:
  "RpcHeader_InternalSerialize base128_lib demo_call = [10, 1, 83, 18, 1, 77, 24, 2, 42, 1, 49, 48, 80]"
  "rpc_frame base128_lib [10, 1, 83, 18, 1, 77, 24, 2, 42, 1, 49, 48, 80] as
     = [13, 10, 1, 83, 18, 1, 77, 24, 2, 42, 1, 49, 48, 80] @ as"
  by (simp_all add: demo_call_def call_header_def demo_channel_def RpcHeader_InternalSerialize_def base128_lib_def
      varint.simps rpc_frame_def)

text \<open>
  A service that was registered is reachable: each method of its descriptor is found under
  its name, no other name is, a service registered before under the same name stays instead,
  and other services are not affected.
\<close>

theorem notify_registers:
  assumes "distinct (map (method_desc_name api) (method_list api service))"
  shows "(case m_serviceMap (provider_NotifyService api service p) (service_desc_name api service) of
       None \<Rightarrow> False
     | Some info \<Rightarrow>
        (if m_serviceMap p (service_desc_name api service) = None
         then m_service info = service
           \<and> (\<forall>name. m_methodMap info name = find (\<lambda>m. method_desc_name api m = name) (method_list api service))
         else m_serviceMap p (service_desc_name api service) = Some info))
    \<and> (\<forall>name. name \<noteq> service_desc_name api service \<longrightarrow>
         m_serviceMap (provider_NotifyService api service p) name = m_serviceMap p name)"
  using methods_inserted [OF assms, of "\<lambda>_. None"]
  by (auto simp: provider_NotifyService_def Let_def map_insert_def split: option.splits)

theorem notify_registers_witness:
  "(case m_serviceMap (provider_NotifyService demo_api () (provider_new base128_lib :: (bytes, unit, unit) provider)) [83] of
      None \<Rightarrow> False | Some info \<Rightarrow> m_methodMap info [77] = Some () \<and> m_methodMap info [78] = None)"
  using notify_registers [of demo_api "()" "provider_new base128_lib"]
  by (auto simp: demo_api_def provider_new_def provider_reset_def split: option.splits)

text \<open>
  A request is answered: when the frame a channel sends for a call arrives in the provider's
  cleared buffer, fits into it with a byte to spare and contains no zero byte, the provider
  decodes exactly the names and arguments that were encoded, runs the method that is
  registered under them, and sends its encoded response; afterwards the buffer is clear again.
\<close>

theorem request_answered:
  assumes "wire_format lib" and "length sname < 2 ^ 31" "length mname < 2 ^ 31" "length (ch_ip ch) < 2 ^ 31"
    and "h = call_header lib sname mname args ch" and "s = rpc_frame lib (RpcHeader_InternalSerialize lib h) args"
    and "length s < READ_BUFFER_SIZE" and "0 \<notin> set s" and "pv_read_buf p = replicate READ_BUFFER_SIZE 0"
    and "service_reply api (m_serviceMap p) sname mname args = Some bs"
  shows "\<exists>p'. client_message lib api (Received s) p = Inr (True, p', Some (pv_client p, bs))
    \<and> pv_read_buf p' = replicate READ_BUFFER_SIZE 0 \<and> m_serviceMap p' = m_serviceMap p \<and> pv_client p' = pv_client p
    \<and> pv_service_name p' = sname \<and> pv_method_name p' = mname \<and> pv_args_str p' = args"
proof -
  have "length args < 2 ^ 32" using assms(6,7) by (simp add: rpc_frame_def READ_BUFFER_SIZE_def)
  then have size: "unat (h_args_size h) = length args" by (simp add: assms(5) call_header_def unat_of_nat)
  have "wire_format.encodable lib h"
    using assms(2-5) by (simp add: wire_format.encodable_def [OF assms(1)] call_header_def)
  from client_message_frame [OF assms(1) this assms(9) refl _ _ size, of api bs] show ?thesis
    using assms(5-8,10) by (auto simp: call_header_def provider_reset_def header_taken_def read_once_frame)
qed

theorem request_answered_witness:
  "\<exists>p'. client_message base128_lib demo_api
      (Received ([13, 10, 1, 83, 18, 1, 77, 24, 2, 42, 1, 49, 48, 80] @ [5, 6])) demo_provider = Inr (True, p', Some (None, [6, 5]))"
  using request_answered [OF b128.wire_format_axioms _ _ _ demo_call_def refl, of demo_provider demo_api "[6, 5]"]
  by (auto simp: demo_frame demo_provider_facts demo_channel_def READ_BUFFER_SIZE_def)

definition loop_net ::
    "'u pb_lib \<Rightarrow> ('s, 'm, 'q, 'p) pb_service \<Rightarrow> (('u, 's, 'm) provider \<times> bytes) net" where
  \<comment> \<open>a network with one provider behind it: what is sent is one message to it, what it answers
    is there to be received\<close>
  "loop_net lib api =
     \<lparr>net_socket = (\<lambda>k. (Inr 9, k)), net_connect = (\<lambda>_ _ _ k. (Inr (), k)),
      net_send = (\<lambda>_ s k. (case client_message lib api (Received s) (fst k) of
                    Inr (_, p, Some (_, bs)) \<Rightarrow> (Inr (length s), (p, bs))
                  | Inr (_, p, None) \<Rightarrow> (Inr (length s), (p, []))
                  | Inl _ \<Rightarrow> (Inr (length s), k))),
      net_recv = (\<lambda>_ n k. (Inr (take n (snd k)), (fst k, drop n (snd k)))),
      net_close = (\<lambda>_ k. k)\<rparr>"

lemma call_over_loop:
  assumes "wire_format lib" and "length sname < 2 ^ 31" "length mname < 2 ^ 31" "length (ch_ip ch) < 2 ^ 31"
    and "s = rpc_frame lib (RpcHeader_InternalSerialize lib (call_header lib sname mname args ch)) args"
    and "length s < READ_BUFFER_SIZE" and "0 \<notin> set s" and "pv_read_buf p = replicate READ_BUFFER_SIZE 0"
    and "service_reply api (m_serviceMap p) sname mname args = Some bs" and "length bs \<le> 1024"
    and "parse_response bs = Some r"
  shows "\<exists>ch' k'. CallMethod lib (loop_net lib api) sname mname (Some args) parse_response controller ch (p, [])
      = Some (Some r, controller, ch', k') \<and> ch_fd ch' = - 1"
proof -
  let ?h = "call_header lib sname mname args ch" and ?net = "loop_net lib api"
  let ?ch1 = "if ch_fd ch = - 1 then ch\<lparr>ch_fd := 9\<rparr> else ch"
  have size: "length args < 2 ^ 32" using assms(5,6) by (simp add: rpc_frame_def READ_BUFFER_SIZE_def)
  have enc: "wire_format.encodable lib ?h"
    using assms(2-4) by (simp add: wire_format.encodable_def [OF assms(1)] call_header_def)
  have sz: "unat (h_args_size ?h) = length args" using size by (simp add: call_header_def unat_of_nat)
  obtain p' where msg: "client_message lib api (Received s) p = Inr (True, p', Some (pv_client p, bs))"
    using client_message_frame [OF assms(1) enc assms(8) refl _ _ sz, of api bs] assms(5,6,7,9)
    by (auto simp: call_header_def)
  have "length (RpcHeader_InternalSerialize lib ?h) < 2 ^ 31" using assms(5,6) by (simp add: rpc_frame_def READ_BUFFER_SIZE_def)
  then have ser: "RpcHeader_SerializeToString lib ?h = Some (RpcHeader_InternalSerialize lib ?h)"
    by (simp add: RpcHeader_SerializeToString_def wire_format.byte_size_serialized [OF assms(1)])
  have h1: "call_header lib sname mname args ?ch1 = ?h" by (simp add: call_header_def)
  have "(if ch_fd ch = - 1 then newConnect ?net (ch_ip ch) (ch_port ch) ch (p, []) else (None, ch, (p, []))) = (None, ?ch1, (p, []))"
    by (simp add: newConnect_def loop_net_def)
  moreover have "send_loop ?net s ?ch1 (p, []) = Some (True, ?ch1, (p', bs))"
    by (subst send_loop.simps) (simp add: loop_net_def msg)
  ultimately have "CallMethod lib ?net sname mname (Some args) parse_response controller ch (p, [])
      = Some (CallMethod_reply ?net parse_response controller ?ch1 (p', bs))"
    using assms(5) ser h1 by (simp add: CallMethod_def CallMethod_send_def)
  then show ?thesis
    using assms(10,11) by (simp add: CallMethod_reply_def channel_close_def loop_net_def)
qed



text \<open>
  A zero byte in the arguments breaks the call: the provider takes what \<^verbatim>\<open>recv\<close> returned for
  a C string, so it sees the frame only up to the first zero byte, finds fewer argument bytes
  than the header announces, answers nothing and gives up the connection.
\<close>

theorem nul_in_arguments_refused:
  assumes "wire_format lib" and "length sname < 2 ^ 31" "length mname < 2 ^ 31" "length (ch_ip ch) < 2 ^ 31"
    and "args = a @ 0 # b" and "0 \<notin> set a" and "h = call_header lib sname mname args ch"
    and "hs = RpcHeader_InternalSerialize lib h" and "s = rpc_frame lib hs args"
    and "length s < READ_BUFFER_SIZE" and "0 \<notin> set (rpc_frame lib hs [])" and "pv_read_buf p = replicate READ_BUFFER_SIZE 0"
  shows "\<exists>p'. client_message lib api (Received s) p = Inr (False, p', None)"
proof -
  let ?p1 = "snd (provider_read_once (Received s) p)"
  have ne: "s \<noteq> []" using assms(5,9) by (simp add: rpc_frame_def)
  note r = strlen_received [OF assms(12,10) ne]
  have s: "s = rpc_frame lib hs a @ 0 # b" using assms(5,9) by (simp add: rpc_frame_def)
  have clean: "0 \<notin> set (rpc_frame lib hs a)" using assms(6,11) by (simp add: rpc_frame_def)
  have "takeWhile (\<lambda>b. b \<noteq> 0) s = rpc_frame lib hs a"
    unfolding s using clean by (subst takeWhile_append2) (auto simp: takeWhile_tail)
  with r(1) have recv: "takeWhile (\<lambda>b. b \<noteq> 0) (pv_read_buf ?p1) = rpc_frame lib hs a" by (rule trans)
  have sizes: "length hs < 2 ^ 32" "length args < 2 ^ 32"
    using assms(9,10) by (simp_all add: rpc_frame_def READ_BUFFER_SIZE_def)
  note hdr = read_header_frame [OF assms(1) sizes(1), of a]
  have "wire_format.encodable lib h"
    using assms(2-4,7) by (simp add: wire_format.encodable_def [OF assms(1)] call_header_def)
  then have parse: "RpcHeader_ParseFromString lib hs (pv_rpcHeader ?p1) = (True, h)"
    unfolding assms(8) by (rule wire_format.parse_serialized [OF assms(1)])
  have sz: "unat (h_args_size h) = length args" using sizes(2) by (simp add: assms(7) call_header_def unat_of_nat)
  have short: "\<not> fst (ReadString lib (unat (h_args_size h)) a)"
    by (rule wire_format.read_string_short [OF assms(1)]) (simp only: sz, simp add: assms(5))
  obtain p2 where "OnMessage lib api ?p1 = Inr (False, p2, None)"
    using OnMessage_header [OF r(2) recv hdr parse, of api] short
    by (cases "ReadString lib (unat (h_args_size h)) a") auto
  then show ?thesis
    using r(3) by (cases "provider_read_once (Received s) p") (auto simp: client_message_def)
qed

theorem nul_in_arguments_refused_witness:
  "\<exists>p'. client_message base128_lib demo_api
      (Received ([13, 10, 1, 83, 18, 1, 77, 24, 2, 42, 1, 49, 48, 80] @ [0, 6])) demo_provider = Inr (False, p', None)"
proof -
  have h: "demo_call = call_header base128_lib [83] [77] ([] @ 0 # [6]) demo_channel"
    by (simp add: demo_call_def call_header_def)
  show ?thesis
    using nul_in_arguments_refused [OF b128.wire_format_axioms _ _ _ refl _ h refl refl, of demo_provider demo_api]
    by (simp add: demo_frame demo_provider_facts demo_channel_def READ_BUFFER_SIZE_def)
qed

text \<open>
  The provider keeps one current client for all connections: when a second client connects
  while the fiber of the first waits for its request, the answer to the first client's
  request is sent to the second one, and the first fiber reads its next request from the
  second client's socket.
\<close>

theorem reply_goes_to_last_client:
  assumes "wire_format lib" and "length sname < 2 ^ 31" "length mname < 2 ^ 31" "length (ch_ip ch) < 2 ^ 31"
    and "s = rpc_frame lib (RpcHeader_InternalSerialize lib (call_header lib sname mname args ch)) args"
    and "length s < READ_BUFFER_SIZE" and "0 \<notin> set s" and "pv_read_buf p = replicate READ_BUFFER_SIZE 0"
    and "service_reply api (m_serviceMap p) sname mname args = Some bs"
    and "client_enter c1 True p = (True, p1)" and "client_enter c2 True p1 = (True, p2)"
  shows "client_read True p1 = Some c1
    \<and> (\<exists>p3. client_message lib api (Received s) p2 = Inr (True, p3, Some (Some c2, bs)) \<and> client_read True p3 = Some c2)"
proof -
  let ?h = "call_header lib sname mname args ch"
  have p: "pv_client p1 = Some c1" "pv_client p2 = Some c2" "pv_read_buf p2 = pv_read_buf p" "m_serviceMap p2 = m_serviceMap p"
    using assms(10,11) by (auto simp: client_enter_def)
  have enc: "wire_format.encodable lib ?h"
    using assms(2-4) by (simp add: wire_format.encodable_def [OF assms(1)] call_header_def)
  have sz: "unat (h_args_size ?h) = length args"
    using assms(5,6) by (simp add: call_header_def unat_of_nat rpc_frame_def READ_BUFFER_SIZE_def)
  have hn: "h_service_name ?h = sname" "h_method_name ?h = mname" by (simp_all add: call_header_def)
  show ?thesis
    using client_message_frame [OF assms(1) enc _ refl _ _ sz, of p2 api bs] assms(5-9) p hn
    by (simp add: client_read_def provider_reset_def header_taken_def read_once_frame)
qed

theorem reply_goes_to_last_client_witness:
  "\<exists>p3. client_message base128_lib demo_api (Received ([13, 10, 1, 83, 18, 1, 77, 24, 2, 42, 1, 49, 48, 80] @ [5, 6]))
      (demo_provider\<lparr>pv_client := Some 8\<rparr>) = Inr (True, p3, Some (Some 8, [6, 5]))"
  using reply_goes_to_last_client [OF b128.wire_format_axioms _ _ _ refl, of "[83]" "[77]" demo_channel "[5, 6]" demo_provider
      demo_api "[6, 5]" 7 "demo_provider\<lparr>pv_client := Some 7\<rparr>" 8 "demo_provider\<lparr>pv_client := Some 8\<rparr>"]
  by (auto simp: demo_frame demo_provider_facts demo_channel_def demo_call_def [unfolded demo_channel_def, symmetric]
      READ_BUFFER_SIZE_def client_enter_def)

lemma newConnect_fd:
  "newConnect net addr prt ch k = (r, ch', k') \<Longrightarrow> (r \<noteq> None \<longrightarrow> ch_fd ch' = - 1) \<and> ch_ip ch' = ch_ip ch \<and> ch_port ch' = ch_port ch"
  by (auto simp: newConnect_def split: prod.splits sum.splits)

definition send_stopped :: "bool \<times> channel \<times> 'k \<Rightarrow> bool" where
  "send_stopped r \<longleftrightarrow> (\<not> fst r \<longrightarrow> ch_fd (fst (snd r)) = - 1)"

lemma send_loop_failed:
  assumes "send_loop net s ch k = Some r"
  shows "send_stopped r"
proof (rule send_loop.raw_induct [where P = "\<lambda>_ _ _ _ r. send_stopped r", OF _ assms])
  fix rec :: "'k net \<Rightarrow> bytes \<Rightarrow> channel \<Rightarrow> 'k \<Rightarrow> (bool \<times> channel \<times> 'k) option" and net s ch k r
  assume IH: "\<And>net s ch k r. rec net s ch k = Some r \<Longrightarrow> send_stopped r"
    and eq: "(case net_send net (ch_fd ch) s k of
        (Inl _, k1) \<Rightarrow>
          (case newConnect net (ch_ip ch) (ch_port ch) (ch\<lparr>ch_fd := - 1\<rparr>) (net_close net (ch_fd ch) k1) of
             (None, ch2, k2) \<Rightarrow> rec net s ch2 k2 | (Some _, ch2, k2) \<Rightarrow> Some (False, ch2, k2))
      | (Inr _, k1) \<Rightarrow> Some (True, ch, k1)) = Some r"
  show "send_stopped r"
    using eq IH by (auto simp: send_stopped_def split: prod.splits sum.splits option.splits dest!: newConnect_fd)
qed

text \<open>
  A call that ends either filled the response and left the controller as it was, or filled
  nothing and marked the controller as failed with a reason; either way the connection is not
  kept, except when the request could not be encoded.
\<close>

theorem CallMethod_outcome:
  assumes "CallMethod lib net sname mname args parse_response controller ch k = Some (resp, controller', ch', k')"
    and "\<not> Failed controller"
  shows "(resp = None \<longleftrightarrow> Failed controller') \<and> (if resp = None then ErrorText controller' \<noteq> None else controller' = controller)
    \<and> (ch_fd ch' = - 1 \<or> args = None
         \<or> RpcHeader_SerializeToString lib (call_header lib sname mname (the args) ch) = None)"
proof -
  have reply: "(r = None \<longleftrightarrow> Failed c') \<and> (if r = None then ErrorText c' \<noteq> None else c' = controller) \<and> ch_fd ch2 = - 1"
    if "CallMethod_reply net parse_response controller ch1 k1 = (r, c', ch2, k2)" for ch1 k1 r c' ch2 k2
    using that assms(2)
    by (auto simp: CallMethod_reply_def channel_close_def SetFailed_def Failed_def ErrorText_def
        split: prod.splits sum.splits option.splits) (metis option.exhaust_sel option.distinct(1))+
  have hdr: "call_header lib sname mname a ch1 = call_header lib sname mname a ch"
    if "newConnect net (ch_ip ch) (ch_port ch) ch k = (r, ch1, k1)" for r ch1 k1 a
    using that by (auto simp: newConnect_def call_header_def split: prod.splits sum.splits)
  show ?thesis
    using assms
    by (auto simp: CallMethod_def CallMethod_send_def SetFailed_def Failed_def ErrorText_def hdr send_stopped_def
        split: if_splits prod.splits option.splits bool.splits dest!: newConnect_fd [THEN conjunct1] reply send_loop_failed)
qed

theorem CallMethod_outcome_witness:
  "\<exists>ch' k'. CallMethod base128_lib ((loop_net base128_lib demo_api)\<lparr>net_connect := (\<lambda>_ _ _ k. (Inl 111, k))\<rparr>) [83] [77]
      (Some [5, 6]) Some Control_new demo_channel (demo_provider, [])
    = Some (None, SetFailed (ConnectFail 111) Control_new, ch', k') \<and> Failed (SetFailed (ConnectFail 111) Control_new)"
proof -
  let ?net = "(loop_net base128_lib demo_api)\<lparr>net_connect := (\<lambda>_ _ _ k. (Inl 111, k))\<rparr>"
  have r: "CallMethod base128_lib ?net [83] [77] (Some [5, 6]) Some Control_new demo_channel (demo_provider, [])
      = Some (None :: bytes option, SetFailed (ConnectFail 111) Control_new, demo_channel, (demo_provider, []))"
    by (simp add: CallMethod_def newConnect_def loop_net_def demo_channel_def)
  have "\<not> Failed Control_new" by (simp add: Failed_def Control_new_def)
  from CallMethod_outcome [OF r this] have "Failed (SetFailed (ConnectFail 111) Control_new)" by simp
  then show ?thesis using r by blast
qed

text \<open>
  The constructor tries to connect at most four times: when the first \<open>n \<le> 3\<close> attempts fail
  and the next one succeeds the channel is connected, and after four failures it is not; the
  port the connection goes to is the 16-bit number that was given, although it is kept as a
  signed \<^verbatim>\<open>short\<close>.
\<close>

theorem Channel_new_attempts:
  assumes "net_socket net = (\<lambda>k. (Inr fd, k))" and "net_close net = (\<lambda>_ k. k)"
    and "net_connect net = (\<lambda>f a q k. (if f = fd \<and> a = addr \<and> q = prt \<and> n \<le> k then Inr () else Inl e, Suc k))"
    and "fd \<noteq> - 1"
  shows "(if n \<le> 3 then ch_fd (fst (Channel_new net addr prt True ty 0)) = fd \<and> snd (Channel_new net addr prt True ty 0) = Suc n
    else ch_fd (fst (Channel_new net addr prt True ty 0)) = - 1 \<and> snd (Channel_new net addr prt True ty 0) = 4)"
proof -
  have p: "(word_of_int (sint prt) :: u16) = prt" by simp
  have c: "newConnect net addr (sint prt) ch k
      = (if n \<le> k then (None, ch\<lparr>ch_fd := fd\<rparr>, Suc k) else (Some (ConnectFail e), ch\<lparr>ch_fd := - 1\<rparr>, Suc k))" for ch k
    using assms(1-3) p by (simp add: newConnect_def)
  have t: "connect_tries m net addr (sint prt) ch k
      = (if n \<le> k + m then (ch\<lparr>ch_fd := fd\<rparr>, Suc (max n k)) else (ch\<lparr>ch_fd := - 1\<rparr>, Suc (k + m)))" for m ch k
  proof (induction m arbitrary: ch k)
    case 0
    show ?case by (subst connect_tries.simps) (auto simp: c max_def)
  next
    case (Suc m)
    show ?case by (subst connect_tries.simps) (auto simp: c Suc.IH max_def not_le split: if_splits)
  qed
  show ?thesis by (simp add: Channel_new_def t)
qed

theorem Channel_new_attempts_witness:
  "ch_fd (fst (Channel_new \<lparr>net_socket = (\<lambda>k. (Inr 9, k)),
      net_connect = (\<lambda>f a q k. (if f = 9 \<and> a = [49] \<and> q = 40000 \<and> 2 \<le> k then Inr () else Inl 111, Suc k)),
      net_send = (\<lambda>_ _ k. (Inl 0, k)), net_recv = (\<lambda>_ _ k. (Inl 0, k)), net_close = (\<lambda>_ k. k)\<rparr> [49] 40000 True 0 0)) = 9"
proof -
  let ?net = "\<lparr>net_socket = (\<lambda>k. (Inr 9, k)),
      net_connect = (\<lambda>f a q k. (if f = 9 \<and> a = [49] \<and> q = 40000 \<and> 2 \<le> k then Inr () else Inl 111, Suc k)),
      net_send = (\<lambda>_ _ k. (Inl 0, k)), net_recv = (\<lambda>_ _ k. (Inl 0, k)), net_close = (\<lambda>_ k. k)\<rparr>"
  show ?thesis
    using Channel_new_attempts [of ?net 9 "[49]" 40000 2 111 0] by simp
qed

end
