(* ===== verification/Example.thy ===== *)
theory Example
  imports Messages Rpc
begin

text \<open>
  The example: \<^verbatim>\<open>example/server/exampleService.cpp\<close>, a service that registers itself at the
  centre and answers \<open>GetList\<close>, and \<^verbatim>\<open>example/client/exampleclient.cpp\<close>, a client that asks the
  centre for it and calls it.  The service of \<^verbatim>\<open>rpc.pb.cc\<close> is the instance of \<open>pb_service\<close>
  the example runs with; the network is the parameter \<open>net\<close> of \<open>Rpc\<close>.
\<close>

section \<open>The generated service\<close>

definition Centerip :: bytes where "Centerip = str ''192.168.15.128''"
definition Centerport :: u16 where "Centerport = 9906"

definition SERVICE_RPC :: bytes where "SERVICE_RPC = str ''ServiceRpc''"   \<comment> \<open>the name in the descriptor\<close>
definition EXAMPLE_SERVICE :: bytes where "EXAMPLE_SERVICE = str ''exampleService''"   \<comment> \<open>the name registered\<close>
definition GET_LIST :: bytes where "GET_LIST = str ''GetList''"

definition PushData :: "bytes list \<Rightarrow> bytes list" where
  "PushData v = v @ [str ''welcome to huanheart project'', str ''Here is my blog link '', str ''https://github.com/huanheart'']"

definition mutable_result_set :: "u32 \<Rightarrow> bytes \<Rightarrow> 'u msg_lib \<Rightarrow> 'u GetListResponse \<Rightarrow> 'u GetListResponse" where
  \<comment> \<open>\<^verbatim>\<open>mutable_result()->set_errcode\<close>, \<^verbatim>\<open>set_errmsg\<close>\<close>
  "mutable_result_set code msg lib m =
     (let m = mutable_result lib m in m\<lparr>rs_result := Some ((result lib m)\<lparr>errcode := code, errmsg := msg\<rparr>)\<rparr>)"

definition GetList :: "'u msg_lib \<Rightarrow> bytes list \<Rightarrow> 'u GetListRequest \<Rightarrow> 'u GetListResponse \<Rightarrow> bytes list \<times> 'u GetListResponse" where
  \<comment> \<open>the vector \<open>v\<close> of the object afterwards, and the response; it ends with \<^verbatim>\<open>done->Run()\<close>\<close>
  "GetList lib v request response =
     (let v = PushData v;
          response = mutable_result_set 0 [] lib response;
          response = fold add_val v response
      in ([], response))"

definition ServiceRpc_CallMethod ::
    "'u msg_lib \<Rightarrow> nat \<Rightarrow> bytes list \<Rightarrow> 'u GetListRequest \<Rightarrow> 'u GetListResponse \<Rightarrow> (bytes list \<times> 'u GetListResponse) option" where
  \<comment> \<open>by the index of the method; any other is a fatal error\<close>
  "ServiceRpc_CallMethod lib index v request response =
     (if index = 0 then Some (GetList lib v request response) else None)"

definition GetRequestPrototype :: "'u msg_lib \<Rightarrow> nat \<Rightarrow> 'u GetListRequest option" where
  "GetRequestPrototype lib index = (if index = 0 then Some (GetListRequest_new lib) else None)"

definition GetResponsePrototype :: "'u msg_lib \<Rightarrow> nat \<Rightarrow> 'u GetListResponse option" where
  "GetResponsePrototype lib index = (if index = 0 then Some (GetListResponse_new lib) else None)"

definition example_api :: "'u msg_lib \<Rightarrow> (bytes list, nat, 'u GetListRequest, 'u GetListResponse) pb_service" where
  \<comment> \<open>a service object is its vector; the method descriptors are their indices\<close>
  "example_api lib =
     \<lparr>service_desc_name = (\<lambda>_. SERVICE_RPC), method_list = (\<lambda>_. [0]), method_desc_name = (\<lambda>_. GET_LIST),
      parse_request = (\<lambda>_ m bs. case GetRequestPrototype lib m of None \<Rightarrow> None | Some _ \<Rightarrow> parse_request_msg lib bs),
      call_method = (\<lambda>v m q. case GetResponsePrototype lib m of None \<Rightarrow> None
                       | Some r \<Rightarrow> map_option snd (ServiceRpc_CallMethod lib m v q r)),
      serialize_response = (\<lambda>p. SerializeToString (GetListResponse_ByteSizeLong lib p) (GetListResponse_InternalSerialize lib p))\<rparr>"

definition Stub_GetList ::
    "'u msg_lib \<Rightarrow> 'k net \<Rightarrow> control \<Rightarrow> channel \<Rightarrow> 'u GetListRequest \<Rightarrow> 'k
     \<Rightarrow> ('u GetListResponse option \<times> control \<times> channel \<times> 'k) option" where
  "Stub_GetList lib net controller ch request k =
     CallMethod (pb lib) net SERVICE_RPC GET_LIST
       (SerializeToString (GetListRequest_ByteSizeLong lib request) (GetListRequest_InternalSerialize lib request))
       (parse_response_msg lib) controller ch k"

section \<open>\<open>exampleService.cpp\<close>: registering\<close>

definition example_header :: "'u pb_lib \<Rightarrow> u32 \<Rightarrow> bytes \<Rightarrow> u32 \<Rightarrow> 'u RpcHeader" where
  \<comment> \<open>the header \<open>SendData\<close> (type 1) and \<open>GetIpAndPort\<close> (type 0) fill in\<close>
  "example_header lib message_type addr prt =
     \<lparr>h_service_name = EXAMPLE_SERVICE, h_method_name = GET_LIST, h_args_size = 128, h_message_type = message_type,
      h_ip = addr, h_port = prt, h_unknown = no_unknown lib\<rparr>"

definition SendData ::
    "'u pb_lib \<Rightarrow> bool \<Rightarrow> 'k net \<Rightarrow> bytes \<Rightarrow> int \<Rightarrow> int \<Rightarrow> 'k \<Rightarrow> bool \<times> int \<times> 'k" where
  \<comment> \<open>\<open>addr\<close>, \<open>prt\<close>: the globals \<^verbatim>\<open>ip\<close> and \<^verbatim>\<open>port\<close>; the value of \<open>clientfd\<close> afterwards\<close>
  "SendData lib big net addr prt clientfd k =
     (case RpcHeader_SerializeToString lib (example_header lib 1 addr (word_of_int prt)) of
        None \<Rightarrow> (False, - 1, net_close net clientfd k)
      | Some serializedData \<Rightarrow>
          (case net_send net clientfd (frame big serializedData) k of
             (Inl _, k1) \<Rightarrow> (False, - 1, net_close net clientfd k1)
           | (Inr _, k1) \<Rightarrow> (True, clientfd, k1)))"

definition centre_connect :: "'k net \<Rightarrow> 'k \<Rightarrow> bool \<times> int \<times> 'k" where
  \<comment> \<open>\<open>myConnect\<close> of the client, and the first half of \<open>sendRegistrationCenter\<close>\<close>
  "centre_connect net k =
     (case net_socket net k of
        (Inl _, k1) \<Rightarrow> (False, - 1, k1)
      | (Inr clientfd, k1) \<Rightarrow>
          (case net_connect net clientfd Centerip Centerport k1 of
             (Inl _, k2) \<Rightarrow> (False, - 1, net_close net clientfd k2)
           | (Inr _, k2) \<Rightarrow> (True, clientfd, k2)))"

definition sendRegistrationCenter :: "'u pb_lib \<Rightarrow> bool \<Rightarrow> 'k net \<Rightarrow> bytes \<Rightarrow> int \<Rightarrow> 'k \<Rightarrow> bool \<times> int \<times> 'k" where
  \<comment> \<open>the result of \<open>SendData\<close> is not looked at\<close>
  "sendRegistrationCenter lib big net addr prt k =
     (case centre_connect net k of
        (False, fd, k1) \<Rightarrow> (False, fd, k1)
      | (True, fd, k1) \<Rightarrow> (case SendData lib big net addr prt fd k1 of (_, fd', k2) \<Rightarrow> (True, fd', k2)))"

fun doHeart :: "'u pb_lib \<Rightarrow> bool \<Rightarrow> 'k net \<Rightarrow> bytes \<Rightarrow> int \<Rightarrow> nat \<Rightarrow> int \<Rightarrow> 'k \<Rightarrow> bool \<times> int \<times> 'k" where
  \<comment> \<open>\<open>n\<close> rounds, each after a sleep of 15 seconds; false: the process exits\<close>
  "doHeart lib big net addr prt 0 clientfd k = (True, clientfd, k)"
| "doHeart lib big net addr prt (Suc n) clientfd k =
     (if clientfd = - 1 then (False, clientfd, k)
      else case SendData lib big net addr prt clientfd k of
             (False, fd, k1) \<Rightarrow> (False, fd, k1)
           | (True, fd, k1) \<Rightarrow> doHeart lib big net addr prt n fd k1)"

section \<open>\<open>exampleclient.cpp\<close>\<close>

definition myConnect :: "'k net \<Rightarrow> 'k \<Rightarrow> bool \<times> int \<times> 'k" where
  "myConnect net k = centre_connect net k"

datatype client_error = LengthError | StoiError stoi_error | NeverReturns

definition GetIpAndPort ::
    "'u pb_lib \<Rightarrow> bool \<Rightarrow> 'k net \<Rightarrow> bytes \<Rightarrow> int \<Rightarrow> 'k \<Rightarrow> (client_error + (bytes \<times> bytes) option) \<times> 'k" where
  \<comment> \<open>the globals \<^verbatim>\<open>Serviceip\<close> and \<^verbatim>\<open>Serviceport\<close>, when it sets them.  The client's \<^verbatim>\<open>port\<close> is -1.  A failed \<^verbatim>\<open>recv\<close>
    makes a string of length -1\<close>
  "GetIpAndPort lib big net addr clientfd k =
     (case RpcHeader_SerializeToString lib (example_header lib 0 addr (- 1)) of
        None \<Rightarrow> (Inr None, k)
      | Some serializedData \<Rightarrow>
          (case net_send net clientfd (frame big serializedData) k of (_, k1) \<Rightarrow>
             (case net_recv net clientfd 2048 k1 of
                (Inl _, k2) \<Rightarrow> (Inl LengthError, k2)
              | (Inr res, k2) \<Rightarrow>
                  (if res = str ''error'' then (Inr None, k2)
                   else case find_char 58 res of
                          None \<Rightarrow> (Inr None, k2)
                        | Some pos \<Rightarrow> (Inr (Some (take pos res, drop (pos + 1) res)), k2)))))"

record client =
  Serviceip :: bytes
  Serviceport :: bytes

datatype 'u round_result = Asked bool | Answered "'u GetListResponse" | CallFailed "rpc_failure option" | Thrown client_error

definition client_call :: "'u msg_lib \<Rightarrow> 'k net \<Rightarrow> client \<Rightarrow> 'k \<Rightarrow> 'u round_result \<times> client \<times> 'k" where
  \<comment> \<open>the part of \<open>main\<close>'s loop that calls the service\<close>
  "client_call lib net c k =
     (case stoi (Serviceport c) of
        Inl e \<Rightarrow> (Thrown (StoiError e), c, k)
      | Inr prt \<Rightarrow>
          (case Channel_new net (Serviceip c) (word_of_int prt) True 0 k of (ch, k1) \<Rightarrow>
             (case Stub_GetList lib net Control_new ch ((GetListRequest_new lib)\<lparr>userid := 1000\<rparr>) k1 of
                None \<Rightarrow> (Thrown NeverReturns, c, k1)
              | Some (response, controller, _, k2) \<Rightarrow>
                  (if Failed controller then (CallFailed (ErrorText controller), c\<lparr>Serviceip := [], Serviceport := []\<rparr>, k2)
                   else (Answered (case response of None \<Rightarrow> GetListResponse_new lib | Some r \<Rightarrow> r), c, k2)))))"

definition client_round ::
    "'u msg_lib \<Rightarrow> bool \<Rightarrow> 'k net \<Rightarrow> bytes \<Rightarrow> int \<Rightarrow> client \<Rightarrow> 'k \<Rightarrow> 'u round_result \<times> client \<times> 'k" where
  \<comment> \<open>one round of the loop of \<open>main\<close>\<close>
  "client_round lib big net addr clientfd c k =
     (if Serviceport c = []
      then (case GetIpAndPort (pb lib) big net addr clientfd k of
              (Inl e, k1) \<Rightarrow> (Thrown e, c, k1)
            | (Inr None, k1) \<Rightarrow> (Asked False, c, k1)
            | (Inr (Some (sip, sport)), k1) \<Rightarrow> (Asked True, c\<lparr>Serviceip := sip, Serviceport := sport\<rparr>, k1))
      else client_call lib net c k)"

section \<open>The example over the registration centre\<close>

definition centre_net :: "'u pb_lib \<Rightarrow> bool \<Rightarrow> (rpc_conn \<times> rpc_server \<times> int \<times> bytes) net" where
  \<comment> \<open>a network with one connection to the centre, which delivers each message whole: the
    connection at the centre, its tables, the time, and what it sent back\<close>
  "centre_net lib big =
     \<lparr>net_socket = (\<lambda>k. (Inr 9, k)), net_connect = (\<lambda>_ _ _ k. (Inr (), k)),
      net_send = (\<lambda>_ bs (c, s, t, out).
        (Inr (length bs),
         case process lib big t (received bs c) s of
           Inl _ \<Rightarrow> (c, s, t, out)
         | Inr (_, c', s', reply) \<Rightarrow> (c', s', t, out @ (case reply of None \<Rightarrow> [] | Some b \<Rightarrow> b)))),
      net_recv = (\<lambda>_ n (c, s, t, out). (Inr (take n out), (c, s, t, drop n out))),
      net_close = (\<lambda>_ k. k)\<rparr>"

lemma example_serialized:
  assumes "wire_format lib" and "sendable lib (example_header lib ty addr prt)"
  shows "RpcHeader_SerializeToString lib (example_header lib ty addr prt)
    = Some (RpcHeader_InternalSerialize lib (example_header lib ty addr prt))"
  using assms by (simp add: RpcHeader_SerializeToString_def wire_format.byte_size_serialized sendable_def READ_BUFFER_SIZE_def)

lemma example_header_fields [simp]:
  "h_message_type (example_header lib ty addr prt) = ty" "h_service_name (example_header lib ty addr prt) = EXAMPLE_SERVICE"
  "h_method_name (example_header lib ty addr prt) = GET_LIST"
  by (simp_all add: example_header_def)

lemma announced_example: "announced (example_header lib ty addr prt) = addr @ 58 # int_to_string (sint prt)"
  by (simp add: announced_def example_header_def str_def of_char_def)

lemma SendData_centre:
  assumes "wire_format lib" and "sendable lib (example_header lib 1 addr (word_of_int prt))"
    and "length (m_read_buf c) = READ_BUFFER_SIZE"
  shows "\<exists>c'. SendData lib big (centre_net lib big) addr prt fd (c, s, t, out)
      = (True, fd, (c', reg_put (EXAMPLE_SERVICE @ GET_LIST) (addr @ 58 # int_to_string (sint (word_of_int prt :: u32))) t s, t, out))
      \<and> length (m_read_buf c') = READ_BUFFER_SIZE"
proof -
  let ?h = "example_header lib 1 addr (word_of_int prt)"
  let ?c = "take_header ?h (received (header_frame lib big ?h) c)"
  have "process lib big t (received (header_frame lib big ?h) c) s = Inr (True, conn_reset ?c, NotifyService t ?c s, None)"
    using process_received [OF assms, of big t "[]" s] by (simp add: Let_def)
  then have "SendData lib big (centre_net lib big) addr prt fd (c, s, t, out) = (True, fd, (conn_reset ?c, NotifyService t ?c s, t, out))"
    by (simp add: SendData_def example_serialized [OF assms(1,2)] centre_net_def header_frame_def)
  moreover have "length (m_read_buf (conn_reset ?c)) = READ_BUFFER_SIZE"
    using assms(3) by (intro length_conn_reset) (simp add: received_buf put_bytes_def)
  moreover have "NotifyService t ?c s
      = reg_put (EXAMPLE_SERVICE @ GET_LIST) (addr @ 58 # int_to_string (sint (word_of_int prt :: u32))) t s"
    by (simp add: NotifyService_header announced_example)
  ultimately show ?thesis by auto
qed

lemma GetIpAndPort_centre:
  assumes "wire_format lib" and "sendable lib (example_header lib 0 addr (- 1))" and "length (m_read_buf c) = READ_BUFFER_SIZE"
    and "service_map s (EXAMPLE_SERVICE @ GET_LIST) = Some (sip @ 58 # sport)" and "58 \<notin> set sip"
    and "length sip + length sport < 2048"
  shows "\<exists>k'. GetIpAndPort lib big (centre_net lib big) addr fd (c, s, t, []) = (Inr (Some (sip, sport)), k')"
proof -
  let ?h = "example_header lib 0 addr (- 1)"
  let ?c = "take_header ?h (received (header_frame lib big ?h) c)"
  have "process lib big t (received (header_frame lib big ?h) c) s = Inr (True, conn_reset ?c, s, Some (sip @ 58 # sport))"
    using process_received [OF assms(1,2,3), of big t "[]" s] assms(4)
    by (simp add: CallingMethods_header Let_def)
  moreover have "58 \<notin> set (str ''error'')" by (simp add: str_def of_char_def)
  then have "sip @ 58 # sport \<noteq> str ''error''" by (metis in_set_conv_decomp)
  ultimately show ?thesis
    using assms(5,6)
    by (simp add: GetIpAndPort_def example_serialized [OF assms(1,2)] centre_net_def header_frame_def find_char_first)
qed

section \<open>Properties\<close>

lemma port_text_length: "0 \<le> prt \<Longrightarrow> prt < 2 ^ 31 \<Longrightarrow> length (int_to_string prt) \<le> 10"
  using nat_digits_length [of "nat prt" 9] by (simp add: int_to_string_def nat_less_iff)

lemma port_word: "0 \<le> prt \<Longrightarrow> prt < 2 ^ 31 \<Longrightarrow> sint (word_of_int prt :: u32) = prt"
  by (simp add: signed_of_int signed_take_bit_int_eq_self)

text \<open>
  C24: The client finds the service: once \<open>SendData\<close> has registered the service's address over a
  connection to the centre, \<open>GetIpAndPort\<close> over any connection of its own returns exactly that
  address, and the text of the port reads back as the number that was registered.
\<close>

theorem client_finds_service:
  assumes "wire_format lib" and "sendable lib (example_header lib 1 sip (word_of_int prt))"
    and "sendable lib (example_header lib 0 addr (- 1))" and "58 \<notin> set sip" and "length sip < 2000"
    and "0 \<le> prt" and "prt < 2 ^ 31"
    and "length (m_read_buf c) = READ_BUFFER_SIZE" and "length (m_read_buf d) = READ_BUFFER_SIZE"
  shows "\<exists>c' s' k' sport. SendData lib big (centre_net lib big) sip prt fd (c, s, t, out) = (True, fd, (c', s', t, out))
    \<and> GetIpAndPort lib big (centre_net lib big) addr fd' (d, s', t', []) = (Inr (Some (sip, sport)), k')
    \<and> stoi sport = Inr prt"
proof -
  let ?s = "reg_put (EXAMPLE_SERVICE @ GET_LIST) (sip @ 58 # int_to_string prt) t s"
  obtain c' where "SendData lib big (centre_net lib big) sip prt fd (c, s, t, out) = (True, fd, (c', ?s, t, out))"
    using SendData_centre [OF assms(1,2,8), of big fd s t out] by (auto simp: port_word [OF assms(6,7)])
  moreover obtain k' where "GetIpAndPort lib big (centre_net lib big) addr fd' (d, ?s, t', []) = (Inr (Some (sip, int_to_string prt)), k')"
    using GetIpAndPort_centre [OF assms(1,3,9), of ?s sip "int_to_string prt" big fd' t'] assms(4-7) port_text_length [of prt]
    by (auto simp: reg_put_def)
  moreover have "stoi (int_to_string prt) = Inr prt" using assms(6,7) by (intro stoi_int_to_string) auto
  ultimately show ?thesis by blast
qed

lemma length_str [simp]: "length (str s) = length s"
  by (simp add: str_def)

lemma example_sendable:
  "sendable base128_lib (example_header base128_lib 1 Centerip 9910)"
  "sendable base128_lib (example_header base128_lib 0 Centerip (- 1))"
proof -
  have "length (varint 128) \<le> 2" "length (varint 9910) \<le> 2" using varint_length [of 128 1] varint_length [of 9910 1] by simp_all
  moreover have "length (varint (unat (- 1 :: u32))) \<le> Suc 4"
    by (rule varint_length) (use unsigned_less [of "- 1 :: u32", where ?'a = nat] in simp)
  ultimately show "sendable base128_lib (example_header base128_lib 1 Centerip 9910)"
    "sendable base128_lib (example_header base128_lib 0 Centerip (- 1))"
    by (simp_all add: sendable_def example_header_def base128_lib_def RpcHeader_InternalSerialize_def Centerip_def
        EXAMPLE_SERVICE_def GET_LIST_def READ_BUFFER_SIZE_def varint_tag)
qed

theorem client_finds_service_witness:
  "\<exists>c' s' k' sport. SendData base128_lib False (centre_net base128_lib False) Centerip 9910 7 (demo_conn, rpc_server_new, 0, [])
       = (True, 7, (c', s', 0, []))
    \<and> GetIpAndPort base128_lib False (centre_net base128_lib False) Centerip 8 (demo_conn, s', 5, []) = (Inr (Some (Centerip, sport)), k')
    \<and> stoi sport = Inr 9910"
proof -
  have "58 \<notin> set Centerip" "length Centerip < 2000" by (simp_all add: Centerip_def str_def of_char_def)
  then show ?thesis
    using client_finds_service [OF b128.wire_format_axioms _ example_sendable(2), of Centerip 9910 demo_conn demo_conn False 7
        rpc_server_new 0 "[]" 8 5] example_sendable(1) demo_conn_buffer by simp
qed

definition list_response :: "'u msg_lib \<Rightarrow> 'u GetListResponse" where
  "list_response lib =
     \<lparr>rs_result = Some \<lparr>errcode = 0, errmsg = [], rc_unknown = no_unknown (pb lib)\<rparr>, rs_val = PushData [],
      rs_unknown = no_unknown (pb lib)\<rparr>"

lemma fold_add_val: "fold add_val vs m = m\<lparr>rs_val := rs_val m @ vs\<rparr>"
  by (induction vs arbitrary: m) (simp_all add: add_val_def)

lemma GetList_response: "GetList lib [] request (GetListResponse_new lib) = ([], list_response lib)"
  by (simp add: GetList_def mutable_result_set_def mutable_result_def result_def GetListResponse_new_def ResultCode_new_def
      fold_add_val list_response_def)

lemma example_reply:
  assumes "message_format lib" and "rq_unknown q = no_unknown (pb lib)"
    and "GetListResponse_ByteSizeLong lib (list_response lib) < 2 ^ 31"
    and "p = provider_NotifyService (example_api lib) [] (provider_new (pb lib))"
  shows "service_reply (example_api lib) (m_serviceMap p) SERVICE_RPC GET_LIST (GetListRequest_InternalSerialize lib q)
    = Some (GetListResponse_InternalSerialize lib (list_response lib))"
  using assms message_format.GetListRequest_parsed [OF assms(1,2)]
  by (simp add: service_reply_def provider_NotifyService_def map_insert_def provider_new_def provider_reset_def example_api_def
      GetRequestPrototype_def GetResponsePrototype_def ServiceRpc_CallMethod_def GetList_response SerializeToString_def)

lemma list_response_parsed:
  assumes "message_format lib"
  shows "parse_response_msg lib (GetListResponse_InternalSerialize lib (list_response lib)) = Some (list_response lib)"
proof -
  have w: "wire_format (pb lib)" using assms by (simp add: message_format_def)
  have "ResultCode_InternalSerialize lib \<lparr>errcode = 0, errmsg = [], rc_unknown = no_unknown (pb lib)\<rparr> = []"
    using wire_format.none_unknown [OF w] by (simp add: ResultCode_InternalSerialize_def)
  then show ?thesis
    by (intro message_format.GetListResponse_parsed [OF assms])
       (simp add: message_format.rs_encodable_def [OF assms] message_format.rc_encodable_def [OF assms] list_response_def
          PushData_def str_def)
qed

text \<open>
  The example works: a client that knows the address, calling over a connection to a
  provider with the example service registered, gets the answer with result code 0 and exactly
  the three lines of \<open>PushData\<close>, and keeps the address for the next call, whenever the request
  frame fits the buffer and has no zero byte and the response has at most 1024 bytes.
\<close>

theorem get_list_answered:
  assumes "message_format lib" and "Serviceport c = int_to_string prt" and "- (2 ^ 31) \<le> prt" and "prt < 2 ^ 31"
    and "length (Serviceip c) < 2 ^ 31"
    and "args = GetListRequest_InternalSerialize lib ((GetListRequest_new lib)\<lparr>userid := 1000\<rparr>)"
    and "h = call_header (pb lib) SERVICE_RPC GET_LIST args
           \<lparr>ch_fd = 9, ch_type = 0, ch_port = sint (word_of_int prt :: u16), ch_ip = Serviceip c\<rparr>"
    and "s = rpc_frame (pb lib) (RpcHeader_InternalSerialize (pb lib) h) args"
    and "length s < READ_BUFFER_SIZE" and "0 \<notin> set s"
    and "GetListResponse_ByteSizeLong lib (list_response lib) \<le> 1024"
    and "p = provider_NotifyService (example_api lib) [] (provider_new (pb lib))"
  shows "\<exists>k'. client_call lib (loop_net (pb lib) (example_api lib)) c (p, []) = (Answered (list_response lib), c, k')
    \<and> rs_val (list_response lib) = PushData [] \<and> errcode (result lib (list_response lib)) = 0"
proof -
  let ?net = "loop_net (pb lib) (example_api lib)"
  let ?ch = "\<lparr>ch_fd = 9, ch_type = 0, ch_port = sint (word_of_int prt :: u16), ch_ip = Serviceip c\<rparr>"
  let ?q = "(GetListRequest_new lib)\<lparr>userid := 1000\<rparr>"
  have w: "wire_format (pb lib)" using assms(1) by (simp add: message_format_def)
  have channel: "Channel_new ?net (Serviceip c) (word_of_int prt) True 0 (p, []) = (?ch, (p, []))"
    by (simp add: Channel_new_def connect_tries.simps [of 3] newConnect_def loop_net_def)
  have "length args < 2 ^ 31" using assms(8,9) by (simp add: rpc_frame_def READ_BUFFER_SIZE_def)
  then have ser: "SerializeToString (GetListRequest_ByteSizeLong lib ?q) (GetListRequest_InternalSerialize lib ?q) = Some args"
    by (simp add: SerializeToString_def message_format.GetListRequest_byte_size [OF assms(1)] assms(6))
  have reply: "service_reply (example_api lib) (m_serviceMap p) SERVICE_RPC GET_LIST args
      = Some (GetListResponse_InternalSerialize lib (list_response lib))"
    unfolding assms(6) by (rule example_reply [OF assms(1) _ _ assms(12)]) (use assms(11) in \<open>simp_all add: GetListRequest_new_def\<close>)
  have buf: "pv_read_buf p = replicate READ_BUFFER_SIZE 0"
    by (simp add: assms(12) provider_NotifyService_def provider_new_def provider_reset_def)
  have "length (GetListResponse_InternalSerialize lib (list_response lib)) \<le> 1024"
    using assms(11) by (simp add: message_format.GetListResponse_byte_size [OF assms(1)])
  then obtain ch' k' where "CallMethod (pb lib) ?net SERVICE_RPC GET_LIST (Some args) (parse_response_msg lib) Control_new ?ch (p, [])
      = Some (Some (list_response lib), Control_new, ch', k')"
    using call_over_loop [OF w _ _ _ _ assms(9,10) buf reply, of ?ch "parse_response_msg lib" "list_response lib" Control_new]
      assms(5,7,8) list_response_parsed [OF assms(1)]
    by (auto simp: SERVICE_RPC_def GET_LIST_def str_def)
  then have "client_call lib ?net c (p, []) = (Answered (list_response lib), c, k')"
    using stoi_int_to_string [OF assms(3,4)]
    by (simp add: client_call_def assms(2) channel Stub_GetList_def ser Failed_def Control_new_def)
  then show ?thesis by (simp add: list_response_def result_def)
qed

definition demo_client :: client where
  "demo_client = \<lparr>Serviceip = [49], Serviceport = int_to_string 9910\<rparr>"

lemma varint_small: "k < 128 \<Longrightarrow> varint k = [of_nat k]"
  by (simp add: varint.simps)

lemma demo_varints: "varint 1000 = [232, 7]" "varint 9910 = [182, 77]"
  by (subst varint.simps, simp add: varint_small)+

lemma demo_request: "GetListRequest_InternalSerialize base128_msgs ((GetListRequest_new base128_msgs)\<lparr>userid := 1000\<rparr>) = [8, 232, 7]"
  by (simp add: GetListRequest_InternalSerialize_def GetListRequest_new_def base128_msgs_def base128_lib_def varint_small demo_varints)

lemma demo_list_frame:
  "rpc_frame base128_lib (RpcHeader_InternalSerialize base128_lib (call_header base128_lib SERVICE_RPC GET_LIST [8, 232, 7]
     \<lparr>ch_fd = 9, ch_type = 0, ch_port = 9910, ch_ip = [49]\<rparr>)) [8, 232, 7]
   = [29, 10, 10] @ SERVICE_RPC @ [18, 7] @ GET_LIST @ [24, 3, 42, 1, 49, 48, 182, 77] @ [8, 232, 7]"
proof -
  have "length SERVICE_RPC = 10" "length GET_LIST = 7" by (simp_all add: SERVICE_RPC_def GET_LIST_def)
  moreover from this have "SERVICE_RPC \<noteq> []" "GET_LIST \<noteq> []" by auto
  ultimately show ?thesis
    by (simp add: rpc_frame_def RpcHeader_InternalSerialize_def call_header_def base128_lib_def varint_small demo_varints)
qed

theorem get_list_answered_witness:
  "\<exists>k'. client_call base128_msgs (loop_net base128_lib (example_api base128_msgs)) demo_client
     (provider_NotifyService (example_api base128_msgs) [] (provider_new base128_lib), []) = (Answered (list_response base128_msgs), demo_client, k')"
proof -
  have lib: "pb base128_msgs = base128_lib" by (simp add: base128_msgs_def)
  have "0 \<notin> set ([29, 10, 10] @ SERVICE_RPC @ [18, 7] @ GET_LIST @ [24, 3, 42, 1, 49, 48, 182, 77] @ [8, 232, 7])"
    "length ([29, 10, 10] @ SERVICE_RPC @ [18, 7] @ GET_LIST @ [24, 3, 42, 1, 49, 48, 182, 77] @ [8, 232, 7]) < READ_BUFFER_SIZE"
    by (simp_all add: SERVICE_RPC_def GET_LIST_def str_def of_char_def READ_BUFFER_SIZE_def)
  moreover have "GetListResponse_ByteSizeLong base128_msgs (list_response base128_msgs) \<le> 1024"
    by (simp add: GetListResponse_ByteSizeLong_def list_response_def PushData_def ResultCode_ByteSizeLong_def base128_msgs_def
        base128_lib_def varint_tag)
  ultimately show ?thesis
    using get_list_answered [OF bm.message_format_axioms, of demo_client 9910 _ _ _
        "provider_NotifyService (example_api base128_msgs) [] (provider_new base128_lib)", OF _ _ _ _ refl refl refl]
    by (simp add: lib demo_request demo_list_frame demo_client_def)
qed

text \<open>
  A service that cannot be reached is forgotten: when no connection can be made, the call
  fails after the four attempts of \<open>Channel\<close> and the one of \<open>CallMethod\<close>, the client drops
  the address, and its next round asks the centre again.
\<close>

theorem unreachable_service_forgotten:
  assumes "Serviceport c = int_to_string prt" and "- (2 ^ 31) \<le> prt" and "prt < 2 ^ 31"
    and "\<forall>fd a p k. \<exists>e k'. net_connect net fd a p k = (Inl e, k')"
  shows "\<exists>f k'. client_round lib big net addr fd c k = (CallFailed (Some f), \<lparr>Serviceip = [], Serviceport = []\<rparr>, k')
     \<and> snd (snd (client_round lib big net addr fd \<lparr>Serviceip = [], Serviceport = []\<rparr> k')) = snd (GetIpAndPort (pb lib) big net addr fd k')"
proof -
  have fails: "\<exists>f k'. newConnect net a p ch k = (Some f, ch\<lparr>ch_fd := - 1\<rparr>, k')" for a p ch k
  proof (cases "net_socket net k")
    case (Pair r k1)
    show ?thesis
    proof (cases r)
      case (Inr sock)
      obtain e k' where "net_connect net sock a (word_of_int p) k1 = (Inl e, k')" using assms(4) by blast
      then show ?thesis by (simp add: newConnect_def Pair Inr)
    qed (simp add: newConnect_def Pair)
  qed
  have tries: "\<exists>k'. connect_tries n net a p ch k = (ch\<lparr>ch_fd := - 1\<rparr>, k')" for n a p ch k
  proof (induction n arbitrary: ch k)
    case 0
    show ?case using fails [of a p ch k] by (auto simp: connect_tries.simps)
  next
    case (Suc n)
    obtain f k1 where "newConnect net a p ch k = (Some f, ch\<lparr>ch_fd := - 1\<rparr>, k1)" using fails by blast
    then show ?case using Suc [of "ch\<lparr>ch_fd := - 1\<rparr>" k1] by (subst connect_tries.simps) simp
  qed
  let ?ch = "\<lparr>ch_fd = - 1, ch_type = 0, ch_port = sint (word_of_int prt :: u16), ch_ip = Serviceip c\<rparr>"
  obtain k1 where "Channel_new net (Serviceip c) (word_of_int prt) True 0 k = (?ch, k1)"
    using tries [of 3 "Serviceip c" "sint (word_of_int prt :: u16)" ?ch k] by (auto simp: Channel_new_def)
  moreover obtain f k2 where "newConnect net (Serviceip c) (sint (word_of_int prt :: u16)) ?ch k1 = (Some f, ?ch\<lparr>ch_fd := - 1\<rparr>, k2)"
    using fails by blast
  moreover have "Serviceport c \<noteq> []" by (simp add: assms(1) int_to_string_def)
  ultimately have "client_round lib big net addr fd c k = (CallFailed (Some f), \<lparr>Serviceip = [], Serviceport = []\<rparr>, k2)"
    using stoi_int_to_string [OF assms(2,3)] assms(1)
    by (cases c) (simp add: client_round_def client_call_def Stub_GetList_def CallMethod_def Failed_def SetFailed_def ErrorText_def Control_new_def)
  moreover have "snd (snd (client_round lib big net addr fd \<lparr>Serviceip = [], Serviceport = []\<rparr> k2)) = snd (GetIpAndPort (pb lib) big net addr fd k2)"
    by (auto simp: client_round_def split: prod.split sum.split option.split)
  ultimately show ?thesis by blast
qed

definition down_net :: "nat net" where
  \<comment> \<open>no connection can be made; the state counts the attempts\<close>
  "down_net = \<lparr>net_socket = (\<lambda>k. (Inr 4, k)), net_connect = (\<lambda>_ _ _ k. (Inl 111, k + 1)), net_send = (\<lambda>_ _ k. (Inl 32, k)),
     net_recv = (\<lambda>_ _ k. (Inl 32, k)), net_close = (\<lambda>_ k. k)\<rparr>"

theorem unreachable_service_forgotten_witness:
  "\<exists>f k'. client_round base128_msgs False down_net Centerip 7 demo_client 0 = (CallFailed (Some f), \<lparr>Serviceip = [], Serviceport = []\<rparr>, k')"
  using unreachable_service_forgotten [of demo_client 9910 down_net base128_msgs False Centerip 7 0]
  by (auto simp: demo_client_def down_net_def)

text \<open>
  Losing the registration is not noticed in \<open>sendRegistrationCenter\<close>: when the connection
  is made but sending fails it closes the connection and still reports success, and the heartbeat
  then ends the process in its first round.
\<close>

theorem failed_registration_exits:
  assumes "net_socket net k = (Inr sock, k1)" and "net_connect net sock Centerip Centerport k1 = (Inr (), k2)"
    and "\<forall>b k. \<exists>e k'. net_send net sock b k = (Inl e, k')"
  shows "\<exists>k'. sendRegistrationCenter lib big net addr prt k = (True, - 1, k')
     \<and> (\<forall>n. doHeart lib big net addr prt (Suc n) (- 1) k' = (False, - 1, k'))"
proof -
  obtain k' where "SendData lib big net addr prt sock k2 = (False, - 1, k')"
  proof (cases "RpcHeader_SerializeToString lib (example_header lib 1 addr (word_of_int prt))")
    case (Some d)
    obtain e k' where "net_send net sock (frame big d) k2 = (Inl e, k')" using assms(3) by blast
    then show ?thesis using that by (simp add: SendData_def Some)
  qed (simp add: SendData_def that)
  then show ?thesis by (simp add: sendRegistrationCenter_def centre_connect_def assms(1,2))
qed

end
