(* ===== verification/Service_Run.thy ===== *)
theory Service_Run
  imports Example Startup
begin

text \<open>
  \<open>run\<close> of \<^verbatim>\<open>example/server/exampleService.cpp\<close>: the service registers at the centre, starts its heartbeat,
  binds, makes its methods known to the provider and starts to accept.  It brings together the registration of
  \<open>Example\<close>, the server of \<open>Tcp_Server\<close> and the provider of \<open>Rpc\<close>.
\<close>

section \<open>The start of a service\<close>

record ('n, 'c, 'l, 'k, 'u, 's, 'm) service =
  ex_net :: 'n
  ex_clientfd :: int
  ex_heart :: bool                                   \<comment> \<open>\<open>doHeart\<close> is scheduled\<close>
  ex_tcp :: "('c, 'l, 'k) tcp_server"
  ex_provider :: "('u, 's, 'm) provider"

definition service_new :: "'u pb_lib \<Rightarrow> 'n \<Rightarrow> ('c, 'l, 'k) tcp_server \<Rightarrow> ('n, 'c, 'l, 'k, 'u, 's, 'm) service" where
  "service_new lib n w = \<lparr>ex_net = n, ex_clientfd = - 1, ex_heart = False, ex_tcp = w, ex_provider = provider_new lib\<rparr>"

partial_function (option) register_until ::
    "'u pb_lib \<Rightarrow> bool \<Rightarrow> 'n net \<Rightarrow> bytes \<Rightarrow> int \<Rightarrow> ('n \<Rightarrow> 'n) \<Rightarrow> 'n \<Rightarrow> (int \<times> 'n) option" where
  \<comment> \<open>\<open>rest\<close>: what a second of \<open>sleep\<close> changes outside\<close>
  "register_until lib big net addr prt rest k =
     (case sendRegistrationCenter lib big net addr prt k of (b, fd, k1) \<Rightarrow>
        (if b then Some (fd, k1) else register_until lib big net addr prt rest (rest k1)))"

definition example_address ::
    "(bytes \<Rightarrow> bytes option \<Rightarrow> u16 \<Rightarrow> int \<Rightarrow> int \<Rightarrow> sockaddr option list option) \<Rightarrow> bytes \<Rightarrow> int \<Rightarrow> Address option" where
  "example_address getaddrinfo addr prt = LookupAnyIPAddress getaddrinfo (addr @ str '':'' @ int_to_string prt) AF_INET 0 0"

definition example_listen ::
    "'k sys \<Rightarrow> bool \<Rightarrow> ('k \<Rightarrow> 'k) \<Rightarrow> ('s, 'm, 'q, 'p) pb_service \<Rightarrow> 's \<Rightarrow> Address option \<Rightarrow> ('n, 'c, 'l, 'k, 'u, 's, 'm) service
     \<Rightarrow> ((start_error \<times> ('n, 'c, 'l, 'k, 'u, 's, 'm) service) + ('n, 'c, 'l, 'k, 'u, 's, 'm) service) option" where
  \<comment> \<open>from the loop that binds on; the address is dereferenced there\<close>
  "example_listen sys big pause api svc a s =
     (case a of
        None \<Rightarrow> Some (Inl (NullAddress, s))
      | Some addr \<Rightarrow>
          map_option (\<lambda>w. Inr (s\<lparr>ex_provider := provider_NotifyService api svc (ex_provider s), ex_tcp := snd (tcp_start w)\<rparr>))
            (bind_until sys big pause addr (ex_tcp s)))"

definition example_run ::
    "'u pb_lib \<Rightarrow> bool \<Rightarrow> 'n net \<Rightarrow> bytes \<Rightarrow> int \<Rightarrow> ('n \<Rightarrow> 'n)
     \<Rightarrow> (bytes \<Rightarrow> bytes option \<Rightarrow> u16 \<Rightarrow> int \<Rightarrow> int \<Rightarrow> sockaddr option list option) \<Rightarrow> 'k sys \<Rightarrow> ('k \<Rightarrow> 'k)
     \<Rightarrow> ('s, 'm, 'q, 'p) pb_service \<Rightarrow> 's \<Rightarrow> ('n, 'c, 'l, 'k, 'u, 's, 'm) service
     \<Rightarrow> ((start_error \<times> ('n, 'c, 'l, 'k, 'u, 's, 'm) service) + ('n, 'c, 'l, 'k, 'u, 's, 'm) service) option" where
  "example_run lib big net addr prt rest getaddrinfo sys pause api svc s =
     (let a = example_address getaddrinfo addr prt
      in case register_until lib big net addr prt rest (ex_net s) of
           None \<Rightarrow> None
         | Some (fd, k) \<Rightarrow> example_listen sys big pause api svc a (s\<lparr>ex_net := k, ex_clientfd := fd, ex_heart := True\<rparr>))"

lemma register_centre:
  assumes "wire_format lib" and "sendable lib (example_header lib 1 addr (word_of_int prt))" and "0 \<le> prt" "prt < 2 ^ 31"
    and "length (m_read_buf c) = READ_BUFFER_SIZE"
  shows "\<exists>c'. register_until lib big (centre_net lib big) addr prt rest (c, s, t, out)
    = Some (9, (c', reg_put (EXAMPLE_SERVICE @ GET_LIST) (addr @ 58 # int_to_string prt) t s, t, out))"
proof -
  obtain c' where "SendData lib big (centre_net lib big) addr prt 9 (c, s, t, out)
      = (True, 9, (c', reg_put (EXAMPLE_SERVICE @ GET_LIST) (addr @ 58 # int_to_string prt) t s, t, out))"
    using SendData_centre [OF assms(1,2,5), of big 9 s t out] by (auto simp: port_word [OF assms(3,4)])
  then show ?thesis
    by (subst register_until.simps) (simp add: sendRegistrationCenter_def centre_connect_def, simp add: centre_net_def)
qed

section \<open>Properties\<close>



text \<open>
  The service is announced before it listens: when the address does not resolve the process crashes, and the centre
  sends clients to it until the entry expires.
\<close>

theorem announced_without_listening:
  fixes api :: "('s, 'm, 'q, 'p) pb_service" and w :: "('c, 'l, 'k) tcp_server"
  assumes "wire_format lib" and "sendable lib (example_header lib 1 addr (word_of_int prt))" and "0 \<le> prt" "prt < 2 ^ 31"
    and "length (m_read_buf c) = READ_BUFFER_SIZE" and "example_address getaddrinfo addr prt = None"
  shows "\<exists>s1 c'. example_run lib big (centre_net lib big) addr prt rest getaddrinfo sys pause api svc
        (service_new lib (c, s, t, out) w) = Some (Inl (NullAddress, s1))
    \<and> ex_net s1 = (c', reg_put (EXAMPLE_SERVICE @ GET_LIST) (addr @ 58 # int_to_string prt) t s, t, out) \<and> ex_tcp s1 = w"
  using register_centre [OF assms(1-5), of big rest s t out]
  by (auto simp: example_run_def example_listen_def service_new_def assms(6))


theorem announced_without_listening_witness:
  "\<exists>s1 c'. example_run base128_lib False (centre_net base128_lib False) Centerip 9910 id (\<lambda>_ _ _ _ _. None) busy_sys demo_pause demo_api ()
        (service_new base128_lib (demo_conn, rpc_server_new, 0, []) demo_server) = Some (Inl (NullAddress, s1))
     \<and> ex_net s1 = (c', reg_put (EXAMPLE_SERVICE @ GET_LIST) (Centerip @ 58 # int_to_string 9910) 0 rpc_server_new, 0, [])"
proof -
  have p: "sendable base128_lib (example_header base128_lib 1 Centerip (word_of_int 9910))" "(0 :: int) \<le> 9910" "(9910 :: int) < 2 ^ 31"
    using example_sendable(1) by simp_all
  have "example_address (\<lambda>_ _ _ _ _. None) Centerip 9910 = None"
    by (simp add: example_address_def LookupAnyIPAddress_def addr_Lookup_def split: prod.split)
  from announced_without_listening [OF b128.wire_format_axioms p demo_conn_buffer this, where big = False and rest = id and sys = busy_sys
      and pause = demo_pause and api = demo_api and svc = "()" and w = demo_server and s = rpc_server_new and t = 0 and out = "[]"]
  show ?thesis by blast
qed

end
