(* ===== verification/Process.thy ===== *)
theory Process
  imports IOManager
begin

text \<open>
  The life of a process: the constructor and the destructor of \<^verbatim>\<open>IOManager\<close> (\<^verbatim>\<open>ioscheduler.cpp\<close>) with \<^verbatim>\<open>start\<close> and
  \<^verbatim>\<open>stop\<close> of the scheduler below it, how a thread enters \<^verbatim>\<open>Scheduler::run\<close>, and the managers \<^verbatim>\<open>main\<close> of the registration
  centre and of the example service make.  The limits of the process and the log are left out.
\<close>

section \<open>Managers from construction to destruction\<close>

text \<open>The thread-local variables of the thread at hand; schedulers by their numbers.\<close>

record thread_locals =
  t_hook :: bool                   \<comment> \<open>\<^verbatim>\<open>t_hook_enable\<close>\<close>
  t_scheduler :: "nat option"
  t_main_fiber :: bool             \<comment> \<open>\<^verbatim>\<open>Fiber::GetThis()\<close> has made the thread's main fiber\<close>

definition thread_locals_new :: thread_locals where
  "thread_locals_new = \<lparr>t_hook = False, t_scheduler = None, t_main_fiber = False\<rparr>"

definition IOManager_GetThis :: "(nat \<Rightarrow> bool) \<Rightarrow> thread_locals \<Rightarrow> nat option" where
  \<comment> \<open>the \<^verbatim>\<open>dynamic_cast\<close>: \<open>is_iom\<close> says which schedulers are managers\<close>
  "IOManager_GetThis is_iom tls =
     (case t_scheduler tls of None \<Rightarrow> None | Some sid \<Rightarrow> if is_iom sid then Some sid else None)"

definition run_enter :: "nat \<Rightarrow> int \<Rightarrow> 'cb scheduler \<Rightarrow> thread_locals \<Rightarrow> thread_locals" where
  \<comment> \<open>\<^verbatim>\<open>run\<close> on the thread \<open>tid\<close>, up to the making of its idle fiber\<close>
  "run_enter me tid s tls =
     (let tls1 = tls\<lparr>t_hook := True\<rparr>;
          tls2 = tls1\<lparr>t_scheduler := Scheduler_SetThis me (t_scheduler tls1)\<rparr>
      in if tid \<noteq> m_rootThread s then tls2\<lparr>t_main_fiber := True\<rparr> else tls2)"

definition IOManager_start ::
    "nat \<Rightarrow> bool \<Rightarrow> nat \<Rightarrow> int \<Rightarrow> nat \<Rightarrow> (nat \<Rightarrow> int) \<Rightarrow> (nat \<Rightarrow> 'cb scheduler) \<Rightarrow> int \<Rightarrow> thread_locals
     \<Rightarrow> sched_error + ('cb iomanager \<times> thread_locals)" where
  \<comment> \<open>the whole constructor, its base classes and \<^verbatim>\<open>start()\<close> included\<close>
  "IOManager_start threads use_caller me tid sched_fiber new_tid sch now tls =
     (case Scheduler_new threads use_caller ''IOManager'' tid sched_fiber of
        Inl e \<Rightarrow> Inl e
      | Inr s0 \<Rightarrow>
          (let tls1 = tls\<lparr>t_scheduler := Scheduler_SetThis me (t_scheduler tls), t_main_fiber := t_main_fiber tls \<or> use_caller\<rparr>;
               m = IOManager_new me (sch(me := s0)) now
           in case Scheduler_start new_tid (scheds m me) of
                Inl e \<Rightarrow> Inl e
              | Inr s1 \<Rightarrow> Inr (m\<lparr>scheds := (scheds m)(me := s1)\<rparr>, tls1)))"

definition IOManager_stop :: "int \<Rightarrow> thread_locals \<Rightarrow> 'cb iomanager \<Rightarrow> sched_error + ('cb iomanager \<times> bool)" where
  \<comment> \<open>\<^verbatim>\<open>stop()\<close> up to the joins, with the manager's own \<open>stopping\<close> and \<open>tickle\<close>; the flag: the caller resumes the
    scheduler fiber and so enters \<^verbatim>\<open>run\<close>\<close>
  "IOManager_stop now tls m =
     (let (m1, is_stopping) = iom_stopping now m
      in case Scheduler_stop is_stopping (t_scheduler tls = Some (self m1)) (scheds m1 (self m1)) of
           Inl e \<Rightarrow> Inl e
         | Inr (s1, tickles, resumes) \<Rightarrow>
             Inr ((tickle (self m1) ^^ tickles) (m1\<lparr>scheds := (scheds m1)(self m1 := s1)\<rparr>), resumes))"

definition IOManager_destroy ::
    "int \<Rightarrow> int \<times> int \<Rightarrow> thread_locals \<Rightarrow> 'cb iomanager \<Rightarrow> sched_error + (int list \<times> nat list \<times> thread_locals)" where
  \<comment> \<open>what follows \<^verbatim>\<open>stop()\<close>: the descriptors closed and the contexts deleted, in order, then the destructor of the base
    class, in which \<open>stopping\<close> is its own\<close>
  "IOManager_destroy epfd tickle_fds tls m =
     (case Scheduler_destroy (stopping (scheds m (self m))) (self m) (t_scheduler tls) of
        Inl e \<Rightarrow> Inl e
      | Inr t \<Rightarrow> Inr ([epfd, fst tickle_fds, snd tickle_fds], m_fdContexts m, tls\<lparr>t_scheduler := t\<rparr>))"

section \<open>\<open>main\<close>\<close>

definition process_main ::
    "nat \<Rightarrow> int \<Rightarrow> nat \<Rightarrow> (nat \<Rightarrow> int) \<Rightarrow> (nat \<Rightarrow> 'cb scheduler) \<Rightarrow> int \<Rightarrow> int \<Rightarrow> 'cb
     \<Rightarrow> sched_error + ('cb iomanager \<times> 'cb iomanager \<times> bool \<times> thread_locals)" where
  \<comment> \<open>\<open>worker\<close> is the manager 0, \<open>manager\<close> the manager 1, whose destructor begins at the end of \<^verbatim>\<open>main\<close>\<close>
  "process_main threads tid sched_fiber new_tid sch now now_end run_cb =
     (case IOManager_start threads False 0 tid 0 new_tid sch now thread_locals_new of
        Inl e \<Rightarrow> Inl e
      | Inr (worker, tls1) \<Rightarrow>
          (case IOManager_start 1 True 1 tid sched_fiber new_tid (scheds worker) now tls1 of
             Inl e \<Rightarrow> Inl e
           | Inr (m, tls2) \<Rightarrow>
               (case IOManager_stop now_end tls2 (schedule_on 1 (ScheduleTask_cb (Some run_cb) (- 1)) m) of
                  Inl e \<Rightarrow> Inl e
                | Inr (m1, resumes) \<Rightarrow> Inr (worker, m1, resumes, tls2))))"

definition centre_main ::
    "int \<Rightarrow> nat \<Rightarrow> (nat \<Rightarrow> int) \<Rightarrow> (nat \<Rightarrow> 'cb scheduler) \<Rightarrow> int \<Rightarrow> int \<Rightarrow> 'cb
     \<Rightarrow> sched_error + ('cb iomanager \<times> 'cb iomanager \<times> bool \<times> thread_locals)" where
  "centre_main = process_main 5"

definition example_main ::
    "int \<Rightarrow> nat \<Rightarrow> (nat \<Rightarrow> int) \<Rightarrow> (nat \<Rightarrow> 'cb scheduler) \<Rightarrow> int \<Rightarrow> int \<Rightarrow> 'cb
     \<Rightarrow> sched_error + ('cb iomanager \<times> 'cb iomanager \<times> bool \<times> thread_locals)" where
  "example_main = process_main 3"

section \<open>The contexts a manager owns\<close>

definition owns_all :: "'cb iomanager \<Rightarrow> bool" where
  \<comment> \<open>every context ever made is in the table\<close>
  "owns_all s \<longleftrightarrow> set (m_fdContexts s) = {..< next_ptr s}"

definition same_table :: "'cb iomanager \<Rightarrow> 'cb iomanager \<Rightarrow> bool" where
  "same_table s s' \<longleftrightarrow> m_fdContexts s' = m_fdContexts s \<and> next_ptr s' = next_ptr s"

lemma owns_all_same: "same_table s s' \<Longrightarrow> owns_all s \<Longrightarrow> owns_all s'"
  by (simp add: owns_all_def same_table_def)

lemma fill_set:
  "fill_contexts i ps s = (qs, s') \<Longrightarrow> set qs = {p. Some p \<in> set ps} \<union> {next_ptr s ..< next_ptr s'}"
proof (induction i ps s arbitrary: qs s' rule: fill_contexts.induct)
  case (2 i q ps s)
  obtain rs where f: "fill_contexts (Suc i) ps s = (rs, s')" and qs: "qs = q # rs"
    using 2(2) by (auto simp: Let_def split: prod.splits)
  show ?case using 2(1) [OF f] qs by auto
next
  case (3 i ps s)
  let ?s1 = "s\<lparr>ctxs := (ctxs s)(next_ptr s := FdContext_new i), next_ptr := Suc (next_ptr s)\<rparr>"
  obtain rs where f: "fill_contexts (Suc i) ps ?s1 = (rs, s')" and qs: "qs = next_ptr s # rs"
    using 3(2) by (auto simp: Let_def split: prod.splits)
  have "Suc (next_ptr s) \<le> next_ptr s'" using fill_frame [OF f] by simp
  then have "{next_ptr s ..< next_ptr s'} = insert (next_ptr s) {Suc (next_ptr s) ..< next_ptr s'}" by auto
  then show ?case using 3(1) [OF refl refl f] qs by simp
qed simp

lemma contextResize_owns:
  assumes "owns_all s" and "length (m_fdContexts s) \<le> n"
  shows "owns_all (contextResize n s)"
proof -
  let ?ptrs = "vector_resize n None (map Some (m_fdContexts s))"
  obtain ps s' where f: "fill_contexts 0 ?ptrs s = (ps, s')" by fastforce
  have "{p. Some p \<in> set ?ptrs} = set (m_fdContexts s)" using assms(2) by (auto simp: vector_resize_def)
  then have "set ps = {..< next_ptr s'}" using fill_set [OF f] assms(1) fill_frame [OF f] by (auto simp: owns_all_def)
  then show ?thesis by (simp add: contextResize_def f owns_all_def)
qed

lemma same_table_trans: "same_table s t \<Longrightarrow> same_table t u \<Longrightarrow> same_table s u"
  by (simp add: same_table_def)

lemma same_table_log [simp]: "same_table s (log_ctl op fd ev p rt t) = same_table s t"
  by (simp add: same_table_def)

lemma trigger_same: "triggerEvent event c s = Inr (c', s') \<Longrightarrow> same_table s s'"
  by (auto simp: triggerEvent_def same_table_def Let_def ScheduleTask_cb_ptr_def ScheduleTask_fiber_ptr_def
      split: if_splits sum.splits option.splits)

lemma trigger_if_same: "trigger_if b event p s = Inr s' \<Longrightarrow> same_table s s'"
  by (auto simp: trigger_if_def put_ctx_def same_table_def Let_def split: if_splits sum.splits dest!: trigger_same)

lemma addEvent_locked_same: "addEvent_locked me rt fd p event cbk s = Inr (r, s') \<Longrightarrow> same_table s s'"
  by (auto simp: addEvent_locked_def same_table_def Let_def split: if_splits sum.splits)

lemma delEvent_locked_same: "delEvent_locked rt fd event p s = Inr (b, s') \<Longrightarrow> same_table s s'"
  by (auto simp: delEvent_locked_def same_table_def Let_def split: if_splits sum.splits)

lemma cancelEvent_locked_same: "cancelEvent_locked rt fd event p s = Inr (b, s') \<Longrightarrow> same_table s s'"
  by (auto simp: cancelEvent_locked_def put_ctx_def same_table_def Let_def split: if_splits sum.splits dest!: trigger_same)

lemma cancelAll_locked_same: "cancelAll_locked rt fd p s = Inr (b, s') \<Longrightarrow> same_table s s'"
  by (auto simp: cancelAll_locked_def same_table_def Let_def split: if_splits sum.splits dest!: trigger_if_same)

lemma idle_event_same: "idle_event addr tickle_fd rt e s = Inr s' \<Longrightarrow> same_table s s'"
  by (auto simp: idle_event_def same_table_def Let_def split: if_splits sum.splits event_data.splits dest!: trigger_if_same)

lemma with_ctx_same:
  assumes "with_ctx fd body s = Inr (b, s')" and "\<And>p b. body p s = Inr (b, s') \<Longrightarrow> same_table s s'"
  shows "same_table s s'"
  using assms by (auto simp: with_ctx_def same_table_def split: sum.splits option.splits)

lemma ensure_ctx_owns: "iom_ok s \<Longrightarrow> owns_all s \<Longrightarrow> owns_all (ensure_ctx i s)"
  by (auto simp: ensure_ctx_def grow_size_def iom_ok_def intro!: contextResize_owns)

lemma seq_step_owns:
  assumes "seq_step s s'" and "iom_ok s" and "owns_all s"
  shows "owns_all s'"
  using assms
proof (cases rule: seq_step.cases)
  case (sq_add fd event me rt cbk r)
  then show ?thesis
    using addEvent_ensure [OF assms(2) sq_add(1), of me rt event cbk] owns_all_same ensure_ctx_owns [OF assms(2,3)]
    by (metis addEvent_locked_same)
next
  case (sq_del fd event rt b)
  then have "same_table s s'" unfolding delEvent_def by (blast intro: with_ctx_same delEvent_locked_same)
  then show ?thesis using assms(3) by (rule owns_all_same)
next
  case (sq_cancel fd event rt b)
  then have "same_table s s'" unfolding cancelEvent_def by (blast intro: with_ctx_same cancelEvent_locked_same)
  then show ?thesis using assms(3) by (rule owns_all_same)
next
  case (sq_cancelAll fd rt b)
  then have "same_table s s'" unfolding cancelAll_def by (blast intro: with_ctx_same cancelAll_locked_same)
  then show ?thesis using assms(3) by (rule owns_all_same)
next
  case (sq_event p addr tickle_fd rt ev)
  then show ?thesis using assms(3) by (blast intro: owns_all_same idle_event_same)
next
  case (sq_other x y z)
  then show ?thesis using assms(3) by (simp add: owns_all_def)
qed

lemma IOManager_new_owns: "owns_all (IOManager_new me sch now)"
  unfolding IOManager_new_def by (rule contextResize_owns) (simp_all add: owns_all_def)

interpretation ow: invariant_system iom_start seq_step "\<lambda>s. seq_ok s \<and> owns_all s"
proof unfold_locales
  fix s t :: "'a iomanager"
  show "seq_ok s \<and> owns_all s" if "iom_start s"
    using that by (auto elim!: iom_start.cases intro: IOManager_new_seq IOManager_new_owns)
  show "seq_ok t \<and> owns_all t" if "seq_step s t" "seq_ok s \<and> owns_all s"
  proof -
    have "iom_ok s" using that(2) by (simp add: seq_ok_def)
    then show ?thesis using that seq_step_ok [OF that(1)] seq_step_owns [OF that(1)] by blast
  qed
qed

text \<open>
  The destructor deletes each context once and leaves none behind, as long as no operation raced with a
  resize; a table that shrinks loses contexts for good.
\<close>

lemma destructor_frees_all:
  assumes "iom_start s0" and "seq_step\<^sup>*\<^sup>* s0 s" and "IOManager_destroy epfd fds tls s = Inr (closed, freed, tls1)"
  shows "distinct freed \<and> set freed = {..< next_ptr s}"
proof -
  have ok: "seq_ok s" "owns_all s" using ow.reachable_inv [OF assms(1,2)] by simp_all
  have "freed = m_fdContexts s" using assms(3) by (auto simp: IOManager_destroy_def split: sum.splits)
  then show ?thesis using ok table_distinct [of s] by (auto simp: distinct_conv_nth owns_all_def seq_ok_def)
qed

lemma shrinking_leaks:
  assumes "iom_ok s" and "32 \<le> n" and "n < length (m_fdContexts s)"
  shows "m_fdContexts s ! n < next_ptr (contextResize n s) \<and> m_fdContexts s ! n \<notin> set (m_fdContexts (contextResize n s))"
proof -
  have t: "table_ok s" using assms(1) by (simp add: iom_ok_table)
  have "m_fdContexts (contextResize n s) ! i \<noteq> m_fdContexts s ! n" if "i < n" for i
    using contextResize_keeps(1) [OF t that] table_distinct [OF assms(1), of i n] that assms(3) by simp
  moreover have "m_fdContexts s ! n < next_ptr s" using t assms(3) by (simp add: table_ok_def)
  ultimately show ?thesis
    using contextResize_facts(2) [OF t, of n] contextResize_frame(6) [OF t, of n] by (auto simp: in_set_conv_nth)
qed

section \<open>From the start of \<open>main\<close> to its end\<close>

definition run_task :: "'cb \<Rightarrow> 'cb ScheduleTask" where
  "run_task f = ScheduleTask_cb (Some f) (- 1)"

lemma start_threads_only:
  "start_threads n i new_tid s =
     s\<lparr>m_threads := m_threads s @ map new_tid [i ..< i + n], m_threadIds := m_threadIds s @ map new_tid [i ..< i + n]\<rparr>"
  by (induction n i new_tid s rule: start_threads.induct) (simp_all add: upt_conv_Cons del: upt_Suc)

lemma IOManager_start_result:
  fixes sch :: "nat \<Rightarrow> 'cb scheduler"
  assumes "0 < threads"
  shows "\<exists>m s1. IOManager_start threads use_caller me tid f new_tid sch now tls
      = Inr (m, tls\<lparr>t_scheduler := Some me, t_main_fiber := t_main_fiber tls \<or> use_caller\<rparr>)
    \<and> self m = me \<and> m_pendingEventCount m = 0 \<and> scheds m = sch(me := s1) \<and> pool_start (pool_new s1)
    \<and> m_tasks s1 = [] \<and> m_activeThreadCount s1 = 0 \<and> \<not> m_stopping s1 \<and> m_useCaller s1 = use_caller
    \<and> m_schedulerFiber s1 = (if use_caller then Some f else None)
    \<and> m_threads s1 = map new_tid [0 ..< threads - of_bool use_caller]"
proof -
  obtain s0 :: "'cb scheduler" where s0: "Scheduler_new threads use_caller ''IOManager'' tid f = Inr s0"
    using assms by (cases use_caller) (simp_all add: Scheduler_new_def Let_def)
  then have e: "m_tasks s0 = []" "m_threads s0 = []" "m_activeThreadCount s0 = 0" "\<not> m_stopping s0" "m_useCaller s0 = use_caller"
    "m_schedulerFiber s0 = (if use_caller then Some f else None)" "m_threadCount s0 = threads - of_bool use_caller"
    by (auto simp: Scheduler_new_def Let_def split: if_splits)
  let ?s1 = "start_threads (m_threadCount s0) 0 new_tid s0"
  have s1: "Scheduler_start new_tid s0 = Inr ?s1" using e by (simp add: Scheduler_start_def)
  then have "pool_start (pool_new ?s1)" using s0 by (rule pool_start.intros [rotated])
  moreover have "IOManager_start threads use_caller me tid f new_tid sch now tls
      = Inr ((IOManager_new me (sch(me := s0)) now)\<lparr>scheds := sch(me := ?s1)\<rparr>,
             tls\<lparr>t_scheduler := Some me, t_main_fiber := t_main_fiber tls \<or> use_caller\<rparr>)"
    by (simp add: IOManager_start_def s0 s1 IOManager_new_facts Scheduler_SetThis_def)
  ultimately show ?thesis using e
    by (intro exI [of _ "(IOManager_new me (sch(me := s0)) now)\<lparr>scheds := sch(me := ?s1)\<rparr>"] exI [of _ ?s1])
       (simp add: IOManager_new_facts start_threads_only)
qed

lemma tickles_frame [simp]: "scheds ((tickle sid ^^ n) s) = scheds s" "self ((tickle sid ^^ n) s) = self s"
  by (induction n) simp_all

lemma iom_stopping_frame: "iom_stopping now s = (s1, b) \<Longrightarrow> scheds s1 = scheds s \<and> self s1 = self s \<and> (b \<longrightarrow> stopping (scheds s (self s)))"
  by (auto simp: iom_stopping_def split: prod.splits)

text \<open>
  \<open>main\<close> schedules \<open>run\<close> on its manager and begins to end: \<open>stop\<close> passes its assertions, and the thread itself becomes
  the only worker of the manager, with \<open>run\<close> in the queue.
\<close>

lemma process_main_result:
  assumes "0 < threads"
  shows "\<exists>worker m tls s0. process_main threads tid f new_tid sch now now_end run_cb = Inr (worker, m, True, tls)
    \<and> self worker = 0 \<and> m_threads (scheds worker 0) = map new_tid [0 ..< threads] \<and> \<not> m_useCaller (scheds worker 0)
    \<and> self m = 1 \<and> m_threads (scheds m 1) = [] \<and> t_scheduler tls = Some 1
    \<and> pool_start (pool_new s0) \<and> m_tasks s0 = [] \<and> m_activeThreadCount s0 = 0
    \<and> scheds m 1 = s0\<lparr>m_tasks := [run_task run_cb], m_stopping := True\<rparr>"
proof -
  obtain w sw where w: "IOManager_start threads False 0 tid 0 new_tid sch now thread_locals_new
      = Inr (w, thread_locals_new\<lparr>t_scheduler := Some 0, t_main_fiber := False\<rparr>)"
    "self w = 0" "scheds w = sch(0 := sw)" "m_threads sw = map new_tid [0 ..< threads]" "\<not> m_useCaller sw"
    using IOManager_start_result [OF assms, of False 0 tid 0 new_tid sch now thread_locals_new]
    by (auto simp: thread_locals_new_def)
  let ?tls = "thread_locals_new\<lparr>t_scheduler := Some 1, t_main_fiber := True\<rparr>"
  obtain m s0 where m: "IOManager_start 1 True 1 tid f new_tid (scheds w) now (thread_locals_new\<lparr>t_scheduler := Some 0, t_main_fiber := False\<rparr>)
      = Inr (m, ?tls)" "self m = 1" "scheds m = (scheds w)(1 := s0)" "pool_start (pool_new s0)" "m_tasks s0 = []"
      "m_activeThreadCount s0 = 0" "\<not> m_stopping s0" "m_useCaller s0" "m_schedulerFiber s0 = Some f" "m_threads s0 = []"
    using IOManager_start_result [of 1 True 1 tid f new_tid "scheds w" now "thread_locals_new\<lparr>t_scheduler := Some 0, t_main_fiber := False\<rparr>"]
    by auto
  let ?m1 = "schedule_on 1 (ScheduleTask_cb (Some run_cb) (- 1)) m"
  have sc: "scheds ?m1 1 = s0\<lparr>m_tasks := [run_task run_cb]\<rparr>"
    using m by (simp add: schedule_on_def scheduleLock_def ScheduleTask_cb_def run_task_def Let_def)
  obtain m2 b where st: "iom_stopping now_end ?m1 = (m2, b)" by fastforce
  have fr: "scheds m2 = scheds ?m1" "self m2 = 1" "\<not> b"
    using iom_stopping_frame [OF st] m sc by (auto simp: stopping_def)
  have "\<exists>n. IOManager_stop now_end ?tls ?m1 = Inr ((tickle 1 ^^ n) (m2\<lparr>scheds := (scheds m2)(1 := (scheds m2 1)\<lparr>m_stopping := True\<rparr>)\<rparr>), True)"
    using fr m sc by (simp add: IOManager_stop_def st Scheduler_stop_def Let_def del: One_nat_def) blast
  then obtain n where "IOManager_stop now_end ?tls ?m1
      = Inr ((tickle 1 ^^ n) (m2\<lparr>scheds := (scheds m2)(1 := (scheds m2 1)\<lparr>m_stopping := True\<rparr>)\<rparr>), True)" by blast
  then have "process_main threads tid f new_tid sch now now_end run_cb
      = Inr (w, (tickle 1 ^^ n) (m2\<lparr>scheds := (scheds m2)(1 := (scheds m2 1)\<lparr>m_stopping := True\<rparr>)\<rparr>), True, ?tls)"
    by (simp add: process_main_def w(1) m(1) del: One_nat_def)
  then show ?thesis using w m fr sc
    by (intro exI [of _ w] exI [of _ "(tickle 1 ^^ n) (m2\<lparr>scheds := (scheds m2)(1 := (scheds m2 1)\<lparr>m_stopping := True\<rparr>)\<rparr>)"]
        exI [of _ ?tls] exI [of _ s0]) (simp del: One_nat_def)
qed

lemma run_task_simps [simp]: "thread (run_task f) = - 1" "fiber (run_task f) = None" "cb (run_task f) = Some f"
  by (simp_all add: run_task_def ScheduleTask_cb_def ScheduleTask_empty_def)

lemma takes_run:
  assumes "m_tasks (sched p) = [run_task f]"
  shows "run_fetch tid p = Inr (p\<lparr>sched := (sched p)\<lparr>m_tasks := [], m_activeThreadCount := m_activeThreadCount (sched p) + 1\<rparr>,
    workers := (workers p)(tid := Taken (run_task f))\<rparr>)"
  using assms by (simp add: run_fetch_def fetch_def)

text \<open>The only worker of a stopped pool takes the one task, runs it, and can end.\<close>

lemma single_worker_ends:
  assumes "m_tasks s = [run_task f]" and "m_activeThreadCount s = 0" and "m_stopping s"
  shows "\<exists>p. (pool_step_on {tid})\<^sup>*\<^sup>* (pool_new s) p \<and> workers p tid = Ended \<and> stopping (sched p)"
proof -
  let ?p0 = "pool_new s"
  have w0: "workers ?p0 tid = AtLoop" "m_tasks (sched ?p0) = [run_task f]" "\<not> idle_term ?p0 tid" "sched ?p0 = s"
    by (simp_all add: pool_new_def assms)
  obtain p1 where p1: "run_fetch tid ?p0 = Inr p1" "workers p1 tid = Taken (run_task f)" "m_tasks (sched p1) = []"
      "m_activeThreadCount (sched p1) = 1" "m_stopping (sched p1)" "idle_term p1 = idle_term ?p0"
    using takes_run [OF w0(2), of tid] assms w0 by auto
  obtain p2 where p2: "run_resume tid (run_task f) p1 = Some p2" "workers p2 tid = Resumed (run_task f)" "sched p2 = sched p1"
      "idle_term p2 = idle_term p1" by (simp add: run_resume_def)
  let ?p3 = "run_finish tid (run_task f) p2"
  have p3: "workers ?p3 tid = AtLoop" "m_tasks (sched ?p3) = []" "stopping (sched ?p3)" "\<not> idle_term ?p3 tid"
    using p1 p2 w0 by (simp_all add: run_finish_def stopping_def)
  obtain p4 where f4: "run_fetch tid ?p3 = Inr p4" by (simp add: run_fetch_empty [OF p3(2)])
  then have p4: "workers p4 tid = InIdle" "m_tasks (sched p4) = []" "stopping (sched p4)"
    using run_fetch_idle [OF f4 p3(2)] p3 by simp_all
  let ?p5 = "run_idle_back True tid p4"
  have p5: "workers ?p5 tid = AtLoop" "m_tasks (sched ?p5) = []" "idle_term ?p5 tid" "stopping (sched ?p5)"
    using p4 by (simp_all add: run_idle_back_def stopping_def)
  obtain p6 where f6: "run_fetch tid ?p5 = Inr p6" "sched p6 = sched ?p5" using p5(3) by (simp add: run_fetch_empty [OF p5(2)])
  have "workers p6 tid = Ended" using run_fetch_idle [OF f6(1) p5(2)] p5 by simp
  moreover have "(pool_step_on {tid})\<^sup>*\<^sup>* ?p0 p6"
  proof -
    have "pool_step_on {tid} ?p0 p1" using ps_fetch [OF _ w0(1) p1(1), of "{tid}"] by (simp add: pool_step_on_def)
    moreover have "pool_step_on {tid} p1 p2" using ps_resume [OF _ p1(2) p2(1), of "{tid}"] by (simp add: pool_step_on_def)
    moreover have "pool_step_on {tid} p2 ?p3" using ps_finish [OF _ p2(2), of "{tid}"] by (simp add: pool_step_on_def)
    moreover have "pool_step_on {tid} ?p3 p4" using ps_fetch [OF _ p3(1) f4, of "{tid}"] by (simp add: pool_step_on_def)
    moreover have "pool_step_on {tid} p4 ?p5" using ps_idle_exit [OF _ p4(1,3), of "{tid}"] by (simp add: pool_step_on_def)
    moreover have "pool_step_on {tid} ?p5 p6" using ps_fetch [OF _ p5(1) f6(1), of "{tid}"] by (simp add: pool_step_on_def)
    ultimately show ?thesis by (meson rtranclp.rtrancl_refl rtranclp.rtrancl_into_rtrancl)
  qed
  ultimately show ?thesis using f6(2) p5(4) by auto
qed

lemma ended_has_run:
  assumes "pool_start (pool_new s0)" and "m_tasks s0 = []"
    and "(pool_step_on {tid})\<^sup>*\<^sup>* (pool_new (s0\<lparr>m_tasks := [run_task f], m_stopping := True\<rparr>)) p" and "workers p tid = Ended"
  shows "run_task f \<in># finished p"
proof -
  let ?q = "pool_submit (run_task f) (pool_new s0)"
  let ?p1 = "pool_new (s0\<lparr>m_tasks := [run_task f], m_stopping := True\<rparr>)"
  have "?p1 = ?q\<lparr>sched := (sched ?q)\<lparr>m_stopping := True\<rparr>\<rparr>"
    using assms(2) by (simp add: pool_submit_def pool_new_def scheduleLock_def)
  moreover have "pool_step_on {tid} ?q (?q\<lparr>sched := (sched ?q)\<lparr>m_stopping := True\<rparr>\<rparr>)"
    by (simp only: pool_step_on_def ps_stop finite.intros simp_thms)
  moreover have "pool_step_on {tid} (pool_new s0) ?q" by (simp only: pool_step_on_def ps_submit finite.intros simp_thms)
  ultimately have r: "(pool_step_on {tid})\<^sup>*\<^sup>* (pool_new s0) ?p1" by (metis rtranclp.rtrancl_refl rtranclp.rtrancl_into_rtrancl)
  have ok: "pool_ok {tid} ?p1" by (rule ps.reachable_inv [OF assms(1) r])
  have "ended_ok (submitted ?p1) ?p1" by (simp add: ended_ok_def none_idle_term_def pool_new_def)
  from ended_ok_steps [OF assms(3) ok this] have "submitted ?p1 \<subseteq># finished p"
    using assms(4) by (auto simp: ended_ok_def none_idle_term_def)
  then show ?thesis by (auto simp: pool_new_def)
qed



text \<open>
  Had \<open>main\<close> made its own manager first and the other one afterwards, the thread would have been bound
  to the second when the first is stopped, and \<open>stop\<close> would have failed its assertion.
\<close>

lemma stop_needs_last_manager:
  assumes "IOManager_start threads True me tid f new_tid sch now tls = Inr (m, tls1)"
    and "IOManager_start threads' use_caller other tid f' new_tid' sch' now' tls1 = Inr (m', tls2)" and "other \<noteq> me"
  shows "IOManager_stop now_end tls2 m = Inl SchedAssertFailed"
proof -
  have pos: "0 < threads" "0 < threads'"
    using assms(1,2) by (auto simp: IOManager_start_def Scheduler_new_def split: if_splits)
  have t2: "t_scheduler tls2 = Some other"
    using IOManager_start_result [OF pos(2), of use_caller other tid f' new_tid' sch' now' tls1] assms(2) by auto
  obtain s1 where m: "self m = me" "scheds m = sch(me := s1)" "m_useCaller s1" "\<not> m_stopping s1"
    using IOManager_start_result [OF pos(1), of True me tid f new_tid sch now tls] assms(1) by auto
  obtain m1 b where st: "iom_stopping now_end m = (m1, b)" by fastforce
  have "\<not> b" "scheds m1 = scheds m" "self m1 = me" using iom_stopping_frame [OF st] m by (auto simp: stopping_def)
  then show ?thesis using t2 m assms(3) by (simp add: IOManager_stop_def st Scheduler_stop_def)
qed

end
