(* ===== verification/Centre_Run.thy ===== *)
theory Centre_Run
  imports Process Registry Startup
begin

text \<open>
  \<open>run\<close> of \<^verbatim>\<open>main.cpp\<close> with the object it makes: the constructor of \<^verbatim>\<open>Rpc_server\<close> and \<^verbatim>\<open>InitHeartbeat\<close>
  (\<^verbatim>\<open>server/rpc_server.cpp\<close>).  It joins the tables of \<open>Registry\<close>, the server of \<open>Startup\<close> and the manager of
  \<open>Process\<close> the fiber runs on.
\<close>

section \<open>The server object\<close>

definition MAX_FD :: nat where "MAX_FD = 65536"

record ('c, 'l, 'k) centre_server =
  rs_tcp :: "('c, 'l, 'k) tcp_server"       \<comment> \<open>the base class\<close>
  rs_tables :: rpc_server
  rs_ioManager :: "nat option"
  rs_users :: "nat \<Rightarrow> rpc_conn option"      \<comment> \<open>the array \<^verbatim>\<open>users\<close>\<close>

definition Rpc_server_new ::
    "bytes option \<Rightarrow> (nat \<Rightarrow> ('c, 'l) listener) \<Rightarrow> 'k \<Rightarrow> (nat \<Rightarrow> bytes) \<Rightarrow> thread_locals
     \<Rightarrow> ('c, 'l, 'k) centre_server \<times> thread_locals" where
  \<comment> \<open>\<open>gt\<close>: the name of \<^verbatim>\<open>IOManager::GetThis()\<close>, the default arguments of the base class; \<open>junk\<close>: what the memory of
    the receive buffers holds\<close>
  "Rpc_server_new gt h k junk tls =
     (\<lparr>rs_tcp = TcpServer_new gt gt h k, rs_tables = rpc_server_new, rs_ioManager = None,
       rs_users = (\<lambda>i. if i < MAX_FD then Some (rpc_conn_new (junk i)) else None)\<rparr>,
      tls\<lparr>t_hook := True\<rparr>)"

definition InitHeartbeat ::
    "(nat \<Rightarrow> bool) \<Rightarrow> 'cb \<Rightarrow> thread_locals \<Rightarrow> 'cb iomanager \<Rightarrow> ('c, 'l, 'k) centre_server
     \<Rightarrow> (('c, 'l, 'k) centre_server \<times> 'cb iomanager) option" where
  \<comment> \<open>\<open>heartbeat\<close>: the call of \<open>doHeartbeat\<close>; \<open>None\<close>: a call through a null pointer\<close>
  "InitHeartbeat is_iom heartbeat tls m r =
     (let r1 = r\<lparr>rs_ioManager := IOManager_GetThis is_iom tls\<rparr>
      in case rs_ioManager r1 of
           None \<Rightarrow> None
         | Some sid \<Rightarrow> Some (r1, schedule_on sid (ScheduleTask_cb (Some heartbeat) (- 1)) m))"

datatype centre_error = NullIOManager | StartError start_error

definition centre_program ::
    "(bytes \<Rightarrow> bytes option \<Rightarrow> u16 \<Rightarrow> int \<Rightarrow> int \<Rightarrow> sockaddr option list option) \<Rightarrow> 'k sys \<Rightarrow> bool \<Rightarrow> ('k \<Rightarrow> 'k)
     \<Rightarrow> (nat \<Rightarrow> bool) \<Rightarrow> 'cb \<Rightarrow> bytes option \<Rightarrow> (nat \<Rightarrow> ('c, 'l) listener) \<Rightarrow> 'k \<Rightarrow> (nat \<Rightarrow> bytes) \<Rightarrow> thread_locals \<Rightarrow> 'cb iomanager
     \<Rightarrow> centre_error + (('c, 'l, 'k) centre_server \<times> thread_locals \<times> 'cb iomanager) option" where
  \<comment> \<open>\<open>None\<close>: the loop that binds never ends\<close>
  "centre_program getaddrinfo sys big pause is_iom heartbeat gt h k junk tls m =
     (case Rpc_server_new gt h k junk tls of
        (r, tls1) \<Rightarrow>
          (case InitHeartbeat is_iom heartbeat tls1 m r of
             None \<Rightarrow> Inl NullIOManager
           | Some (r1, m1) \<Rightarrow>
               (case centre_run getaddrinfo sys big pause (rs_tcp r1) of
                  Inl e \<Rightarrow> Inl (StartError e)
                | Inr None \<Rightarrow> Inr None
                | Inr (Some w1) \<Rightarrow> Inr (Some (r1\<lparr>rs_tcp := w1\<rparr>, tls1, m1)))))"

section \<open>Properties\<close>

lemma InitHeartbeat_manager:
  assumes "t_scheduler tls = Some sid" and "is_iom sid"
  shows "InitHeartbeat is_iom heartbeat tls m r = Some (r\<lparr>rs_ioManager := Some sid\<rparr>, schedule_on sid (run_task heartbeat) m)"
  using assms by (simp add: InitHeartbeat_def IOManager_GetThis_def run_task_def)

lemma queue_run_task:
  "queue other (schedule_on sid (run_task f) m) = (if other = sid then queue sid m @ [run_task f] else queue other m)"
  by (simp add: queue_schedule_on real_task_def)

text \<open>
  C15: the registration centre comes up: on a thread bound to a manager, once the address is looked up, and if some
  round of the loop can bind it, \<open>run\<close> ends with empty tables, the sweep queued once on the manager, the hooks
  switched on, one listening socket and one accept loop for it, and the rounds that failed before have left no
  descriptor open.
\<close>

theorem centre_comes_up:
  fixes h :: "nat \<Rightarrow> ('c, 'l) listener"
  assumes "descriptors sys opened" and "\<forall>k. opened (pause k) = opened k" and "centre_address getaddrinfo = Some a"
    and "fst (tcp_bind sys big a False ((bind_retry sys big pause a ^^ n) (TcpServer_new gt gt h k)))"
    and "t_scheduler tls = Some sid" and "is_iom sid"
  shows "\<exists>r tls1 m1 p. centre_program getaddrinfo sys big pause is_iom heartbeat gt h k junk tls m = Inr (Some (r, tls1, m1))
    \<and> rs_tables r = rpc_server_new \<and> rs_ioManager r = Some sid \<and> queue sid m1 = queue sid m @ [run_task heartbeat] \<and> t_hook tls1
    \<and> m_socks (rs_tcp r) = [p] \<and> accept_tasks (rs_tcp r) = [AcceptLoop p] \<and> \<not> m_isStop (rs_tcp r)
    \<and> listener_own (sock_heap (rs_tcp r) p) \<noteq> {}
    \<and> opened (tcp_kern (rs_tcp r)) = opened k \<union> listener_own (sock_heap (rs_tcp r) p)"
proof -
  obtain w1 p where run: "centre_run getaddrinfo sys big pause (TcpServer_new gt gt h k) = Inr (Some w1)"
    and w1: "m_socks w1 = [p]" "accept_tasks w1 = [AcceptLoop p]" "\<not> m_isStop w1" "listener_own (sock_heap w1 p) \<noteq> {}"
      "opened (tcp_kern w1) = opened k \<union> listener_own (sock_heap w1 p)"
    using registration_centre_listens [OF assms(1-4)] by blast
  let ?tls = "tls\<lparr>t_hook := True\<rparr>"
  let ?m1 = "schedule_on sid (run_task heartbeat) m"
  have "t_scheduler ?tls = Some sid" using assms(5) by simp
  then have "centre_program getaddrinfo sys big pause is_iom heartbeat gt h k junk tls m
    = Inr (Some (\<lparr>rs_tcp = w1, rs_tables = rpc_server_new, rs_ioManager = Some sid,
        rs_users = (\<lambda>i. if i < MAX_FD then Some (rpc_conn_new (junk i)) else None)\<rparr>, ?tls, ?m1))"
    using assms(6) by (simp add: centre_program_def Rpc_server_new_def InitHeartbeat_manager run)
  then show ?thesis using w1 by (auto simp: queue_run_task)
qed

text \<open>The witness runs the centre on the manager \<open>main\<close> makes; the address is free in the second round.\<close>

theorem centre_comes_up_witness:
  "\<exists>r tls1 m1 p. centre_program demo_getaddrinfo busy_sys False demo_pause (\<lambda>_. True) (8 :: nat) None (\<lambda>_. Plain CreateTCPSocket :: (unit, unit) listener)
       [3] (\<lambda>_. []) (thread_locals_new\<lparr>t_scheduler := Some 1\<rparr>) (IOManager_new 1 demo_scheds 0) = Inr (Some (r, tls1, m1))
     \<and> queue 1 m1 = queue 1 (IOManager_new 1 demo_scheds 0) @ [run_task 8] \<and> m_socks (rs_tcp r) = [p]
     \<and> set (tcp_kern (rs_tcp r)) = set [3] \<union> listener_own (sock_heap (rs_tcp r) p)"
proof -
  have "centre_address demo_getaddrinfo = Some demo_address" by (simp add: centre_address_def demo_lookup_any)
  from centre_comes_up [OF bs.descriptors_axioms set_demo_pause this demo_second_try [unfolded demo_server_def],
      of "thread_locals_new\<lparr>t_scheduler := Some 1\<rparr>" 1 "\<lambda>_. True" 8 "\<lambda>_. []" "IOManager_new 1 demo_scheds 0"]
  show ?thesis by (simp del: One_nat_def) blast
qed

end
