(* ===== verification/Spec2Isabelle.thy ===== *)
theory Spec2Isabelle
  imports Threads Locker Timer Fiber Scheduler FdManager IOManager Hook Endian Wire Messages Text Address Socket SSL_Socket
    Tcp_Server Startup Registry Rpc Example Service_Run Process Centre_Run
begin

text \<open>
  A verification library for \<^verbatim>\<open>RPCCoroutineServiceFramework\<close>: a registration centre, RPC servers and RPC clients on
  top of a library of fibers whose system calls suspend the fiber instead of the thread.

  \<^bold>\<open>The program.\<close>  A \<^verbatim>\<open>Fiber\<close> is a stack that can be left and entered again; a \<^verbatim>\<open>Scheduler\<close> runs
  fibers and callbacks from one queue on several \<^verbatim>\<open>Thread\<close>s; an \<^verbatim>\<open>IOManager\<close> is a scheduler whose idle fiber waits in
  \<^verbatim>\<open>epoll\<close> and also a \<^verbatim>\<open>TimerManager\<close>, whose nearest deadline bounds the wait.  The hooks replace the blocking
  system calls: they look the descriptor up in the \<^verbatim>\<open>FdManager\<close>, register the fiber with the manager, add a timer
  when a timeout is set, and yield.  \<^verbatim>\<open>Socket\<close>, \<^verbatim>\<open>SSLSocket\<close> and \<^verbatim>\<open>TcpServer\<close> use the hooked calls.  The centre
  (\<^verbatim>\<open>Rpc_server\<close>, \<^verbatim>\<open>Rpc_conn\<close>) and the RPC server (\<^verbatim>\<open>provider\<close>) derive from \<^verbatim>\<open>TcpServer\<close>; the client side is
  \<^verbatim>\<open>Channel\<close> with \<^verbatim>\<open>Control\<close>.  All three speak protobuf messages whose generated code is part of the sources.

  \<^bold>\<open>The theories\<close>, each with the files it models:

    \<^item> \<open>Prelude\<close>, \<open>Text\<close>, \<open>Ordered_Set\<close>, \<open>FdTable\<close>: machine types, rule collections, the locale
      \<open>invariant_system\<close>; strings and numbers as text; \<^verbatim>\<open>std::set\<close> under a comparator (locale
      \<open>strict_weak_order\<close>); a vector indexed by descriptor that grows (locale \<open>growing_table\<close>).
    \<^item> \<open>Threads\<close>: \<^verbatim>\<open>thread.h\<close>, \<^verbatim>\<open>thread.cpp\<close>.  Objects in a store, thread-locals as functions of the
      thread; creation as the relation \<open>creation_step\<close>.  \<open>Locker\<close>: \<^verbatim>\<open>util/locker.h\<close>, the POSIX functions being the
      record \<open>posix\<close>.
    \<^item> \<open>Timer\<close>: \<^verbatim>\<open>timer.h\<close>, \<^verbatim>\<open>timer.cpp\<close>.  The clock is an argument; \<open>listExpiredCb\<close> is a partial
      function, because the code's loop need not end.
    \<^item> \<open>Fiber\<close>: \<^verbatim>\<open>fiber.h\<close>, \<^verbatim>\<open>fiber.cpp\<close>.  A context is what activating it does; failed assertions are
      errors.
    \<^item> \<open>Scheduler\<close>: \<^verbatim>\<open>scheduler.h\<close>, \<^verbatim>\<open>scheduler.cpp\<close>.  One function for each critical section, and the
      relation \<open>pool_step\<close> for the workers that interleave between them.
    \<^item> \<open>FdManager\<close>: \<^verbatim>\<open>fd_manager.h\<close>, \<^verbatim>\<open>fd_manager.cpp\<close>.  Shared records in a heap; the two halves of
      \<open>get\<close> under the read and the write lock are separate.
    \<^item> \<open>IOManager\<close>: \<^verbatim>\<open>ioscheduler.h\<close>, \<^verbatim>\<open>ioscheduler.cpp\<close>.  Event contexts in a heap, every \<^verbatim>\<open>epoll_ctl\<close>
      logged; \<open>iom_step\<close> runs all operations.
    \<^item> \<open>Process\<close>: the constructor, \<^verbatim>\<open>stop\<close> and destructor of \<^verbatim>\<open>IOManager\<close> around the two theories before, and the
      managers \<^verbatim>\<open>main\<close> of \<^verbatim>\<open>main.cpp\<close> and of \<^verbatim>\<open>exampleService.cpp\<close> makes; \<open>thread_locals\<close> are those of one thread.
    \<^item> \<open>Hook\<close>: \<^verbatim>\<open>hook.h\<close>, \<^verbatim>\<open>hook.cpp\<close>.  A call is split where it yields; the kernel's functions are
      arguments.
    \<^item> \<open>Endian\<close>, \<open>Address\<close>: \<^verbatim>\<open>endian.h\<close>, \<^verbatim>\<open>address.h\<close>, \<^verbatim>\<open>address.cc\<close>.  The resolver is an argument.
    \<^item> \<open>Socket\<close>, \<open>SSL_Socket\<close>: \<^verbatim>\<open>socket.h\<close>, \<^verbatim>\<open>socket.cc\<close>.  The system is the record \<open>sys\<close>, OpenSSL the
      record \<open>ssl_lib\<close>; an SSL socket extends the record of a socket.
    \<^item> \<open>Tcp_Server\<close>: \<^verbatim>\<open>tcp_server.h\<close>, \<^verbatim>\<open>tcp_server.cc\<close>.  Sockets in a heap, because \<open>m_socks\<close> and
      the accept loops share them; \<open>tcp_step\<close> interleaves \<open>start\<close>, \<open>stop\<close> and the tasks.
    \<^item> \<open>Startup\<close>: \<^verbatim>\<open>config.h\<close>, \<^verbatim>\<open>config.cpp\<close>, and the part of \<open>run\<close> of \<^verbatim>\<open>main.cpp\<close> that binds and starts;
      \<open>Centre_Run\<close>: the whole of it, with the server object and its \<open>InitHeartbeat\<close>.
    \<^item> \<open>Wire\<close>, \<open>Messages\<close>: \<^verbatim>\<open>rpcheader.pb.cc\<close>, \<^verbatim>\<open>rpc.pb.cc\<close> and the fields of their headers.  The protobuf
      runtime is the records \<open>pb_lib\<close> and \<open>msg_lib\<close>.
    \<^item> \<open>Registry\<close>: \<^verbatim>\<open>rpc_conn.cpp\<close>, \<^verbatim>\<open>rpc_server.cpp\<close>.  \<open>Rpc\<close>: \<^verbatim>\<open>provider.cpp\<close>, \<^verbatim>\<open>channel.cpp\<close>,
      \<^verbatim>\<open>control.cpp\<close>.  \<open>Example\<close>, \<open>Service_Run\<close>: \<^verbatim>\<open>exampleService.cpp\<close>, \<^verbatim>\<open>exampleclient.cpp\<close>; the second is \<open>run\<close> of
      the service, which joins registration, server and provider.

  \<^bold>\<open>Interfaces.\<close>  What is not in the sources is a record of functions whose documented behaviour is a locale, with an
  interpretation on an executable instance that the witnesses run: \<open>wire_format\<close> and \<open>message_format\<close> (the
  protobuf runtime; instance: base-128 varints), \<open>descriptors\<close> (which descriptors a system call opens and
  closes; instance: a list of open ones), \<open>ssl_channel\<close> (what a write sends), \<open>posix_objects\<close> (semaphores and condition
  variables; instance: a process of one thread).  Contracts between the components are
  locales interpreted on the model itself: \<open>invariant_system\<close> (timers, fibers, worker pool, manager, centre, thread
  creation), \<open>strict_weak_order\<close> (timers, addresses), \<open>growing_table\<close> (both descriptor tables),
  \<open>counting_semaphore\<close> (the semaphore of a thread and, as a sublocale, \<^verbatim>\<open>Sem\<close>), \<open>task_queue\<close> (the scheduler as the manager sees it), \<open>byte_codec\<close> and \<open>message_parser\<close> (generated parsers),
  \<open>service_registry\<close> (the tables of the centre).

  \<^bold>\<open>What is shown.\<close>
    \<^item> Scheduling: tasks are neither lost nor duplicated, a fiber is resumed by one worker at a time, a
      worker takes the first task it may, workers leave only when everything pushed before is done; the life
      cycle of a fiber, and that \<open>yield\<close> returns to its \<open>resume\<close>.
    \<^item> The process: \<^verbatim>\<open>main\<close> executes \<open>run\<close> before it returns and its managers end without a failed assertion; a
      manager's destructor frees each context once, and none is left unless a resize raced.
    \<^item> Timers: the set stays ordered by deadline; what is returned as expired, and what is left, is exact; the loop
      that never ends after a rollover.
    \<^item> Descriptors and events: each waiting fiber is counted and is woken once by an event, \<open>cancelEvent\<close> or \<open>cancelAll\<close>; the
      interest the kernel has is the one registered (a refinement); the race that loses a context.
    \<^item> Hooks: outside sockets a hooked call is the call itself; a call that times out returns \<^verbatim>\<open>ETIMEDOUT\<close> and
      leaves nothing behind; and, below, a timeout set on a \<open>Socket\<close> arrives there.
    \<^item> Sockets and servers: a socket owns at most its descriptor and gives it back; \<open>bind\<close> is all or nothing; after
      \<open>stop\<close> a loop lets in at most one client; the centre and the example service come up listening.
    \<^item> Messages, centre and calls: every message reads back as it was written; what a service registers a client
      finds; entries expire exactly when the service has been silent; a call returns the method's answer.

  \<^bold>\<open>Bounds and fuel.\<close>  The parse loops take the length of the input as fuel (the loop over a repeated field one
  more): each round that goes on consumes at least one byte, and the round trips are stated without fuel.
  Loops that wait for the outside (\<open>listExpiredCb\<close>, \<open>do_io\<close>'s retries, \<open>send_loop\<close>, \<open>bind_until\<close>, \<open>register_until\<close>) are
  \<open>partial_function (option)\<close>: \<open>None\<close> is the loop that never ends, and where the code returns this is proved.
  Machine integers are words of their width; time points and counters are unbounded integers, which is the code as long as
  they do not overflow.

  \<^bold>\<open>Not modelled.\<close>  Writing to the log and to \<^verbatim>\<open>std::cout\<close>, the log sink \<^verbatim>\<open>main\<close> installs and the memory limit it sets;
  the reflection, arena and accessor code of the generated messages; stacks and signal masks of fibers; copying into buffers
  of the \<open>recv\<close> family beyond the bytes received; the bodies of \<^verbatim>\<open>Scheduler::idle\<close> and \<^verbatim>\<open>Scheduler::tickle\<close>, which every
  manager overrides; the destructor of \<^verbatim>\<open>Rpc_server\<close>, whose \<^verbatim>\<open>delete\<close> of an array is undefined; getters that only
  return a field, which are the selectors of the records; comments and declarations of the headers.
  Code of one critical section is atomic; two sections interleave where the text of a theory says so.
\<close>

section \<open>Timeouts: from a socket to the hooks\<close>

text \<open>
  A \<open>Socket\<close> sets its timeout through the hooked \<^verbatim>\<open>setsockopt\<close>, and the hooks keep it in the record of the
  descriptor, where \<open>do_io\<close> finds it.  \<open>hooked_sys\<close> is a system whose two fields are the model's own hook
  and descriptor table; the kernel's answer is \<open>setsockopt_f\<close>.
\<close>

definition hooked_sys :: "'k os \<Rightarrow> 'k sysfun \<Rightarrow> 'k hooks sys \<Rightarrow> 'k hooks sys" where
  "hooked_sys os setsockopt_f base =
     base\<lparr>sys_setsockopt := \<lambda>fd level option v w.
            (case v of
               OptInt _ \<Rightarrow> sys_setsockopt base fd level option v w
             | OptTimeval s u \<Rightarrow> (case hook_setsockopt os fd level option (s, u) setsockopt_f w of
                                   Inl _ \<Rightarrow> (False, w)
                                 | Inr (n, w1) \<Rightarrow> (n = 0, w1))),
          fdmgr_timeout := \<lambda>fd so w. map_option (\<lambda>p. getTimeout so (FdManager.heap (fdmgr w) p)) (fd_entry (fdmgr w) (nat fd))\<rparr>"

lemma timeval_ms_of:
  assumes "0 \<le> v" and "v < 2 ^ 31 * 1000"
  shows "\<exists>s u. timeval_of v = OptTimeval s u \<and> timeval_ms s u = word_of_int v"
proof -
  have b: "v div 1000 < 2 ^ 31" "v mod 1000 * 1000 < 2 ^ 31" using assms pos_mod_bound [of 1000 v] by simp_all
  have word: "sint (word_of_int i :: u32) = i" if "0 \<le> i" "i < 2 ^ 31" for i
    using that by (simp add: sint_sbintrunc' signed_take_bit_int_eq_self)
  have "sint (word_of_int (v div 1000) :: u32) = v div 1000" "sint (word_of_int (v mod 1000 * 1000) :: u32) = v mod 1000 * 1000"
    by (rule word; use assms(1) b in simp)+
  then have "timeval_of v = OptTimeval (v div 1000) (v mod 1000 * 1000)"
    using assms(1) by (cases "v = 0") (simp_all add: timeval_of_def)
  moreover have "timeval_ms (v div 1000) (v mod 1000 * 1000) = word_of_int v"
    by (simp add: timeval_ms_def c_div_nonneg)
  ultimately show ?thesis by blast
qed

lemma fd_entry_heap: "fd_entry (m\<lparr>FdManager.heap := h\<rparr>) = fd_entry m"
  by (simp add: fdt.entry_def fun_eq_iff)

text \<open>
  C33: a timeout set on a socket is the one its calls will wait: the milliseconds given to
  \<open>setRecvTimeout\<close>, split into a \<^verbatim>\<open>timeval\<close>, passed through the hooked \<^verbatim>\<open>setsockopt\<close> and put
  together again, come out of \<open>getRecvTimeout\<close> and of the record \<open>do_io\<close> reads unchanged, and the
  send timeout is untouched; without hooks on the thread the record does not learn of it.
\<close>

theorem socket_timeout_roundtrip:
  assumes "0 \<le> m_sock s" "m_sock s < 2 ^ 31" and "fd_entry (fdmgr w) (nat (m_sock s)) = Some p"
    and "0 \<le> v" and "v < 2 ^ 31 * 1000" and "setsockopt_f (kern w) = (n, e, k)"
  shows "let sys = hooked_sys os setsockopt_f base; w1 = setRecvTimeout sys v s w
    in getRecvTimeout sys s w1 = (if t_hook_enable w then v else getRecvTimeout sys s w)
     \<and> getSendTimeout sys s w1 = getSendTimeout sys s w
     \<and> (t_hook_enable w \<longrightarrow> uint (getTimeout SO_RCVTIMEO (FdManager.heap (fdmgr w1) p)) = v)"
proof -
  obtain a u where tv: "timeval_of v = OptTimeval a u" "timeval_ms a u = word_of_int v" using timeval_ms_of assms(4,5) by blast
  have i: "sint (word_of_int v :: u64) = v" "uint (word_of_int v :: u64) = v"
    using assms(4,5) by (simp_all add: sint_sbintrunc' signed_take_bit_int_eq_self unsigned_of_int take_bit_int_eq_self)
  show ?thesis
  proof (cases "t_hook_enable w")
    case True
    then show ?thesis using assms tv i
      by (simp add: hooked_sys_def setRecvTimeout_def getRecvTimeout_def getSendTimeout_def setOption_def hook_setsockopt_def
          Hook.SOL_SOCKET_def Socket.SOL_SOCKET_def get_fd_lookup direct_def update_ctx_def setTimeout_def getTimeout_def
          SO_RCVTIMEO_def SO_SNDTIMEO_def fd_entry_heap Let_def)
  next
    case False
    then show ?thesis using assms tv
      by (simp add: hooked_sys_def setRecvTimeout_def getRecvTimeout_def getSendTimeout_def setOption_def hook_setsockopt_def direct_def Let_def)
  qed
qed


definition demo_base :: "nat hooks sys" where
  "demo_base =
     \<lparr>sys_socket = (\<lambda>_ _ _ w. (- 1, w)), sys_bind = (\<lambda>_ _ w. (True, w)), sys_listen = (\<lambda>_ _ w. (True, w)), sys_connect = (\<lambda>_ _ w. (True, w)),
      sys_connect_with_timeout = (\<lambda>_ _ _ w. (True, w)), sys_accept = (\<lambda>_ w. (- 1, w)), sys_close = (\<lambda>_ w. w), sys_io = (\<lambda>_ _ w. ((0, []), w)),
      sys_setsockopt = (\<lambda>_ _ _ _ w. (True, w)), sys_getsockopt = (\<lambda>_ _ _ w. (Inr 0, w)), sys_getsockname = (\<lambda>_ a _. Some (a, 0)),
      sys_getpeername = (\<lambda>_ a _. Some (a, 0)), fdmgr_get = (\<lambda>_ w. (None, w)), fdmgr_timeout = (\<lambda>_ _ _. None),
      iom_cancelEvent = (\<lambda>_ _ w. (True, w)), iom_cancelAll = (\<lambda>_ w. (True, w))\<rparr>"

theorem socket_timeout_roundtrip_witness:
  "getRecvTimeout (hooked_sys demo_kernel (\<lambda>k. (0, 0, k)) demo_base) (CreateTCPSocket\<lparr>m_sock := 5\<rparr>)
     (setRecvTimeout (hooked_sys demo_kernel (\<lambda>k. (0, 0, k)) demo_base) 120001 (CreateTCPSocket\<lparr>m_sock := 5\<rparr>) (demo_hooks 9)) = 120001"
  using socket_timeout_roundtrip [of "CreateTCPSocket\<lparr>m_sock := 5\<rparr>" "demo_hooks 9" 0 120001 "\<lambda>k. (0, 0, k)" 0 0 0 demo_kernel demo_base]
  by (simp add: demo_hooks_facts Let_def)

end
